(* ===== verification/Prelude.thy ===== *)
theory Prelude
  imports Main "HOL-Library.Word" "HOL-Library.Sublist"
begin

text \<open>
  Shared vocabulary of the development: the machine integers of the Rust sources as words,
  bytes and byte buffers, the two ways an operation of the sources can fail to return
  (\<^emph>\<open>panic\<close>, and an early return with an error value), little-endian byte encoding,
  saturating arithmetic, and the list and map facts that several components use.

  A Rust \<open>String\<close> is a HOL \<open>string\<close> whose characters are the UTF-8 bytes of the text; a
  \<open>[u8; N]\<close> buffer is a \<open>bytes\<close> value (a list of \<open>8 word\<close>).
\<close>

unbundle bit_operations_syntax

type_synonym u8 = "8 word"
type_synonym u16 = "16 word"
type_synonym u32 = "32 word"
type_synonym u64 = "64 word"
type_synonym bytes = "u8 list"

named_theorems std_eval \<open>definitions of the modelled standard library, to evaluate closed terms\<close>
named_theorems wf_intros \<open>introduction rules for well-formedness of the model's values\<close>

subsection \<open>Failure as a value\<close>

text \<open>
  A panic of the sources is a value of its own. \<open>'a outcome\<close> is the result of an operation
  that may panic; the error type of fallible operations is the component's own.
\<close>

datatype panic = Slice_Out_Of_Range | Not_Char_Boundary | Print_Failed

type_synonym 'a outcome = "panic + 'a"

fun bind_sum :: "'e + 'a \<Rightarrow> ('a \<Rightarrow> 'e + 'b) \<Rightarrow> 'e + 'b" where
  "bind_sum (Inl e) f = Inl e"
| "bind_sum (Inr x) f = f x"

lemma bind_sum_Inr_iff: "bind_sum r f = Inr y \<longleftrightarrow> (\<exists>x. r = Inr x \<and> f x = Inr y)"
  by (cases r) auto

lemma bind_sum_Inl_iff: "bind_sum r f = Inl e \<longleftrightarrow> r = Inl e \<or> (\<exists>x. r = Inr x \<and> f x = Inl e)"
  by (cases r) auto

text \<open>\<open>iter().map(f).collect::<Result<Vec<_>, _>>()\<close>: the first error wins.\<close>

fun try_map :: "('a \<Rightarrow> 'e + 'b) \<Rightarrow> 'a list \<Rightarrow> 'e + 'b list" where
  "try_map f [] = Inr []"
| "try_map f (x # xs) = bind_sum (f x) (\<lambda>y. bind_sum (try_map f xs) (\<lambda>ys. Inr (y # ys)))"

lemma try_map_InrD: "try_map f xs = Inr ys \<Longrightarrow> list_all2 (\<lambda>x y. f x = Inr y) xs ys"
  by (induction xs arbitrary: ys) (auto simp: bind_sum_Inr_iff)

lemma try_map_Inr_iff: "try_map f xs = Inr ys \<longleftrightarrow> list_all2 (\<lambda>x y. f x = Inr y) xs ys"
  by (induction xs arbitrary: ys) (auto simp: bind_sum_Inr_iff list_all2_Cons1)

lemma list_all2_choice: "(\<And>x. x \<in> set xs \<Longrightarrow> \<exists>y. P x y) \<Longrightarrow> \<exists>ys. list_all2 P xs ys"
  by (induction xs) (auto simp: list_all2_Cons1)

lemma try_map_length: "try_map f xs = Inr ys \<Longrightarrow> length ys = length xs"
  by (auto dest!: try_map_InrD list_all2_lengthD)

lemma try_map_Inl_iff:
  "(\<exists>e. try_map f xs = Inl e) \<longleftrightarrow> (\<exists>x \<in> set xs. \<exists>e. f x = Inl e)"
proof (induction xs)
  case Nil
  show ?case by simp
next
  case (Cons x xs)
  then show ?case
    by (cases "f x"; cases "try_map f xs") auto
qed

subsection \<open>Little-endian bytes\<close>

text \<open>
  The BPF target is \<open>bpfel\<close> and the supported hosts are x86-64 and aarch64 Linux: native byte
  order is little-endian throughout.
\<close>

fun le_bytes :: "nat \<Rightarrow> nat \<Rightarrow> bytes" where
  "le_bytes 0 x = []"
| "le_bytes (Suc k) x = word_of_nat (x mod 256) # le_bytes k (x div 256)"

fun le_nat :: "bytes \<Rightarrow> nat" where
  "le_nat [] = 0"
| "le_nat (b # bs) = unat b + 256 * le_nat bs"

lemma length_le_bytes [simp]: "length (le_bytes k x) = k"
  by (induction k arbitrary: x) auto

lemma unat_u8_lt [simp]: "unat (b :: u8) < 256"
  using unsigned_less [of b, where ?'a = nat] by simp

lemma unat_of_nat_mod_256 [simp]: "unat (word_of_nat (x mod 256) :: u8) = x mod 256"
  by (simp add: unat_of_nat)

lemma le_nat_le_bytes: "le_nat (le_bytes k x) = x mod 256 ^ k"
proof (induction k arbitrary: x)
  case 0
  show ?case by simp
next
  case (Suc k)
  then show ?case by (simp add: mod_mult2_eq)
qed

lemma le_nat_bound: "le_nat bs < 256 ^ length bs"
proof (induction bs)
  case Nil
  show ?case by simp
next
  case (Cons b bs)
  have "unat b < 256" by simp
  moreover have "256 * le_nat bs + 256 \<le> 256 * 256 ^ length bs"
    using Cons.IH by (simp flip: mult_Suc_right)
  ultimately have "unat b + 256 * le_nat bs < 256 * 256 ^ length bs"
    by linarith
  then show ?case by simp
qed

lemma le_bytes_le_nat: "length bs = k \<Longrightarrow> le_bytes k (le_nat bs) = bs"
  by (induction bs arbitrary: k) auto

text \<open>A word written in native order and read back.\<close>

definition to_ne_bytes :: "nat \<Rightarrow> 'w::len word \<Rightarrow> bytes" where
  "to_ne_bytes k w = le_bytes k (unat w)"

definition from_ne_bytes :: "bytes \<Rightarrow> 'w::len word" where
  "from_ne_bytes bs = word_of_nat (le_nat bs)"

lemma length_to_ne_bytes [simp]: "length (to_ne_bytes k w) = k"
  by (simp add: to_ne_bytes_def)

lemma from_to_ne_bytes:
  "LENGTH('w::len) = 8 * k \<Longrightarrow> from_ne_bytes (to_ne_bytes k (w :: 'w word)) = w"
proof -
  assume len: "LENGTH('w) = 8 * k"
  have "unat w < 2 ^ (8 * k)"
    using unsigned_less [of w, where ?'a = nat] len by simp
  then have "unat w < 256 ^ k"
    by (simp add: power_mult)
  then show ?thesis
    by (simp add: to_ne_bytes_def from_ne_bytes_def le_nat_le_bytes)
qed

lemma to_from_ne_bytes:
  assumes "LENGTH('w::len) = 8 * k" "length bs = k"
  shows "to_ne_bytes k (from_ne_bytes bs :: 'w word) = bs"
proof -
  have "le_nat bs < 256 ^ k"
    using le_nat_bound [of bs] assms(2) by simp
  then have "le_nat bs < 2 ^ LENGTH('w)"
    by (simp add: assms(1) power_mult)
  then show ?thesis
    by (simp add: to_ne_bytes_def from_ne_bytes_def unat_of_nat take_bit_eq_mod
        le_bytes_le_nat [OF assms(2)])
qed

text \<open>\<open>u16::from_be\<close>, \<open>u32::to_be\<close>: a byte swap on a little-endian host.\<close>

definition swap_bytes :: "nat \<Rightarrow> 'w::len word \<Rightarrow> 'w word" where
  "swap_bytes k w = from_ne_bytes (rev (to_ne_bytes k w))"

subsection \<open>Saturating arithmetic on \<open>u64\<close>\<close>

definition saturating_mul :: "u64 \<Rightarrow> u64 \<Rightarrow> u64" where
  "saturating_mul a b = (if unat a * unat b < 2 ^ 64 then a * b else - 1)"

definition saturating_sub :: "u64 \<Rightarrow> u64 \<Rightarrow> u64" where
  "saturating_sub a b = (if b \<le> a then a - b else 0)"

lemma unat_saturating_mul: "unat (saturating_mul a b) = min (unat a * unat b) (2 ^ 64 - 1)"
proof -
  have "unat (- 1 :: u64) = 2 ^ 64 - 1"
    by (simp add: unsigned_minus_1_eq_mask mask_eq_exp_minus_1)
  then show ?thesis
    by (auto simp: saturating_mul_def unat_word_ariths min_def)
qed

lemma unat_saturating_sub: "unat (saturating_sub a b) = unat a - unat b"
  by (simp add: saturating_sub_def unat_sub word_le_nat_alt)

subsection \<open>Runs and forward simulation\<close>

text \<open>
  A step answers an input and changes the state; a run answers a list of inputs. A concrete
  machine refines an abstract one when a relation between their states makes each step give
  the same answer and is kept by it, for the inputs that are admissible in the abstract state.
\<close>

fun run :: "('s \<Rightarrow> 'q \<Rightarrow> 'o \<times> 's) \<Rightarrow> 's \<Rightarrow> 'q list \<Rightarrow> 'o list \<times> 's" where
  "run step s [] = ([], s)"
| "run step s (q # qs) =
     (case step s q of (x, s') \<Rightarrow> (case run step s' qs of (xs, s'') \<Rightarrow> (x # xs, s'')))"

fun admissible :: "('a \<Rightarrow> 'q \<Rightarrow> 'o \<times> 'a) \<Rightarrow> ('a \<Rightarrow> 'q \<Rightarrow> bool) \<Rightarrow> 'a \<Rightarrow> 'q list \<Rightarrow> bool" where
  "admissible step ok a [] = True"
| "admissible step ok a (q # qs) = (ok a q \<and> admissible step ok (snd (step a q)) qs)"

lemma run_Cons:
  "fst (run step s (q # qs)) = fst (step s q) # fst (run step (snd (step s q)) qs)"
  "snd (run step s (q # qs)) = snd (run step (snd (step s q)) qs)"
  by (simp_all split: prod.splits)

lemma length_run [simp]: "length (fst (run step s qs)) = length qs"
  by (induction qs arbitrary: s) (simp_all add: run_Cons del: run.simps(2))

text \<open>An invariant of every step is an invariant of every run.\<close>

lemma run_invariant:
  "(\<And>s q. I s \<Longrightarrow> I (snd (step s q))) \<Longrightarrow> I s \<Longrightarrow> I (snd (run step s qs))"
  by (induction qs arbitrary: s) (simp_all add: run_Cons del: run.simps(2))

locale forward_simulation =
  fixes cstep :: "'c \<Rightarrow> 'q \<Rightarrow> 'o \<times> 'c"
    and astep :: "'a \<Rightarrow> 'q \<Rightarrow> 'o \<times> 'a"
    and ok :: "'a \<Rightarrow> 'q \<Rightarrow> bool"
    and rel :: "'c \<Rightarrow> 'a \<Rightarrow> bool"
  assumes answer: "rel c a \<Longrightarrow> ok a q \<Longrightarrow> fst (cstep c q) = fst (astep a q)"
    and related: "rel c a \<Longrightarrow> ok a q \<Longrightarrow> rel (snd (cstep c q)) (snd (astep a q))"
begin

lemma run_refines:
  "rel c a \<Longrightarrow> admissible astep ok a qs \<Longrightarrow>
   fst (run cstep c qs) = fst (run astep a qs) \<and> rel (snd (run cstep c qs)) (snd (run astep a qs))"
  by (induction qs arbitrary: c a) (simp_all add: run_Cons answer related del: run.simps(2))

end

subsection \<open>Lists and maps\<close>

lemma card_dom_upd_le: "finite (dom m) \<Longrightarrow> card (dom (m(k \<mapsto> v))) \<le> Suc (card (dom m))"
  by (simp add: card_insert_if)

lemma filter_takeWhile_sorted:
  "sorted xs \<Longrightarrow> dropWhile (\<lambda>x. x < c) xs = filter (\<lambda>x. \<not> x < (c :: 'a::linorder)) xs"
proof (induction xs)
  case Nil
  show ?case by simp
next
  case (Cons x xs)
  show ?case
  proof (cases "x < c")
    case True
    with Cons show ?thesis by simp
  next
    case False
    with Cons.prems have "filter (\<lambda>x. \<not> x < c) xs = xs"
      by (auto simp: filter_id_conv)
    with False show ?thesis by simp
  qed
qed

end
