(* ===== verification/Rust_Str.thy ===== *)
theory Rust_Str
  imports Prelude
begin

text \<open>
  The operations of Rust's \<open>str\<close>, \<open>String\<close> and integer parsing that the sources call, on
  strings as UTF-8 byte sequences: ASCII case mapping, decimal printing and parsing,
  searching and slicing (which panics off a character boundary), trimming and splitting on
  Unicode white space, line splitting, and \<open>String::from_utf8_lossy\<close>.
\<close>

subsection \<open>Characters, case\<close>

abbreviation code :: "char \<Rightarrow> nat" where "code c \<equiv> of_char c"

definition is_ascii :: "string \<Rightarrow> bool" where
  "is_ascii s = list_all (\<lambda>c. code c < 128) s"

definition ascii_lower :: "char \<Rightarrow> char" where
  "ascii_lower c = (if 65 \<le> code c \<and> code c \<le> 90 then char_of (code c + 32) else c)"

definition ascii_upper :: "char \<Rightarrow> char" where
  "ascii_upper c = (if 97 \<le> code c \<and> code c \<le> 122 then char_of (code c - 32) else c)"

definition eq_ignore_ascii_case :: "string \<Rightarrow> string \<Rightarrow> bool" where
  "eq_ignore_ascii_case s t = (map ascii_lower s = map ascii_lower t)"

text \<open>
  \<open>str::to_lowercase\<close> and \<open>str::to_uppercase\<close> are Unicode mappings. On ASCII text they are
  the ASCII ones; the table for other text is the argument \<open>tbl\<close>.
\<close>

definition to_lowercase :: "(string \<Rightarrow> string) \<Rightarrow> string \<Rightarrow> string" where
  "to_lowercase tbl s = (if is_ascii s then map ascii_lower s else tbl s)"

definition to_uppercase :: "(string \<Rightarrow> string) \<Rightarrow> string \<Rightarrow> string" where
  "to_uppercase tbl s = (if is_ascii s then map ascii_upper s else tbl s)"

lemmas [std_eval] = is_ascii_def ascii_lower_def ascii_upper_def eq_ignore_ascii_case_def
  to_lowercase_def to_uppercase_def

lemma is_ascii_simps [simp]:
  "is_ascii []" "is_ascii (c # s) \<longleftrightarrow> code c < 128 \<and> is_ascii s"
  "is_ascii (s @ t) \<longleftrightarrow> is_ascii s \<and> is_ascii t"
  by (simp_all add: is_ascii_def)

lemma code_lt_256 [simp]: "code c < 256"
  by (cases c) (simp add: of_char_def)

lemma eq_ignore_ascii_case_refl [simp]: "eq_ignore_ascii_case s s"
  by (simp add: eq_ignore_ascii_case_def)

lemma eq_ignore_ascii_case_length: "eq_ignore_ascii_case s t \<Longrightarrow> length s = length t"
  by (auto simp: eq_ignore_ascii_case_def dest: map_eq_imp_length_eq)

subsection \<open>Decimal numbers\<close>

definition digit_char :: "nat \<Rightarrow> char" where
  "digit_char d = char_of (48 + d)"

fun show_nat :: "nat \<Rightarrow> string" where
  "show_nat n = (if n < 10 then [digit_char n] else show_nat (n div 10) @ [digit_char (n mod 10)])"

declare show_nat.simps [simp del]

fun digits_val :: "nat \<Rightarrow> string \<Rightarrow> nat option" where
  "digits_val acc [] = Some acc"
| "digits_val acc (c # s) =
     (if 48 \<le> code c \<and> code c \<le> 57 then digits_val (10 * acc + (code c - 48)) s else None)"

text \<open>
  \<open>s.parse::<uN>()\<close> with \<open>bound = 2^N\<close>: one optional plus sign, at least one digit, and a
  value that fits.
\<close>

definition parse_uint :: "nat \<Rightarrow> string \<Rightarrow> nat option" where
  "parse_uint bound s =
     (case s of
        [] \<Rightarrow> None
      | c # r \<Rightarrow>
          (case digits_val 0 (if c = CHR ''+'' \<and> r \<noteq> [] then r else s) of
             None \<Rightarrow> None
           | Some n \<Rightarrow> if n < bound then Some n else None))"

lemmas [std_eval] = show_nat.simps digit_char_def parse_uint_def

lemma code_digit_char [simp]: "d < 10 \<Longrightarrow> code (digit_char d) = 48 + d"
  by (simp add: digit_char_def)

lemma show_nat_nonempty [simp]: "show_nat n \<noteq> []"
  by (subst show_nat.simps) simp

lemma show_nat_digits: "c \<in> set (show_nat n) \<Longrightarrow> 48 \<le> code c \<and> code c \<le> 57"
proof (induction n rule: show_nat.induct)
  case (1 n)
  show ?case
  proof (cases "n < 10")
    case True
    with "1.prems" show ?thesis by (simp add: show_nat.simps [of n])
  next
    case False
    with "1.prems" have "c \<in> set (show_nat (n div 10)) \<or> c = digit_char (n mod 10)"
      by (auto simp: show_nat.simps [of n])
    then show ?thesis using "1.IH" [OF False] by auto
  qed
qed

lemma show_nat_ascii [simp]: "is_ascii (show_nat n)"
  by (auto simp: is_ascii_def list_all_iff dest!: show_nat_digits)

lemma digits_val_append:
  "digits_val acc (s @ t) = (case digits_val acc s of None \<Rightarrow> None | Some a \<Rightarrow> digits_val a t)"
  by (induction s arbitrary: acc) auto

lemma digits_val_show_nat: "digits_val 0 (show_nat n) = Some n"
proof (induction n rule: show_nat.induct)
  case (1 n)
  show ?case
  proof (cases "n < 10")
    case True
    then show ?thesis by (simp add: show_nat.simps [of n])
  next
    case False
    with "1.IH" show ?thesis
      by (simp add: show_nat.simps [of n] digits_val_append)
  qed
qed

lemma show_nat_no_sign: "show_nat n = c # r \<Longrightarrow> c \<noteq> CHR ''+''"
  using show_nat_digits [of c n] by auto

lemma parse_show_nat: "n < bound \<Longrightarrow> parse_uint bound (show_nat n) = Some n"
  using digits_val_show_nat [of n]
  by (auto simp: parse_uint_def dest: show_nat_no_sign split: list.split)

lemma show_nat_inj [simp]: "show_nat m = show_nat n \<longleftrightarrow> m = n"
  by (metis digits_val_show_nat option.inject)

lemma parse_uint_bound: "parse_uint bound s = Some n \<Longrightarrow> n < bound"
  by (auto simp: parse_uint_def split: list.splits option.splits if_splits)

subsection \<open>Searching, slicing\<close>

fun find_char :: "char \<Rightarrow> string \<Rightarrow> nat option" where
  "find_char c [] = None"
| "find_char c (x # xs) = (if x = c then Some 0 else map_option Suc (find_char c xs))"

definition rfind_char :: "char \<Rightarrow> string \<Rightarrow> nat option" where
  "rfind_char c s = map_option (\<lambda>i. length s - Suc i) (find_char c (rev s))"

definition is_cont :: "char \<Rightarrow> bool" where
  "is_cont c \<longleftrightarrow> 128 \<le> code c \<and> code c < 192"

definition is_char_boundary :: "string \<Rightarrow> nat \<Rightarrow> bool" where
  "is_char_boundary s i \<longleftrightarrow> i = 0 \<or> i = length s \<or> (i < length s \<and> \<not> is_cont (s ! i))"

text \<open>\<open>&s[a..]\<close> and \<open>&s[a..b]\<close>, which panic out of range or inside a character.\<close>

definition slice_from :: "string \<Rightarrow> nat \<Rightarrow> string outcome" where
  "slice_from s a =
     (if length s < a then Inl Slice_Out_Of_Range
      else if is_char_boundary s a then Inr (drop a s) else Inl Not_Char_Boundary)"

definition slice :: "string \<Rightarrow> nat \<Rightarrow> nat \<Rightarrow> string outcome" where
  "slice s a b =
     (if length s < b \<or> b < a then Inl Slice_Out_Of_Range
      else if is_char_boundary s a \<and> is_char_boundary s b then Inr (drop a (take b s))
      else Inl Not_Char_Boundary)"

definition strip_prefix :: "string \<Rightarrow> string \<Rightarrow> string option" where
  "strip_prefix p s = (if prefix p s then Some (drop (length p) s) else None)"

lemmas [std_eval] = rfind_char_def is_cont_def is_char_boundary_def slice_from_def slice_def
  strip_prefix_def

lemma find_char_None [simp]: "find_char c s = None \<longleftrightarrow> c \<notin> set s"
  by (induction s) auto

lemma find_char_append_hit: "c \<notin> set s \<Longrightarrow> find_char c (s @ c # t) = Some (length s)"
  by (induction s) auto

lemma find_char_SomeD: "find_char c s = Some i \<Longrightarrow> i < length s \<and> s ! i = c \<and> c \<notin> set (take i s)"
  by (induction s arbitrary: i) (auto split: if_splits)

lemma rfind_char_append_hit: "c \<notin> set t \<Longrightarrow> rfind_char c (s @ c # t) = Some (length s)"
  by (simp add: rfind_char_def find_char_append_hit)

lemma rfind_char_None [simp]: "rfind_char c s = None \<longleftrightarrow> c \<notin> set s"
  by (simp add: rfind_char_def)

lemma rfind_char_SomeD:
  assumes "rfind_char c s = Some i"
  shows "i < length s \<and> s ! i = c \<and> c \<notin> set (drop (Suc i) s)"
proof -
  from assms obtain j where j: "find_char c (rev s) = Some j" and i: "i = length s - Suc j"
    by (auto simp: rfind_char_def)
  from find_char_SomeD [OF j] have jl: "j < length s" and e: "rev s ! j = c"
    and n: "c \<notin> set (take j (rev s))" by auto
  have "take j (rev s) = rev (drop (length s - j) s)"
    by (simp add: take_rev)
  with n jl i have "c \<notin> set (drop (Suc i) s)"
    by (simp add: Suc_diff_Suc)
  moreover have "s ! i = c" using e jl i by (simp add: rev_nth)
  ultimately show ?thesis using jl i by simp
qed

lemma find_rfind_le:
  assumes "find_char c s = Some i" "rfind_char c s = Some j"
  shows "i \<le> j"
proof (rule ccontr)
  assume "\<not> i \<le> j"
  with rfind_char_SomeD [OF assms(2)] find_char_SomeD [OF assms(1)] show False
    by (metis in_set_conv_nth length_take less_imp_le_nat min.absorb4 nth_take not_le)
qed

lemma is_cont_ascii: "code c < 128 \<Longrightarrow> \<not> is_cont c"
  by (simp add: is_cont_def)

subsection \<open>Splitting\<close>

fun split_on :: "char \<Rightarrow> string \<Rightarrow> string list" where
  "split_on c [] = [[]]"
| "split_on c (x # xs) =
     (if x = c then [] # split_on c xs
      else (case split_on c xs of [] \<Rightarrow> [[x]] | y # ys \<Rightarrow> (x # y) # ys))"

fun split_once :: "char \<Rightarrow> string \<Rightarrow> (string \<times> string) option" where
  "split_once c [] = None"
| "split_once c (x # xs) =
     (if x = c then Some ([], xs) else map_option (\<lambda>(a, b). (x # a, b)) (split_once c xs))"

text \<open>\<open>s.rsplit([..]).next()\<close>: the text after the last separator, all of it if there is none.\<close>

definition rsplit_last :: "char list \<Rightarrow> string \<Rightarrow> string" where
  "rsplit_last seps s = rev (takeWhile (\<lambda>c. c \<notin> set seps) (rev s))"

definition trim_matches :: "char \<Rightarrow> string \<Rightarrow> string" where
  "trim_matches c s = rev (dropWhile ((=) c) (rev (dropWhile ((=) c) s)))"

definition join_with :: "string \<Rightarrow> string list \<Rightarrow> string" where
  "join_with sep xs = (case xs of [] \<Rightarrow> [] | y # ys \<Rightarrow> y @ concat (map ((@) sep) ys))"

text \<open>
  \<open>str::lines\<close>: lines end in a line feed or a carriage return and a line feed; text after the
  last line feed is a line if there is any, and keeps a trailing carriage return.
\<close>

definition strip_cr :: "string \<Rightarrow> string" where
  "strip_cr s = (if s \<noteq> [] \<and> last s = CHR 0x0D then butlast s else s)"

definition lines :: "string \<Rightarrow> string list" where
  "lines s =
     (let ps = split_on (CHR 0x0A) s
      in map strip_cr (butlast ps) @ (if last ps = [] then [] else [last ps]))"

lemmas [std_eval] = rsplit_last_def trim_matches_def join_with_def strip_cr_def lines_def

lemma split_on_nonempty [simp]: "split_on c s \<noteq> []"
  by (induction s) (auto split: list.splits)

lemma split_on_id: "c \<notin> set s \<Longrightarrow> split_on c s = [s]"
  by (induction s) auto

lemma split_on_append: "c \<notin> set s \<Longrightarrow> split_on c (s @ c # t) = s # split_on c t"
  by (induction s) (auto simp: split_on_nonempty)

lemma split_on_no_sep: "x \<in> set (split_on c s) \<Longrightarrow> c \<notin> set x"
  by (induction s arbitrary: x) (auto split: if_splits list.splits)

lemma split_once_append: "c \<notin> set s \<Longrightarrow> split_once c (s @ c # t) = Some (s, t)"
  by (induction s) auto

lemma split_once_None [simp]: "split_once c s = None \<longleftrightarrow> c \<notin> set s"
  by (induction s) auto

lemma rsplit_last_id: "set s \<inter> set seps = {} \<Longrightarrow> rsplit_last seps s = s"
  by (simp add: rsplit_last_def takeWhile_eq_all_conv [THEN iffD2] disjoint_iff)

lemma rsplit_last_append:
  "c \<in> set seps \<Longrightarrow> set t \<inter> set seps = {} \<Longrightarrow> rsplit_last seps (s @ c # t) = t"
  by (auto simp: rsplit_last_def takeWhile_append)

lemma rsplit_last_no_sep: "c \<in> set (rsplit_last seps s) \<Longrightarrow> c \<notin> set seps"
  by (auto simp: rsplit_last_def dest: set_takeWhileD)

lemma join_with_simps [simp]:
  "join_with sep [] = []" "join_with sep [x] = x"
  "join_with sep (x # y # ys) = x @ sep @ join_with sep (y # ys)"
  by (simp_all add: join_with_def)

subsection \<open>White space\<close>

text \<open>The characters with the Unicode property \<open>White_Space\<close>, as UTF-8.\<close>

definition ws_chars :: "string list" where
  "ws_chars =
     [[CHR 0x09], [CHR 0x0A], [CHR 0x0B], [CHR 0x0C], [CHR 0x0D], [CHR 0x20],
      [CHR 0xC2, CHR 0x85], [CHR 0xC2, CHR 0xA0], [CHR 0xE1, CHR 0x9A, CHR 0x80],
      [CHR 0xE2, CHR 0x80, CHR 0x80], [CHR 0xE2, CHR 0x80, CHR 0x81],
      [CHR 0xE2, CHR 0x80, CHR 0x82], [CHR 0xE2, CHR 0x80, CHR 0x83],
      [CHR 0xE2, CHR 0x80, CHR 0x84], [CHR 0xE2, CHR 0x80, CHR 0x85],
      [CHR 0xE2, CHR 0x80, CHR 0x86], [CHR 0xE2, CHR 0x80, CHR 0x87],
      [CHR 0xE2, CHR 0x80, CHR 0x88], [CHR 0xE2, CHR 0x80, CHR 0x89],
      [CHR 0xE2, CHR 0x80, CHR 0x8A], [CHR 0xE2, CHR 0x80, CHR 0xA8],
      [CHR 0xE2, CHR 0x80, CHR 0xA9], [CHR 0xE2, CHR 0x80, CHR 0xAF],
      [CHR 0xE2, CHR 0x81, CHR 0x9F], [CHR 0xE3, CHR 0x80, CHR 0x80]]"

text \<open>The length of the first of the given encodings that starts the text, 0 if none does.\<close>

definition enc_len :: "string list \<Rightarrow> string \<Rightarrow> nat" where
  "enc_len ws s = (case find (\<lambda>w. prefix w s) ws of None \<Rightarrow> 0 | Some w \<Rightarrow> length w)"

function strip_front :: "string list \<Rightarrow> string \<Rightarrow> string" where
  "strip_front ws s = (if s = [] \<or> enc_len ws s = 0 then s else strip_front ws (drop (enc_len ws s) s))"
  by pat_completeness auto
termination
  by (relation "measure (\<lambda>(ws, s). length s)") auto

declare strip_front.simps [simp del]

definition trim :: "string \<Rightarrow> string" where
  "trim s = rev (strip_front (map rev ws_chars) (rev (strip_front ws_chars s)))"

fun span_nonws :: "string \<Rightarrow> string \<times> string" where
  "span_nonws [] = ([], [])"
| "span_nonws (c # s) =
     (if enc_len ws_chars (c # s) > 0 then ([], c # s)
      else (case span_nonws s of (a, b) \<Rightarrow> (c # a, b)))"

lemma strip_front_length: "length (strip_front ws s) \<le> length s"
proof (induction ws s rule: strip_front.induct)
  case (1 ws s)
  then show ?case by (cases "s = [] \<or> enc_len ws s = 0") (auto simp: strip_front.simps [of ws s])
qed

lemma span_nonws_append: "span_nonws s = (a, b) \<Longrightarrow> s = a @ b"
  by (induction s arbitrary: a) (auto split: if_splits prod.splits)

lemma strip_front_head: "strip_front ws s = t \<Longrightarrow> t \<noteq> [] \<Longrightarrow> enc_len ws t = 0"
proof (induction ws s rule: strip_front.induct)
  case (1 ws s)
  then show ?case
    by (cases "s = [] \<or> enc_len ws s = 0") (auto simp: strip_front.simps [of ws s])
qed

lemma span_nonws_shorter: "s \<noteq> [] \<Longrightarrow> enc_len ws_chars s = 0 \<Longrightarrow> length (snd (span_nonws s)) < length s"
proof (induction s)
  case Nil
  then show ?case by simp
next
  case (Cons c s)
  obtain a b where ab: "span_nonws s = (a, b)" by fastforce
  from span_nonws_append [OF ab] Cons.prems ab show ?case by simp
qed

function split_whitespace :: "string \<Rightarrow> string list" where
  "split_whitespace s =
     (let t = strip_front ws_chars s
      in if t = [] then [] else fst (span_nonws t) # split_whitespace (snd (span_nonws t)))"
  by pat_completeness auto
termination
proof (relation "measure length")
  show "wf (measure (length :: string \<Rightarrow> nat))" by simp
next
  fix s t
  assume t: "t = strip_front ws_chars s" and ne: "t \<noteq> []"
  have "length (snd (span_nonws t)) < length t"
    using ne strip_front_head [OF t [symmetric] ne] by (rule span_nonws_shorter)
  also have "\<dots> \<le> length s" unfolding t by (rule strip_front_length)
  finally show "(snd (span_nonws t), s) \<in> measure length" by simp
qed

declare split_whitespace.simps [simp del]

lemmas [std_eval] = ws_chars_def enc_len_def strip_front.simps trim_def split_whitespace.simps

text \<open>An ASCII character is white space, in either reading direction, just when it is one of six.\<close>

definition ascii_ws :: "char \<Rightarrow> bool" where
  "ascii_ws c \<longleftrightarrow> 9 \<le> code c \<and> code c \<le> 13 \<or> code c = 32"

lemma char_eq_code: "c = d \<longleftrightarrow> code c = code d"
  by simp

lemma ascii_ws_iff:
  "ascii_ws c \<longleftrightarrow> c \<in> {CHR 0x09, CHR 0x0A, CHR 0x0B, CHR 0x0C, CHR 0x0D, CHR 0x20}"
  unfolding ascii_ws_def char_eq_code [of c] insert_iff empty_iff by simp arith

lemma ws_chars_heads:
  "\<forall>w \<in> set ws_chars. w \<noteq> [] \<and> (ascii_ws (hd w) \<or> 128 \<le> code (hd w))"
  "\<forall>w \<in> set (map rev ws_chars). w \<noteq> [] \<and> (ascii_ws (hd w) \<or> 128 \<le> code (hd w))"
  by (simp_all add: ws_chars_def ascii_ws_def)

lemma enc_len_no_head:
  assumes "\<forall>w \<in> set ws. w \<noteq> [] \<and> (ascii_ws (hd w) \<or> 128 \<le> code (hd w))"
    and "code c < 128" "\<not> ascii_ws c"
  shows "enc_len ws (c # s) = 0"
proof -
  have "\<not> prefix w (c # s)" if "w \<in> set ws" for w
    using assms that by (cases w) auto
  then have "find (\<lambda>w. prefix w (c # s)) ws = None"
    by (simp add: find_None_iff)
  then show ?thesis by (simp add: enc_len_def)
qed

lemma enc_len_ascii:
  assumes "code c < 128"
  shows "enc_len ws_chars (c # s) = (if ascii_ws c then 1 else 0)"
    and "enc_len (map rev ws_chars) (c # s) = (if ascii_ws c then 1 else 0)"
proof -
  have "enc_len ws_chars (c # s) = 1 \<and> enc_len (map rev ws_chars) (c # s) = 1" if "ascii_ws c"
    using that unfolding ascii_ws_iff insert_iff empty_iff
    by (elim disjE) (simp_all add: enc_len_def ws_chars_def)
  then show "enc_len ws_chars (c # s) = (if ascii_ws c then 1 else 0)"
    and "enc_len (map rev ws_chars) (c # s) = (if ascii_ws c then 1 else 0)"
    using enc_len_no_head [OF ws_chars_heads(1) assms] enc_len_no_head [OF ws_chars_heads(2) assms]
    by auto
qed

lemma strip_front_id:
  "code c < 128 \<Longrightarrow> \<not> ascii_ws c \<Longrightarrow> strip_front ws_chars (c # s) = c # s"
  "code c < 128 \<Longrightarrow> \<not> ascii_ws c \<Longrightarrow> strip_front (map rev ws_chars) (c # s) = c # s"
  by (simp_all add: strip_front.simps enc_len_ascii)

lemma strip_front_ws:
  "code c < 128 \<Longrightarrow> ascii_ws c \<Longrightarrow> strip_front ws_chars (c # s) = strip_front ws_chars s"
  by (subst strip_front.simps) (simp add: enc_len_ascii)

lemma strip_front_Nil [simp]: "strip_front ws [] = []"
  by (simp add: strip_front.simps)

text \<open>Text that starts and ends in an ASCII character that is not white space is left alone.\<close>

lemma trim_id:
  assumes "s \<noteq> []" "code (hd s) < 128" "\<not> ascii_ws (hd s)" "code (last s) < 128" "\<not> ascii_ws (last s)"
  shows "trim s = s"
proof -
  have f: "strip_front ws_chars s = s"
    using assms(1-3) by (cases s) (simp_all add: strip_front_id)
  have "strip_front (map rev ws_chars) (rev s) = rev s"
    using assms(1,4,5) by (cases s rule: rev_cases) (simp_all add: strip_front_id)
  with f show ?thesis by (simp add: trim_def)
qed

lemma trim_Nil [simp]: "trim [] = []"
  by (simp add: trim_def)

text \<open>Fields of printable ASCII separated by single spaces split into those fields.\<close>

definition plain_word :: "string \<Rightarrow> bool" where
  "plain_word w \<longleftrightarrow> w \<noteq> [] \<and> (\<forall>c \<in> set w. code c < 128 \<and> \<not> ascii_ws c)"

lemma span_nonws_plain:
  "\<forall>c \<in> set w. code c < 128 \<and> \<not> ascii_ws c \<Longrightarrow>
   span_nonws (w @ s) = (w @ fst (span_nonws s), snd (span_nonws s))"
  by (induction w) (auto simp: enc_len_ascii split: prod.splits)

lemma space_ws [simp]: "ascii_ws (CHR 0x20)"
  by (simp add: ascii_ws_def)

lemma plain_word_show_nat [simp]: "plain_word (show_nat n)"
  using show_nat_digits [of _ n] by (fastforce simp: plain_word_def ascii_ws_def)

lemma strip_front_plain: "plain_word w \<Longrightarrow> strip_front ws_chars (w @ s) = w @ s"
  by (cases w) (auto simp: plain_word_def strip_front_id)

lemma split_whitespace_Nil [simp]: "split_whitespace [] = []"
  by (simp add: split_whitespace.simps)

lemma split_whitespace_last: "plain_word w \<Longrightarrow> split_whitespace w = [w]"
  using span_nonws_plain [of w "[]"] strip_front_plain [of w "[]"]
  by (subst split_whitespace.simps) (auto simp: plain_word_def Let_def)

lemma split_whitespace_ws:
  "code c < 128 \<Longrightarrow> ascii_ws c \<Longrightarrow> split_whitespace (c # s) = split_whitespace s"
  by (simp add: split_whitespace.simps [of "c # s"] split_whitespace.simps [of s] strip_front_ws)

lemma split_whitespace_word:
  assumes "plain_word w" "code c < 128" "ascii_ws c"
  shows "split_whitespace (w @ c # s) = w # split_whitespace s"
proof -
  have "span_nonws (w @ c # s) = (w, c # s)"
    using assms span_nonws_plain [of w "c # s"] by (simp add: plain_word_def enc_len_ascii)
  moreover have "w @ c # s \<noteq> []" by simp
  ultimately have "split_whitespace (w @ c # s) = w # split_whitespace (c # s)"
    by (subst split_whitespace.simps) (simp add: strip_front_plain [OF assms(1)] Let_def)
  then show ?thesis by (simp add: split_whitespace_ws assms)
qed

end
