(* ===== verification/Rust_Utf8.thy ===== *)
theory Rust_Utf8
  imports Rust_Str
begin

text \<open>
  \<open>String::from_utf8_lossy\<close>: a byte buffer is cut into maximal well-formed UTF-8 sequences and
  ill-formed pieces, and each ill-formed piece becomes one replacement character U+FFFD. The
  lemmas show that the result is well-formed whatever the bytes, and that well-formed bytes
  (ASCII in particular) come back unchanged.
\<close>

definition string_of_bytes :: "bytes \<Rightarrow> string" where
  "string_of_bytes bs = map (\<lambda>b. char_of (unat b)) bs"

definition bytes_of_string :: "string \<Rightarrow> bytes" where
  "bytes_of_string s = map (\<lambda>c. word_of_nat (code c)) s"

lemma bytes_of_string_of_bytes [simp]: "bytes_of_string (string_of_bytes bs) = bs"
  by (induction bs) (simp_all add: bytes_of_string_def string_of_bytes_def)

lemma string_of_bytes_of_string [simp]: "string_of_bytes (bytes_of_string s) = s"
  by (induction s) (simp_all add: bytes_of_string_def string_of_bytes_def unat_of_nat)

lemma length_string_of_bytes [simp]: "length (string_of_bytes bs) = length bs"
  by (simp add: string_of_bytes_def)

lemma length_bytes_of_string [simp]: "length (bytes_of_string s) = length s"
  by (simp add: bytes_of_string_def)

lemma string_of_bytes_simps [simp]:
  "string_of_bytes [] = []"
  "string_of_bytes (b # bs) = char_of (unat b) # string_of_bytes bs"
  "string_of_bytes (bs @ cs) = string_of_bytes bs @ string_of_bytes cs"
  by (simp_all add: string_of_bytes_def)

lemma string_of_bytes_inj [simp]: "string_of_bytes bs = string_of_bytes cs \<longleftrightarrow> bs = cs"
  by (metis bytes_of_string_of_bytes)

subsection \<open>One step of the decoder\<close>

definition byte_at :: "bytes \<Rightarrow> nat \<Rightarrow> u8" where
  "byte_at bs i = (if i < length bs then bs ! i else 0)"

definition between :: "u8 \<Rightarrow> u8 \<Rightarrow> u8 \<Rightarrow> bool" where
  "between lo hi b \<longleftrightarrow> lo \<le> b \<and> b \<le> hi"

definition cont_byte :: "u8 \<Rightarrow> bool" where
  "cont_byte b = between 0x80 0xBF b"

definition second_of_3 :: "u8 \<Rightarrow> u8 \<Rightarrow> bool" where
  "second_of_3 b c \<longleftrightarrow>
     b = 0xE0 \<and> between 0xA0 0xBF c \<or> between 0xE1 0xEC b \<and> between 0x80 0xBF c \<or>
     b = 0xED \<and> between 0x80 0x9F c \<or> between 0xEE 0xEF b \<and> between 0x80 0xBF c"

definition second_of_4 :: "u8 \<Rightarrow> u8 \<Rightarrow> bool" where
  "second_of_4 b c \<longleftrightarrow>
     b = 0xF0 \<and> between 0x90 0xBF c \<or> between 0xF1 0xF3 b \<and> between 0x80 0xBF c \<or>
     b = 0xF4 \<and> between 0x80 0x8F c"

text \<open>
  Whether the buffer starts with a well-formed character, and how many bytes that character
  or the ill-formed piece has. Past the end the decoder reads a zero byte.
\<close>

definition utf8_step :: "bytes \<Rightarrow> bool \<times> nat" where
  "utf8_step bs =
     (let b = byte_at bs 0; c1 = byte_at bs 1; c2 = byte_at bs 2; c3 = byte_at bs 3
      in if b < 0x80 then (True, 1)
         else if between 0xC2 0xDF b then (if cont_byte c1 then (True, 2) else (False, 1))
         else if between 0xE0 0xEF b then
           (if \<not> second_of_3 b c1 then (False, 1)
            else if cont_byte c2 then (True, 3) else (False, 2))
         else if between 0xF0 0xF4 b then
           (if \<not> second_of_4 b c1 then (False, 1)
            else if \<not> cont_byte c2 then (False, 2)
            else if cont_byte c3 then (True, 4) else (False, 3))
         else (False, 1))"

lemma utf8_step_pos: "snd (utf8_step bs) > 0"
  by (simp add: utf8_step_def Let_def)

lemma cont_byte_0: "\<not> cont_byte 0" "\<not> second_of_3 b 0" "\<not> second_of_4 b 0"
  by (simp_all add: cont_byte_def second_of_3_def second_of_4_def between_def)

text \<open>A well-formed character lies inside the buffer and is recognised by its own bytes.\<close>

lemma utf8_step_inside:
  assumes "utf8_step bs = (True, n)" "bs \<noteq> []"
  shows "n \<le> length bs"
proof (rule ccontr)
  assume "\<not> n \<le> length bs"
  moreover have "byte_at bs i = 0" if "length bs \<le> i" for i
    using that by (simp add: byte_at_def)
  moreover have "Suc 0 \<le> length bs" using assms(2) by (cases bs) auto
  ultimately show False
    using assms(1) cont_byte_0
    by (auto simp: utf8_step_def Let_def split: if_splits)
qed

lemma byte_at_take: "i < n \<Longrightarrow> n \<le> length bs \<Longrightarrow> byte_at (take n bs @ r) i = byte_at bs i"
  by (simp add: byte_at_def nth_append)

lemma utf8_step_take:
  assumes "utf8_step bs = (True, n)" "n \<le> length bs"
  shows "utf8_step (take n bs @ r) = (True, n)"
  using assms byte_at_take [of _ n bs r]
  by (auto simp: utf8_step_def Let_def split: if_splits)

subsection \<open>Well-formed buffers and lossy decoding\<close>

function utf8_valid :: "bytes \<Rightarrow> bool" where
  "utf8_valid bs =
     (if bs = [] then True
      else if fst (utf8_step bs) then utf8_valid (drop (snd (utf8_step bs)) bs) else False)"
  by pat_completeness auto
termination
  by (relation "measure length") (auto simp: utf8_step_pos)

definition replacement :: bytes where
  "replacement = [0xEF, 0xBF, 0xBD]"

function lossy_bytes :: "bytes \<Rightarrow> bytes" where
  "lossy_bytes bs =
     (if bs = [] then []
      else (if fst (utf8_step bs) then take (snd (utf8_step bs)) bs else replacement) @
           lossy_bytes (drop (snd (utf8_step bs)) bs))"
  by pat_completeness auto
termination
  by (relation "measure length") (auto simp: utf8_step_pos)

declare utf8_valid.simps [simp del] lossy_bytes.simps [simp del]

definition from_utf8_lossy :: "bytes \<Rightarrow> string" where
  "from_utf8_lossy bs = string_of_bytes (lossy_bytes bs)"

definition utf8_string :: "string \<Rightarrow> bool" where
  "utf8_string s = utf8_valid (bytes_of_string s)"

lemmas [std_eval] = string_of_bytes_def bytes_of_string_def byte_at_def between_def
  cont_byte_def second_of_3_def second_of_4_def utf8_step_def replacement_def
  from_utf8_lossy_def

lemma utf8_valid_Nil [simp]: "utf8_valid []"
  by (subst utf8_valid.simps) simp

lemma lossy_bytes_Nil [simp]: "lossy_bytes [] = []"
  by (subst lossy_bytes.simps) simp

lemma utf8_valid_char_append:
  assumes "utf8_step bs = (True, n)" "n \<le> length bs" "utf8_valid r"
  shows "utf8_valid (take n bs @ r)"
proof -
  have "utf8_step (take n bs @ r) = (True, n)"
    using assms(1,2) by (rule utf8_step_take)
  with assms(2,3) show ?thesis
    by (subst utf8_valid.simps) simp
qed

lemma utf8_valid_replacement: "utf8_valid r \<Longrightarrow> utf8_valid (replacement @ r)"
proof -
  assume r: "utf8_valid r"
  have "utf8_step (replacement @ r) = (True, 3)"
    by (simp add: utf8_step_def replacement_def byte_at_def Let_def between_def cont_byte_def
        second_of_3_def)
  with r show ?thesis by (subst utf8_valid.simps) (simp add: replacement_def)
qed

lemma utf8_valid_lossy: "utf8_valid (lossy_bytes bs)"
proof (induction bs rule: lossy_bytes.induct)
  case (1 bs)
  show ?case
  proof (cases "bs = []")
    case False
    obtain ok n where st: "utf8_step bs = (ok, n)" by fastforce
    from "1.IH" [OF False] have r: "utf8_valid (lossy_bytes (drop n bs))" by (simp add: st)
    show ?thesis
    proof (cases ok)
      case True
      with st False have "n \<le> length bs" using utf8_step_inside [of bs n] by simp
      with True st r False show ?thesis
        using utf8_valid_char_append [of bs n] by (subst lossy_bytes.simps) simp
    next
      case no: False
      with st r False show ?thesis
        using utf8_valid_replacement by (subst lossy_bytes.simps) simp
    qed
  qed simp
qed

lemma lossy_bytes_id: "utf8_valid bs \<Longrightarrow> lossy_bytes bs = bs"
proof (induction bs rule: lossy_bytes.induct)
  case (1 bs)
  show ?case
  proof (cases "bs = []")
    case False
    from "1.prems" False have ok: "fst (utf8_step bs)"
      and v: "utf8_valid (drop (snd (utf8_step bs)) bs)"
      by (simp_all add: utf8_valid.simps [of bs] split: if_splits)
    from "1.IH" [OF False v] ok False show ?thesis
      by (subst lossy_bytes.simps) simp
  qed simp
qed

lemma utf8_string_from_utf8_lossy: "utf8_string (from_utf8_lossy bs)"
  by (simp add: utf8_string_def from_utf8_lossy_def utf8_valid_lossy)

lemma from_utf8_lossy_utf8: "utf8_string s \<Longrightarrow> from_utf8_lossy (bytes_of_string s) = s"
  by (simp add: utf8_string_def from_utf8_lossy_def lossy_bytes_id)

lemma utf8_valid_ascii: "\<forall>b \<in> set bs. b < 0x80 \<Longrightarrow> utf8_valid bs"
proof (induction bs)
  case (Cons b bs)
  then have "utf8_step (b # bs) = (True, 1)"
    by (simp add: utf8_step_def byte_at_def Let_def)
  with Cons show ?case by (subst utf8_valid.simps) simp
qed simp

lemma utf8_string_ascii: "is_ascii s \<Longrightarrow> utf8_string s"
proof -
  assume s: "is_ascii s"
  have "(word_of_nat (code c) :: u8) < 0x80" if "c \<in> set s" for c
    using s that by (simp add: is_ascii_def list_all_iff word_less_nat_alt unat_of_nat)
  then show ?thesis
    by (auto simp: utf8_string_def bytes_of_string_def intro!: utf8_valid_ascii)
qed

lemma from_utf8_lossy_ascii: "is_ascii s \<Longrightarrow> from_utf8_lossy (bytes_of_string s) = s"
  by (rule from_utf8_lossy_utf8) (rule utf8_string_ascii)

lemma lossy_bytes_empty_iff [simp]: "lossy_bytes bs = [] \<longleftrightarrow> bs = []"
proof (cases "bs = []")
  case False
  with utf8_step_pos [of bs] show ?thesis
    by (subst lossy_bytes.simps) (auto simp: replacement_def)
qed simp

lemma from_utf8_lossy_empty_iff [simp]: "from_utf8_lossy bs = [] \<longleftrightarrow> bs = []"
  by (simp add: from_utf8_lossy_def string_of_bytes_def)

subsection \<open>After an ASCII character\<close>

lemma between_high: "between lo hi c \<Longrightarrow> 0x80 \<le> lo \<Longrightarrow> \<not> c < 0x80"
  unfolding between_def by (meson leD order_trans)

lemma trail_bytes_high:
  "cont_byte c \<Longrightarrow> \<not> c < 0x80" "second_of_3 b c \<Longrightarrow> \<not> c < 0x80" "second_of_4 b c \<Longrightarrow> \<not> c < 0x80"
  unfolding cont_byte_def second_of_3_def second_of_4_def
  by (auto dest: between_high simp: word_le_nat_alt)

lemma utf8_step_long:
  assumes "utf8_step bs = (True, n)" "i < n" "1 < n"
  shows "\<not> byte_at bs i < 0x80"
proof -
  have lead: "\<not> byte_at bs 0 < 0x80"
    using assms(1,3) by (auto simp: utf8_step_def Let_def split: if_splits)
  have "(n = 2 \<and> cont_byte (byte_at bs 1)) \<or>
      (n = 3 \<and> second_of_3 (byte_at bs 0) (byte_at bs 1) \<and> cont_byte (byte_at bs 2)) \<or>
      (n = 4 \<and> second_of_4 (byte_at bs 0) (byte_at bs 1) \<and> cont_byte (byte_at bs 2) \<and> cont_byte (byte_at bs 3))"
    using assms(1,3) by (auto simp: utf8_step_def Let_def split: if_splits)
  moreover have "i = 0 \<or> i = 1 \<or> i = 2 \<or> i = 3 \<or> 4 \<le> i" by linarith
  ultimately show ?thesis
    using lead trail_bytes_high assms(2) by (elim disjE conjE) simp_all
qed

lemma utf8_valid_head:
  assumes "utf8_valid bs" "bs \<noteq> []"
  shows "\<not> cont_byte (bs ! 0)"
proof
  assume c: "cont_byte (bs ! 0)"
  then have "\<not> bs ! 0 < 0x80" by (rule trail_bytes_high)
  moreover have "\<not> between lo hi (bs ! 0)" if "0xBF < lo" for lo hi
    using c that unfolding cont_byte_def between_def by (meson leD le_less_trans)
  ultimately have "\<not> fst (utf8_step bs)"
    using assms(2) by (simp add: utf8_step_def Let_def byte_at_def word_less_nat_alt)
  with assms show False by (simp add: utf8_valid.simps [of bs])
qed

lemma utf8_valid_after_ascii:
  "utf8_valid bs \<Longrightarrow> Suc i < length bs \<Longrightarrow> bs ! i < 0x80 \<Longrightarrow> \<not> cont_byte (bs ! Suc i)"
proof (induction bs arbitrary: i rule: utf8_valid.induct)
  case (1 bs)
  obtain n where step: "utf8_step bs = (True, n)" and rest: "utf8_valid (drop n bs)"
    using 1(2,3) utf8_valid.simps [of bs] by (cases "utf8_step bs") (auto split: if_splits)
  have pos: "0 < n" using utf8_step_pos [of bs] by (simp add: step)
  have ne: "bs \<noteq> []" using 1(3) by auto
  show ?case
  proof (cases "i < n")
    case True
    have "n = 1"
      using utf8_step_long [OF step True] 1(3,4) pos by (fastforce simp: byte_at_def)
    with True rest utf8_valid_head [of "drop 1 bs"] 1(3) show ?thesis by simp
  next
    case False
    then obtain k where k: "i = n + k" using le_Suc_ex not_less by blast
    have "utf8_valid (drop (snd (utf8_step bs)) bs)" using rest by (simp add: step)
    then have "\<not> cont_byte (drop (snd (utf8_step bs)) bs ! Suc k)"
      using 1(1) [OF ne, of k] 1(3,4) by (simp add: step k)
    then show ?thesis using 1(3) by (simp add: step k)
  qed
qed

lemma utf8_string_after_ascii:
  assumes "utf8_string s" "Suc i < length s" "of_char (s ! i) < (128 :: nat)"
  shows "\<not> (128 \<le> (of_char (s ! Suc i) :: nat) \<and> of_char (s ! Suc i) < (192 :: nat))"
proof -
  have b: "bytes_of_string s ! j = word_of_nat (of_char (s ! j))" if "j < length s" for j
    using that by (simp add: bytes_of_string_def)
  have u: "unat (word_of_nat (of_char c) :: u8) = of_char c" for c
    by (simp add: unat_of_nat)
  have "bytes_of_string s ! i < 0x80"
    using assms by (simp add: b word_less_nat_alt u)
  with assms have "\<not> cont_byte (bytes_of_string s ! Suc i)"
    unfolding utf8_string_def by (intro utf8_valid_after_ascii) simp_all
  then show ?thesis
    using assms(2) by (auto simp: b cont_byte_def between_def word_le_nat_alt u)
qed

end
