(* ===== verification/Common.thy ===== *)
theory Common
  imports Rust_Utf8
begin

text \<open>
  \<open>sentinel-common\<close>: the event kinds, the process tree node and the fixed-size event that
  kernel probes and the daemon share.
\<close>

definition MAX_COMM_LEN :: nat where "MAX_COMM_LEN = 16"
definition MAX_PATH_LEN :: nat where "MAX_PATH_LEN = 128"

lemmas common_consts [simp] = MAX_COMM_LEN_def MAX_PATH_LEN_def

subsection \<open>Event kinds\<close>

datatype event_kind = Exec | Connect | Open | FileIntegrity | ProcessFork

instantiation event_kind :: enum
begin

definition enum_event_kind :: "event_kind list" where
  "enum_event_kind = [Exec, Connect, Open, FileIntegrity, ProcessFork]"

definition enum_all_event_kind :: "(event_kind \<Rightarrow> bool) \<Rightarrow> bool" where
  "enum_all_event_kind P \<longleftrightarrow> P Exec \<and> P Connect \<and> P Open \<and> P FileIntegrity \<and> P ProcessFork"

definition enum_ex_event_kind :: "(event_kind \<Rightarrow> bool) \<Rightarrow> bool" where
  "enum_ex_event_kind P \<longleftrightarrow> P Exec \<or> P Connect \<or> P Open \<or> P FileIntegrity \<or> P ProcessFork"

lemma event_kind_UNIV: "(UNIV :: event_kind set) = {Exec, Connect, Open, FileIntegrity, ProcessFork}"
  using event_kind.exhaust by auto

instance
  by standard
    (simp_all add: enum_event_kind_def enum_all_event_kind_def enum_ex_event_kind_def
      event_kind_UNIV)

end

text \<open>The discriminants (\<open>kind as u32\<close>) and \<open>EventKind::from_u32\<close>.\<close>

fun kind_as_u32 :: "event_kind \<Rightarrow> u32" where
  "kind_as_u32 Exec = 1"
| "kind_as_u32 Connect = 2"
| "kind_as_u32 Open = 3"
| "kind_as_u32 FileIntegrity = 4"
| "kind_as_u32 ProcessFork = 5"

definition from_u32 :: "u32 \<Rightarrow> event_kind option" where
  "from_u32 v =
     (if v = 1 then Some Exec else if v = 2 then Some Connect else if v = 3 then Some Open
      else if v = 4 then Some FileIntegrity else if v = 5 then Some ProcessFork else None)"

text \<open>The name that \<open>derive(Debug)\<close> prints.\<close>

fun debug_kind :: "event_kind \<Rightarrow> string" where
  "debug_kind Exec = ''Exec''"
| "debug_kind Connect = ''Connect''"
| "debug_kind Open = ''Open''"
| "debug_kind FileIntegrity = ''FileIntegrity''"
| "debug_kind ProcessFork = ''ProcessFork''"

lemma from_kind_as_u32 [simp]: "from_u32 (kind_as_u32 k) = Some k"
  by (cases k) (simp_all add: from_u32_def)

lemma from_u32_Some_iff: "from_u32 v = Some k \<longleftrightarrow> v = kind_as_u32 k"
  by (cases k) (auto simp: from_u32_def split: if_splits)

subsection \<open>Records\<close>

record process_node =
  pn_ppid :: u32
  pn_uid :: u32
  pn_comm :: bytes

record sentinel_event =
  se_kind :: u32
  se_pid :: u32
  se_ppid :: u32
  se_uid :: u32
  se_gid :: u32
  se_timestamp_ns :: u64
  se_comm :: bytes
  se_addr_family :: u8
  se_pad :: bytes
  se_dst_port :: u16
  se_dst_addr :: u32
  se_dst_addr_v6 :: bytes
  se_flags :: u32
  se_path :: bytes

definition AF_INET :: u8 where "AF_INET = 2"
definition AF_INET6 :: u8 where "AF_INET6 = 10"

text \<open>The array lengths of the struct, which the model's lists have to be told.\<close>

definition wf_event :: "sentinel_event \<Rightarrow> bool" where
  "wf_event e \<longleftrightarrow>
     length (se_comm e) = 16 \<and> length (se_pad e) = 1 \<and>
     length (se_dst_addr_v6 e) = 16 \<and> length (se_path e) = 128"

subsection \<open>NUL-terminated buffers\<close>

text \<open>\<open>buf.iter().position(|&b| b == 0).unwrap_or(buf.len())\<close>, and the bytes before it.\<close>

definition str_len :: "bytes \<Rightarrow> nat" where
  "str_len buf = length (takeWhile (\<lambda>b. b \<noteq> 0) buf)"

lemma take_str_len: "take (str_len buf) buf = takeWhile (\<lambda>b. b \<noteq> 0) buf"
  by (metis str_len_def takeWhile_eq_take)

lemma str_len_le: "str_len buf \<le> length buf"
  by (simp add: str_len_def length_takeWhile_le)

definition pad_to :: "nat \<Rightarrow> bytes \<Rightarrow> bytes" where
  "pad_to n bs = bs @ replicate (n - length bs) 0"

lemma takeWhile_pad_to: "0 \<notin> set bs \<Longrightarrow> takeWhile (\<lambda>b. b \<noteq> 0) (pad_to n bs) = bs"
proof -
  assume nz: "0 \<notin> set bs"
  then have "takeWhile (\<lambda>b. b \<noteq> 0) (bs @ xs) = bs @ takeWhile (\<lambda>b. b \<noteq> 0) xs" for xs
    by (induction bs) auto
  moreover have "takeWhile (\<lambda>b :: u8. b \<noteq> 0) (replicate m 0) = []" for m
    by (cases m) simp_all
  ultimately show ?thesis by (simp add: pad_to_def)
qed

subsection \<open>Sample events\<close>

text \<open>An event with the given text in its buffers and zeros elsewhere, for concrete inputs.\<close>

definition sample_event :: "event_kind \<Rightarrow> u32 \<Rightarrow> u32 \<Rightarrow> string \<Rightarrow> string \<Rightarrow> sentinel_event" where
  "sample_event k pid ppid comm path =
     \<lparr>se_kind = kind_as_u32 k, se_pid = pid, se_ppid = ppid, se_uid = 0, se_gid = 0,
      se_timestamp_ns = 0, se_comm = pad_to 16 (bytes_of_string comm), se_addr_family = 0,
      se_pad = [0], se_dst_port = 0, se_dst_addr = 0, se_dst_addr_v6 = replicate 16 0,
      se_flags = 0, se_path = pad_to 128 (bytes_of_string path)\<rparr>"

end
