(* ===== verification/Pipeline.thy ===== *)
theory Pipeline
  imports Common
begin

text \<open>
  \<open>pipeline.rs\<close>: reading a ring-buffer record as a \<open>SentinelEvent\<close>. The \<open>repr(C)\<close> layout
  places the fields in order at their alignment: four bytes of padding lie before the 64-bit
  time stamp and four after the path, 208 bytes in all.
\<close>

definition size_of_event :: nat where "size_of_event = 208"

definition field_at :: "bytes \<Rightarrow> nat \<Rightarrow> nat \<Rightarrow> bytes" where
  "field_at bs off n = take n (drop off bs)"

text \<open>\<open>(item.as_ptr() as *const SentinelEvent).read_unaligned()\<close>.\<close>

definition read_event :: "bytes \<Rightarrow> sentinel_event" where
  "read_event bs =
     \<lparr>se_kind = from_ne_bytes (field_at bs 0 4),
      se_pid = from_ne_bytes (field_at bs 4 4),
      se_ppid = from_ne_bytes (field_at bs 8 4),
      se_uid = from_ne_bytes (field_at bs 12 4),
      se_gid = from_ne_bytes (field_at bs 16 4),
      se_timestamp_ns = from_ne_bytes (field_at bs 24 8),
      se_comm = field_at bs 32 16,
      se_addr_family = from_ne_bytes (field_at bs 48 1),
      se_pad = field_at bs 49 1,
      se_dst_port = from_ne_bytes (field_at bs 50 2),
      se_dst_addr = from_ne_bytes (field_at bs 52 4),
      se_dst_addr_v6 = field_at bs 56 16,
      se_flags = from_ne_bytes (field_at bs 72 4),
      se_path = field_at bs 76 128\<rparr>"

definition parse_ring_event :: "bytes \<Rightarrow> sentinel_event option" where
  "parse_ring_event item =
     (if length item \<noteq> size_of_event then None else Some (read_event item))"

text \<open>
  The memory of a \<open>SentinelEvent\<close>, which \<open>EVENTS.output\<close> copies into the ring buffer. The
  eight padding bytes (\<open>p\<close> before the time stamp, \<open>q\<close> at the end) hold whatever is there.
\<close>

definition event_bytes :: "bytes \<Rightarrow> bytes \<Rightarrow> sentinel_event \<Rightarrow> bytes" where
  "event_bytes p q e =
     to_ne_bytes 4 (se_kind e) @ to_ne_bytes 4 (se_pid e) @ to_ne_bytes 4 (se_ppid e) @
     to_ne_bytes 4 (se_uid e) @ to_ne_bytes 4 (se_gid e) @ p @
     to_ne_bytes 8 (se_timestamp_ns e) @ se_comm e @ to_ne_bytes 1 (se_addr_family e) @
     se_pad e @ to_ne_bytes 2 (se_dst_port e) @ to_ne_bytes 4 (se_dst_addr e) @
     se_dst_addr_v6 e @ to_ne_bytes 4 (se_flags e) @ se_path e @ q"

lemma length_event_bytes:
  "wf_event e \<Longrightarrow> length p = 4 \<Longrightarrow> length q = 4 \<Longrightarrow> length (event_bytes p q e) = size_of_event"
  by (simp add: event_bytes_def wf_event_def size_of_event_def)

lemma field_at_here: "length x = n \<Longrightarrow> field_at (x @ r) 0 n = x"
  by (simp add: field_at_def)

lemma field_at_skip: "length x \<le> off \<Longrightarrow> field_at (x @ r) off n = field_at r (off - length x) n"
  by (simp add: field_at_def)

lemma wf_read_event: "length bs = size_of_event \<Longrightarrow> wf_event (read_event bs)"
  by (simp add: wf_event_def read_event_def field_at_def size_of_event_def)

lemma read_event_bytes:
  assumes "wf_event e" "length p = 4" "length q = 4"
  shows "read_event (event_bytes p q e) = e"
  using assms
  by (simp add: read_event_def event_bytes_def wf_event_def field_at_skip field_at_here
      from_to_ne_bytes)

lemma parse_event_bytes:
  "wf_event e \<Longrightarrow> length p = 4 \<Longrightarrow> length q = 4 \<Longrightarrow> parse_ring_event (event_bytes p q e) = Some e"
  by (simp add: parse_ring_event_def length_event_bytes read_event_bytes)

text \<open>Conversely, 208 bytes are the memory of the event read from them.\<close>

lemma field_at_drop: "field_at bs off n @ drop (off + n) bs = drop off bs"
  by (metis append_take_drop_id drop_drop field_at_def add.commute)

lemma length_field_at: "off + n \<le> length bs \<Longrightarrow> length (field_at bs off n) = n"
  by (simp add: field_at_def)

lemma ne_bytes_field_at:
  "LENGTH('w::len) = 8 * n \<Longrightarrow> off + n \<le> length bs \<Longrightarrow>
   to_ne_bytes n (from_ne_bytes (field_at bs off n) :: 'w word) = field_at bs off n"
  by (rule to_from_ne_bytes) (simp_all add: length_field_at)

lemma event_bytes_read_event:
  assumes "length bs = size_of_event"
  shows "event_bytes (field_at bs 20 4) (field_at bs 204 4) (read_event bs) = bs"
proof -
  have step: "field_at bs off n @ r = drop off bs" if "r = drop (off + n) bs" for off n r
    using that field_at_drop by simp
  have last: "field_at bs 204 4 = drop 204 bs"
    using assms by (simp add: field_at_def size_of_event_def)
  show ?thesis
    using assms
    by (simp add: event_bytes_def read_event_def ne_bytes_field_at size_of_event_def step last)
qed

text \<open>C11: A record parses exactly when it is the memory of some well-formed event, with whatever
  bytes in the padding, and then the event parsed is that event: the daemon reads what a probe
  wrote, and refuses every record of another size.\<close>

theorem parse_ring_event_iff:
  "parse_ring_event item = Some e \<longleftrightarrow>
     wf_event e \<and> (\<exists>p q. length p = 4 \<and> length q = 4 \<and> item = event_bytes p q e)"
proof
  assume "parse_ring_event item = Some e"
  then have len: "length item = size_of_event" and e: "e = read_event item"
    by (auto simp: parse_ring_event_def split: if_splits)
  moreover have "length (field_at item 20 4) = 4" "length (field_at item 204 4) = 4"
    using len by (simp_all add: length_field_at size_of_event_def)
  ultimately show "wf_event e \<and> (\<exists>p q. length p = 4 \<and> length q = 4 \<and> item = event_bytes p q e)"
    using wf_read_event event_bytes_read_event by metis
next
  assume "wf_event e \<and> (\<exists>p q. length p = 4 \<and> length q = 4 \<and> item = event_bytes p q e)"
  then show "parse_ring_event item = Some e" by (auto simp: parse_event_bytes)
qed

end
