(* ===== verification/Bpf.thy ===== *)
theory Bpf
  imports Pipeline "HOL-Library.AList"
begin

text \<open>
  \<open>sentinel-ebpf\<close>: the kernel probes. What a probe asks the kernel is its \<^emph>\<open>context\<close> \<open>kctx\<close>
  (current task, clock, memory reads, tracepoint arguments); the BPF maps are the state. The
  kernel's hash map and ring buffer are parameters (\<open>map_ops\<close>), whose laws are the locale
  \<open>kernel_maps\<close>, interpreted at the end on maps with the capacities of \<open>main.rs\<close>.
\<close>

subsection \<open>The kernel interface\<close>

record kctx =
  kc_pid_tgid :: u64
  kc_uid_gid :: u64
  kc_comm :: "bytes option"
  kc_ktime :: "nat \<Rightarrow> u64"
  kc_read_user_str :: "u64 \<Rightarrow> bytes \<Rightarrow> bytes"
  kc_read_kernel_buf :: "u64 \<Rightarrow> bytes \<Rightarrow> bytes"
  kc_read_user :: "u64 \<Rightarrow> nat \<Rightarrow> bytes option"
  kc_read_at :: "nat \<Rightarrow> nat \<Rightarrow> bytes option"
  kc_arg :: "nat \<Rightarrow> u64"

text \<open>
  \<open>kc_ktime k n\<close> is the answer to the \<open>n\<close>th read of the clock; \<open>kc_read_user_str k p buf\<close> and
  \<open>kc_read_kernel_buf k p buf\<close> are the contents of the buffer after the helper, whatever its
  return code; \<open>kc_read_at k off n\<close> reads \<open>n\<close> bytes of the tracepoint record.
\<close>

record ('t, 'r) map_ops =
  mo_get :: "'t \<Rightarrow> u32 \<Rightarrow> process_node option"
  mo_insert :: "'t \<Rightarrow> u32 \<Rightarrow> process_node \<Rightarrow> 't"
  mo_output :: "'r \<Rightarrow> sentinel_event \<Rightarrow> 'r"

text \<open>
  \<open>bs_scratch\<close> is \<open>None\<close> when the per-CPU slot cannot be had; \<open>bs_ticks\<close> counts the reads of
  the clock.
\<close>

record ('t, 'r) bpf_state =
  bs_tree :: 't
  bs_events :: 'r
  bs_scratch :: "sentinel_event option"
  bs_monitored :: "nat \<Rightarrow> bytes option"
  bs_ticks :: nat

type_synonym ('t, 'r) probe_result = "(unit + unit) \<times> ('t, 'r) bpf_state"

subsection \<open>Tracepoint offsets (the same on both targets)\<close>

definition SYS_ENTER_EXECVE_FILENAME :: nat where "SYS_ENTER_EXECVE_FILENAME = 16"
definition SYS_ENTER_CONNECT_ADDR :: nat where "SYS_ENTER_CONNECT_ADDR = 24"
definition SYS_ENTER_OPENAT_FILENAME :: nat where "SYS_ENTER_OPENAT_FILENAME = 24"
definition SYS_ENTER_OPENAT_FLAGS :: nat where "SYS_ENTER_OPENAT_FLAGS = 32"
definition SCHED_PROCESS_EXEC_COMM :: nat where "SCHED_PROCESS_EXEC_COMM = 8"
definition SCHED_PROCESS_EXEC_PID :: nat where "SCHED_PROCESS_EXEC_PID = 24"

subsection \<open>\<open>helpers.rs\<close>\<close>

definition MAX_MONITORED :: nat where "MAX_MONITORED = 64"

definition current_pid :: "kctx \<Rightarrow> u32" where
  "current_pid k = ucast (drop_bit 32 (kc_pid_tgid k))"

definition lookup_ppid :: "('t, 'r) map_ops \<Rightarrow> 't \<Rightarrow> u32 \<Rightarrow> u32" where
  "lookup_ppid ops tree pid = (case mo_get ops tree pid of Some node \<Rightarrow> pn_ppid node | None \<Rightarrow> 0)"

definition current_ppid :: "('t, 'r) map_ops \<Rightarrow> kctx \<Rightarrow> 't \<Rightarrow> u32" where
  "current_ppid ops k tree = lookup_ppid ops tree (current_pid k)"

definition read_comm :: "kctx \<Rightarrow> bytes" where
  "read_comm k = (case kc_comm k of Some c \<Rightarrow> c | None \<Rightarrow> replicate MAX_COMM_LEN 0)"

definition read_uid_gid :: "kctx \<Rightarrow> u32 \<times> u32" where
  "read_uid_gid k = (ucast (kc_uid_gid k), ucast (drop_bit 32 (kc_uid_gid k)))"

definition read_kernel_comm :: "kctx \<Rightarrow> u64 \<Rightarrow> bytes \<Rightarrow> bytes" where
  "read_kernel_comm k ptr dest = (if ptr = 0 then dest else kc_read_kernel_buf k ptr dest)"

definition read_user_path :: "kctx \<Rightarrow> u64 \<Rightarrow> bytes \<Rightarrow> bytes" where
  "read_user_path k ptr dest = (if ptr = 0 then dest else kc_read_user_str k ptr dest)"

text \<open>The loop of \<open>path_matches_monitored\<close> over the slots.\<close>

fun match_slots :: "(nat \<Rightarrow> bytes option) \<Rightarrow> bytes \<Rightarrow> nat list \<Rightarrow> bool" where
  "match_slots monitored path [] = False"
| "match_slots monitored path (i # is) =
     (case monitored i of
        Some slot \<Rightarrow>
          if str_len slot = 0 then match_slots monitored path is
          else if str_len slot \<le> str_len path \<and>
                  take (str_len slot) path = take (str_len slot) slot
          then True
          else match_slots monitored path is
      | None \<Rightarrow> match_slots monitored path is)"

definition path_matches_monitored :: "(nat \<Rightarrow> bytes option) \<Rightarrow> bytes \<Rightarrow> bool" where
  "path_matches_monitored monitored path = match_slots monitored path [0..<MAX_MONITORED]"

definition emit_event_with_pid ::
  "('t, 'r) map_ops \<Rightarrow> kctx \<Rightarrow> event_kind \<Rightarrow> u32 \<Rightarrow> u32 \<Rightarrow> bytes \<Rightarrow> bytes \<Rightarrow> u32 \<Rightarrow> u8 \<Rightarrow> u32 \<Rightarrow> u16 \<Rightarrow>
   bytes \<Rightarrow> ('t, 'r) bpf_state \<Rightarrow> ('t, 'r) bpf_state" where
  "emit_event_with_pid ops k kind pid ppid comm path flags addr_family dst_addr dst_port dst_addr_v6 s =
     (case bs_scratch s of
        None \<Rightarrow> s
      | Some _ \<Rightarrow>
          (let event0 =
             \<lparr>se_kind = kind_as_u32 kind, se_pid = pid, se_ppid = ppid, se_uid = 0, se_gid = 0,
              se_timestamp_ns = kc_ktime k (bs_ticks s), se_comm = comm,
              se_addr_family = addr_family, se_pad = [0], se_dst_port = dst_port,
              se_dst_addr = dst_addr, se_dst_addr_v6 = dst_addr_v6, se_flags = flags,
              se_path = path\<rparr>;
             (uid, gid) = read_uid_gid k;
             event = event0\<lparr>se_uid := uid, se_gid := gid\<rparr>
           in s\<lparr>bs_ticks := Suc (bs_ticks s), bs_scratch := Some event,
                bs_events := mo_output ops (bs_events s) event\<rparr>))"

definition emit_event ::
  "('t, 'r) map_ops \<Rightarrow> kctx \<Rightarrow> event_kind \<Rightarrow> bytes \<Rightarrow> bytes \<Rightarrow> u32 \<Rightarrow> u32 \<Rightarrow> u16 \<Rightarrow>
   ('t, 'r) bpf_state \<Rightarrow> ('t, 'r) bpf_state" where
  "emit_event ops k kind comm path flags dst_addr dst_port s =
     emit_event_with_pid ops k kind (current_pid k) (current_ppid ops k (bs_tree s)) comm path flags
       0 dst_addr dst_port (replicate 16 0) s"

definition upsert_process ::
  "('t, 'r) map_ops \<Rightarrow> u32 \<Rightarrow> u32 \<Rightarrow> bytes \<Rightarrow> u32 \<Rightarrow> ('t, 'r) bpf_state \<Rightarrow> ('t, 'r) bpf_state" where
  "upsert_process ops pid ppid comm uid s =
     s\<lparr>bs_tree := mo_insert ops (bs_tree s) pid \<lparr>pn_ppid = ppid, pn_uid = uid, pn_comm = comm\<rparr>\<rparr>"

text \<open>\<open>read_at::<T>\<close>, the bytes of the value; a failed read is the error of the probe.\<close>

definition read_at :: "kctx \<Rightarrow> nat \<Rightarrow> nat \<Rightarrow> unit + bytes" where
  "read_at k offset size_t = (case kc_read_at k offset size_t of Some b \<Rightarrow> Inr b | None \<Rightarrow> Inl ())"

subsection \<open>\<open>probes.rs\<close>\<close>

definition try_execve :: "('t, 'r) map_ops \<Rightarrow> kctx \<Rightarrow> ('t, 'r) bpf_state \<Rightarrow> ('t, 'r) probe_result" where
  "try_execve ops k s =
     (let comm = read_comm k;
          pid = current_pid k;
          ppid = current_ppid ops k (bs_tree s);
          (uid, _) = read_uid_gid k
      in case read_at k SYS_ENTER_EXECVE_FILENAME 8 of
           Inl e \<Rightarrow> (Inl e, s)
         | Inr b \<Rightarrow>
             (let path = read_user_path k (from_ne_bytes b) (replicate MAX_PATH_LEN 0);
                  s1 = upsert_process ops pid ppid comm uid s
              in (Inr (), emit_event ops k Exec comm path 0 0 0 s1)))"

text \<open>
  The two readings of the socket address: the first eight bytes as \<open>sockaddr_in\<close>, and, when
  they are not of that family, 28 bytes as \<open>sockaddr_in6\<close>.
\<close>

definition read_sockaddr_in :: "kctx \<Rightarrow> u64 \<Rightarrow> u8 \<times> u16 \<times> u32" where
  "read_sockaddr_in k addr_ptr =
     (case kc_read_user k addr_ptr 8 of
        Some sa_buf \<Rightarrow>
          if (from_ne_bytes [sa_buf ! 0, sa_buf ! 1] :: u16) = ucast AF_INET
          then (AF_INET, swap_bytes 2 (from_ne_bytes [sa_buf ! 2, sa_buf ! 3]),
                from_ne_bytes [sa_buf ! 4, sa_buf ! 5, sa_buf ! 6, sa_buf ! 7])
          else (0, 0, 0)
      | None \<Rightarrow> (0, 0, 0))"

definition read_sockaddr_in6 :: "kctx \<Rightarrow> u64 \<Rightarrow> u8 \<times> u16 \<times> bytes" where
  "read_sockaddr_in6 k addr_ptr =
     (case kc_read_user k addr_ptr 28 of
        Some sa6 \<Rightarrow>
          if (from_ne_bytes [sa6 ! 0, sa6 ! 1] :: u16) = ucast AF_INET6
          then (AF_INET6, swap_bytes 2 (from_ne_bytes [sa6 ! 2, sa6 ! 3]), take 16 (drop 8 sa6))
          else (0, 0, replicate 16 0)
      | None \<Rightarrow> (0, 0, replicate 16 0))"

definition try_connect :: "('t, 'r) map_ops \<Rightarrow> kctx \<Rightarrow> ('t, 'r) bpf_state \<Rightarrow> ('t, 'r) probe_result" where
  "try_connect ops k s =
     (let comm = read_comm k
      in case read_at k SYS_ENTER_CONNECT_ADDR 8 of
           Inl e \<Rightarrow> (Inl e, s)
         | Inr b \<Rightarrow>
             (let addr_ptr = from_ne_bytes b
              in if addr_ptr = 0 then (Inr (), s)
                 else
                   (let (fam4, port4, dst_addr) = read_sockaddr_in k addr_ptr;
                        (addr_family, dst_port, dst_addr_v6) =
                          (if fam4 = 0 then read_sockaddr_in6 k addr_ptr
                           else (fam4, port4, replicate 16 0))
                    in (Inr (), emit_event_with_pid ops k Connect (current_pid k)
                          (current_ppid ops k (bs_tree s)) comm (replicate MAX_PATH_LEN 0) 0
                          addr_family dst_addr dst_port dst_addr_v6 s))))"

definition O_ACCMODE :: u32 where "O_ACCMODE = 3"
definition O_WRONLY :: u32 where "O_WRONLY = 1"
definition O_RDWR :: u32 where "O_RDWR = 2"

definition try_openat :: "('t, 'r) map_ops \<Rightarrow> kctx \<Rightarrow> ('t, 'r) bpf_state \<Rightarrow> ('t, 'r) probe_result" where
  "try_openat ops k s =
     (let comm = read_comm k
      in case read_at k SYS_ENTER_OPENAT_FILENAME 8 of
           Inl e \<Rightarrow> (Inl e, s)
         | Inr fb \<Rightarrow>
             (case read_at k SYS_ENTER_OPENAT_FLAGS 4 of
                Inl e \<Rightarrow> (Inl e, s)
              | Inr gb \<Rightarrow>
                  (let flags = from_ne_bytes gb;
                       path = read_user_path k (from_ne_bytes fb) (replicate MAX_PATH_LEN 0);
                       s1 = emit_event ops k Open comm path flags 0 0 s;
                       access = flags AND O_ACCMODE
                   in (Inr (),
                       if (access = O_WRONLY \<or> access = O_RDWR) \<and>
                          path_matches_monitored (bs_monitored s1) path
                       then emit_event ops k FileIntegrity comm path flags 0 0 s1
                       else s1))))"

definition try_fork :: "('t, 'r) map_ops \<Rightarrow> kctx \<Rightarrow> ('t, 'r) bpf_state \<Rightarrow> ('t, 'r) probe_result" where
  "try_fork ops k s =
     (let parent_comm_ptr = kc_arg k 0;
          parent_pid = ucast (kc_arg k 1);
          child_pid = ucast (kc_arg k 3);
          parent_comm = read_kernel_comm k parent_comm_ptr (replicate MAX_COMM_LEN 0);
          (uid, _) = read_uid_gid k;
          empty_comm = replicate MAX_COMM_LEN 0;
          s1 = upsert_process ops child_pid parent_pid empty_comm uid s
      in (Inr (), emit_event_with_pid ops k ProcessFork child_pid parent_pid parent_comm
            (replicate MAX_PATH_LEN 0) 0 0 0 0 (replicate 16 0) s1))"

definition try_exec :: "('t, 'r) map_ops \<Rightarrow> kctx \<Rightarrow> ('t, 'r) bpf_state \<Rightarrow> ('t, 'r) probe_result" where
  "try_exec ops k s =
     (case read_at k SCHED_PROCESS_EXEC_COMM 16 of
        Inl e \<Rightarrow> (Inl e, s)
      | Inr comm \<Rightarrow>
          (case read_at k SCHED_PROCESS_EXEC_PID 4 of
             Inl e \<Rightarrow> (Inl e, s)
           | Inr pb \<Rightarrow>
               (let pid = from_ne_bytes pb;
                    from_tree = lookup_ppid ops (bs_tree s) pid;
                    ppid = (if from_tree \<noteq> 0 then from_tree else current_ppid ops k (bs_tree s));
                    (uid, _) = read_uid_gid k
                in (Inr (), upsert_process ops pid ppid comm uid s))))"

text \<open>The attached programs: each runs its handler, drops the result and returns 0.\<close>

definition sys_enter_execve :: "('t, 'r) map_ops \<Rightarrow> kctx \<Rightarrow> ('t, 'r) bpf_state \<Rightarrow> u32 \<times> ('t, 'r) bpf_state" where
  "sys_enter_execve ops k s = (0, snd (try_execve ops k s))"

definition sys_enter_connect :: "('t, 'r) map_ops \<Rightarrow> kctx \<Rightarrow> ('t, 'r) bpf_state \<Rightarrow> u32 \<times> ('t, 'r) bpf_state" where
  "sys_enter_connect ops k s = (0, snd (try_connect ops k s))"

definition sys_enter_openat :: "('t, 'r) map_ops \<Rightarrow> kctx \<Rightarrow> ('t, 'r) bpf_state \<Rightarrow> u32 \<times> ('t, 'r) bpf_state" where
  "sys_enter_openat ops k s = (0, snd (try_openat ops k s))"

definition sched_process_fork :: "('t, 'r) map_ops \<Rightarrow> kctx \<Rightarrow> ('t, 'r) bpf_state \<Rightarrow> u32 \<times> ('t, 'r) bpf_state" where
  "sched_process_fork ops k s = (0, snd (try_fork ops k s))"

definition sched_process_exec :: "('t, 'r) map_ops \<Rightarrow> kctx \<Rightarrow> ('t, 'r) bpf_state \<Rightarrow> u32 \<times> ('t, 'r) bpf_state" where
  "sched_process_exec ops k s = (0, snd (try_exec ops k s))"

lemmas entry_points [simp] =
  sys_enter_execve_def sys_enter_connect_def sys_enter_openat_def
  sched_process_fork_def sched_process_exec_def

datatype program = Sys_Enter_Execve | Sys_Enter_Connect | Sys_Enter_Openat | Sched_Process_Fork
  | Sched_Process_Exec

fun probe :: "('t, 'r) map_ops \<Rightarrow> program \<Rightarrow> kctx \<Rightarrow> ('t, 'r) bpf_state \<Rightarrow> u32 \<times> ('t, 'r) bpf_state" where
  "probe ops Sys_Enter_Execve k s = sys_enter_execve ops k s"
| "probe ops Sys_Enter_Connect k s = sys_enter_connect ops k s"
| "probe ops Sys_Enter_Openat k s = sys_enter_openat ops k s"
| "probe ops Sched_Process_Fork k s = sched_process_fork ops k s"
| "probe ops Sched_Process_Exec k s = sched_process_exec ops k s"

definition probe_step ::
  "('t, 'r) map_ops \<Rightarrow> ('t, 'r) bpf_state \<Rightarrow> program \<times> kctx \<Rightarrow> u32 \<times> ('t, 'r) bpf_state" where
  "probe_step ops s i = probe ops (fst i) (snd i) s"

subsection \<open>Path matching\<close>

lemma match_slots_iff:
  "match_slots monitored path is \<longleftrightarrow>
     (\<exists>i \<in> set is. \<exists>slot. monitored i = Some slot \<and> str_len slot \<noteq> 0 \<and>
        str_len slot \<le> str_len path \<and> take (str_len slot) path = take (str_len slot) slot)"
  by (induction "is") (auto split: option.splits)

text \<open>The text of a buffer is its bytes before the first NUL.\<close>

definition c_str :: "bytes \<Rightarrow> bytes" where
  "c_str buf = takeWhile (\<lambda>b. b \<noteq> 0) buf"

lemma c_str_take: "c_str buf = take (str_len buf) buf"
  by (simp add: c_str_def take_str_len)

lemma length_c_str [simp]: "length (c_str buf) = str_len buf"
  by (simp add: c_str_def str_len_def)

lemma slot_prefix_iff:
  "str_len slot \<le> str_len path \<and> take (str_len slot) path = take (str_len slot) slot \<longleftrightarrow>
   prefix (c_str slot) (c_str path)"
proof
  assume l: "str_len slot \<le> str_len path \<and> take (str_len slot) path = take (str_len slot) slot"
  then have "take (str_len slot) (c_str path) = c_str slot"
    by (simp add: c_str_take min_absorb1)
  then show "prefix (c_str slot) (c_str path)" by (metis take_is_prefix)
next
  assume p: "prefix (c_str slot) (c_str path)"
  then have le: "str_len slot \<le> str_len path"
    using prefix_length_le by fastforce
  from p have "c_str slot = take (str_len slot) (c_str path)"
    by (metis length_c_str append_eq_conv_conj prefix_def)
  with le show "str_len slot \<le> str_len path \<and> take (str_len slot) path = take (str_len slot) slot"
    by (simp add: c_str_take min_absorb1)
qed

lemma path_matches_iff:
  "path_matches_monitored monitored path \<longleftrightarrow>
     (\<exists>i < 64. \<exists>slot. monitored i = Some slot \<and> c_str slot \<noteq> [] \<and> prefix (c_str slot) (c_str path))"
proof -
  have "c_str slot \<noteq> [] \<longleftrightarrow> str_len slot \<noteq> 0" for slot
    by (metis length_c_str length_0_conv)
  then show ?thesis
    by (simp add: path_matches_monitored_def match_slots_iff slot_prefix_iff MAX_MONITORED_def
        atLeast0LessThan Bex_def)
qed

text \<open>A path is monitored exactly when the text of one of the 64 slots is not empty and is a
  prefix of the text of the path (of its bytes: a slot for a file also covers every longer name
  that starts with it).\<close>

theorem path_matches_monitored_iff:
  "path_matches_monitored monitored path \<longleftrightarrow>
     (\<exists>i < 64. \<exists>slot. monitored i = Some slot \<and> c_str slot \<noteq> [] \<and> prefix (c_str slot) (c_str path))"
  by (rule path_matches_iff)

subsection \<open>What the probes emit\<close>

text \<open>An event with the header that every probe fills in from its context.\<close>

definition event_of ::
  "kctx \<Rightarrow> nat \<Rightarrow> event_kind \<Rightarrow> u32 \<Rightarrow> u32 \<Rightarrow> bytes \<Rightarrow> bytes \<Rightarrow> u32 \<Rightarrow> u8 \<Rightarrow> u32 \<Rightarrow> u16 \<Rightarrow> bytes \<Rightarrow> sentinel_event" where
  "event_of k tick kind pid ppid comm path flags fam addr port v6 =
     \<lparr>se_kind = kind_as_u32 kind, se_pid = pid, se_ppid = ppid,
      se_uid = ucast (kc_uid_gid k), se_gid = ucast (drop_bit 32 (kc_uid_gid k)),
      se_timestamp_ns = kc_ktime k tick, se_comm = comm, se_addr_family = fam, se_pad = [0],
      se_dst_port = port, se_dst_addr = addr, se_dst_addr_v6 = v6, se_flags = flags,
      se_path = path\<rparr>"

lemma emit_event_with_pid_eq:
  "emit_event_with_pid ops k kind pid ppid comm path flags fam addr port v6 s =
     (let e = event_of k (bs_ticks s) kind pid ppid comm path flags fam addr port v6
      in if bs_scratch s = None then s
         else s\<lparr>bs_ticks := Suc (bs_ticks s), bs_scratch := Some e,
                bs_events := mo_output ops (bs_events s) e\<rparr>)"
  by (simp add: emit_event_with_pid_def event_of_def read_uid_gid_def Let_def split: option.split)

lemma emit_keeps [simp]:
  "bs_tree (emit_event_with_pid ops k kind pid ppid comm path flags fam addr port v6 s) = bs_tree s"
  "bs_monitored (emit_event_with_pid ops k kind pid ppid comm path flags fam addr port v6 s) = bs_monitored s"
  "bs_tree (emit_event ops k kind comm path flags addr port s) = bs_tree s"
  "bs_monitored (emit_event ops k kind comm path flags addr port s) = bs_monitored s"
  by (simp_all add: emit_event_def emit_event_with_pid_eq Let_def)

text \<open>Whether the flags of an \<open>open\<close> ask for write access.\<close>

definition write_access :: "u32 \<Rightarrow> bool" where
  "write_access flags \<longleftrightarrow> flags AND 3 = 1 \<or> flags AND 3 = 2"

text \<open>C2: An \<open>openat\<close> whose arguments can be read puts an \<open>open\<close> event into the ring buffer and,
  exactly when it asks for write access to a monitored path, a \<open>FileIntegrity\<close> event with the same
  path and flags right after it; an \<open>openat\<close> whose arguments cannot be read emits nothing.\<close>

theorem openat_events:
  assumes "bs_scratch s = Some x"
  shows "bs_events (snd (probe ops Sys_Enter_Openat k s)) =
    (case (kc_read_at k 24 8, kc_read_at k 32 4) of
       (Some fb, Some gb) \<Rightarrow>
         let path = read_user_path k (from_ne_bytes fb) (replicate 128 0);
             flags = from_ne_bytes gb;
             event = (\<lambda>tick kind. event_of k tick kind (current_pid k)
               (current_ppid ops k (bs_tree s)) (read_comm k) path flags 0 0 0 (replicate 16 0));
             opened = mo_output ops (bs_events s) (event (bs_ticks s) Open)
         in if write_access flags \<and> path_matches_monitored (bs_monitored s) path
            then mo_output ops opened (event (Suc (bs_ticks s)) FileIntegrity)
            else opened
     | _ \<Rightarrow> bs_events s)"
  using assms
  by (auto simp: try_openat_def read_at_def emit_event_def emit_event_with_pid_eq write_access_def
      SYS_ENTER_OPENAT_FILENAME_def SYS_ENTER_OPENAT_FLAGS_def O_ACCMODE_def O_WRONLY_def O_RDWR_def
      Let_def split: option.splits)

subsection \<open>The kernel's maps\<close>

text \<open>
  What the probes rely on: an insert sets the entry of its key or, when the map is full, leaves
  it as it was, and touches no other key; the ring buffer takes a record at its end or, when it
  is full, drops it.
\<close>

locale kernel_maps =
  fixes get :: "'t \<Rightarrow> u32 \<Rightarrow> process_node option"
    and insert :: "'t \<Rightarrow> u32 \<Rightarrow> process_node \<Rightarrow> 't"
    and append_record :: "'r \<Rightarrow> sentinel_event \<Rightarrow> 'r"
    and items :: "'r \<Rightarrow> sentinel_event list"
  assumes insert_same: "get (insert t p n) p = Some n \<or> get (insert t p n) p = get t p"
    and insert_other: "q \<noteq> p \<Longrightarrow> get (insert t p n) q = get t q"
    and output_items: "items (append_record r e) = items r \<or> items (append_record r e) = items r @ [e]"
begin

abbreviation ops :: "('t, 'r) map_ops" where
  "ops \<equiv> \<lparr>mo_get = get, mo_insert = insert, mo_output = append_record\<rparr>"

lemma lookup_upsert_other:
  "pid \<noteq> c \<Longrightarrow> lookup_ppid ops (bs_tree (upsert_process ops pid q comm uid s)) c = lookup_ppid ops (bs_tree s) c"
  by (simp add: lookup_ppid_def upsert_process_def insert_other [of c pid])

lemma lookup_upsert_keep:
  "lookup_ppid ops (bs_tree s) c = q \<Longrightarrow> lookup_ppid ops (bs_tree (upsert_process ops c q comm uid s)) c = q"
  using insert_same [of "bs_tree s" c "\<lparr>pn_ppid = q, pn_uid = uid, pn_comm = comm\<rparr>"]
  by (auto simp: lookup_ppid_def upsert_process_def)

text \<open>The parent of \<open>c\<close> in the tree survives every probe but a fork that makes \<open>c\<close> anew.\<close>

lemma ppid_step:
  assumes "lookup_ppid ops (bs_tree s) c = p" "p \<noteq> 0"
    "\<not> (prog = Sched_Process_Fork \<and> ucast (kc_arg k 3) = c)"
  shows "lookup_ppid ops (bs_tree (snd (probe ops prog k s))) c = p"
proof -
  have keep: "lookup_ppid ops (bs_tree (upsert_process ops pid q comm uid s)) c =
      lookup_ppid ops (bs_tree s) c"
    if "pid = c \<Longrightarrow> q = lookup_ppid ops (bs_tree s) c" for pid q comm uid
    using that by (cases "pid = c") (simp_all add: lookup_upsert_keep lookup_upsert_other)
  show ?thesis
    using assms
    by (cases prog)
      (auto simp: try_execve_def try_connect_def try_openat_def try_fork_def try_exec_def
        emit_event_def current_ppid_def Let_def intro!: keep split: sum.split prod.split)
qed

lemma ppid_run:
  "lookup_ppid ops (bs_tree s) c = p \<Longrightarrow> p \<noteq> 0 \<Longrightarrow>
   (\<And>k. (Sched_Process_Fork, k) \<in> set inputs \<Longrightarrow> ucast (kc_arg k 3) \<noteq> c) \<Longrightarrow>
   lookup_ppid ops (bs_tree (snd (run (probe_step ops) s inputs))) c = p"
proof (induction inputs arbitrary: s)
  case Nil
  then show ?case by simp
next
  case (Cons i inputs)
  obtain prog k where i: "i = (prog, k)" by fastforce
  have "lookup_ppid ops (bs_tree (snd (probe_step ops s i))) c = p"
    using Cons.prems ppid_step [of s c p prog k] by (auto simp: probe_step_def i)
  from Cons.IH [OF this] Cons.prems show ?case by (simp add: run_Cons del: run.simps(2))
qed

text \<open>The ring buffer only ever grows at its end: what a probe wrote is not changed later.\<close>

lemma emit_items:
  "prefix (items (bs_events s))
     (items (bs_events (emit_event_with_pid ops k kind pid ppid comm path flags fam addr port v6 s)))"
  using output_items by (auto simp: emit_event_with_pid_eq Let_def) (metis prefix_def prefix_order.refl)

end

text \<open>The scratch slot stays available.\<close>

lemma scratch_kept:
  "bs_scratch s \<noteq> None \<Longrightarrow> bs_scratch (snd (probe ops prog k s)) \<noteq> None"
proof -
  assume s: "bs_scratch s \<noteq> None"
  have emit: "bs_scratch (emit_event_with_pid ops k kind pid ppid comm path flags fam addr port v6 t) \<noteq> None"
    if "bs_scratch t \<noteq> None" for kind pid ppid comm path flags fam addr port v6 and t :: "('a, 'b) bpf_state"
    using that by (simp add: emit_event_with_pid_eq Let_def)
  have ups: "bs_scratch (upsert_process ops pid q comm uid s) \<noteq> None" for pid q comm uid
    using s by (simp add: upsert_process_def)
  show ?thesis
    using s
    by (cases prog)
      (simp_all add: try_execve_def try_connect_def try_openat_def try_fork_def try_exec_def
        emit_event_def emit ups Let_def del: not_None_eq split: sum.split prod.split)
qed

subsection \<open>Maps with the capacities of \<open>main.rs\<close>\<close>

text \<open>
  \<open>PROCESS_TREE\<close> holds 8192 entries and refuses a new key when it is full; \<open>EVENTS\<close> has 256 KiB,
  of which a record takes its 208 bytes and an 8-byte header.
\<close>

type_synonym tree = "(u32 \<times> process_node) list"

definition MAX_TREE :: nat where "MAX_TREE = 8192"
definition RING_BYTES :: nat where "RING_BYTES = 256 * 1024"

definition tree_insert :: "tree \<Rightarrow> u32 \<Rightarrow> process_node \<Rightarrow> tree" where
  "tree_insert t p n =
     (if map_of t p \<noteq> None \<or> length t < MAX_TREE then AList.update p n t else t)"

definition ring_output :: "sentinel_event list \<Rightarrow> sentinel_event \<Rightarrow> sentinel_event list" where
  "ring_output r e =
     (if Suc (length r) * (8 + size_of_event) \<le> RING_BYTES then r @ [e] else r)"

definition main_ops :: "(tree, sentinel_event list) map_ops" where
  "main_ops = \<lparr>mo_get = map_of, mo_insert = tree_insert, mo_output = ring_output\<rparr>"

interpretation km: kernel_maps map_of tree_insert ring_output "\<lambda>r. r"
  by unfold_locales (auto simp: tree_insert_def ring_output_def update_conv' split: if_splits)

lemmas main_ppid_run = km.ppid_run [folded main_ops_def]

lemma lookup_after_fork:
  assumes "map_of (bs_tree s) (ucast (kc_arg k 3)) \<noteq> None \<or> length (bs_tree s) < MAX_TREE"
  shows "lookup_ppid main_ops (bs_tree (snd (probe main_ops Sched_Process_Fork k s))) (ucast (kc_arg k 3))
    = ucast (kc_arg k 1)"
  using assms
  by (auto simp: try_fork_def upsert_process_def lookup_ppid_def main_ops_def tree_insert_def
      update_conv' Let_def split: prod.split)

lemma scratch_run:
  "bs_scratch s \<noteq> None \<Longrightarrow> bs_scratch (snd (run (probe_step ops) s inputs)) \<noteq> None"
  by (rule run_invariant [where I = "\<lambda>s. bs_scratch s \<noteq> None"])
    (simp_all add: probe_step_def scratch_kept del: not_None_eq)

text \<open>What an \<open>execve\<close> emits.\<close>

lemma execve_events:
  assumes "kc_read_at k 16 8 = Some b" "bs_scratch s \<noteq> None"
  shows "\<exists>t. bs_events (snd (probe ops Sys_Enter_Execve k s)) = mo_output ops (bs_events s)
      (event_of k (bs_ticks s) Exec (current_pid k) (current_ppid ops k t) (read_comm k)
        (read_user_path k (from_ne_bytes b) (replicate 128 0)) 0 0 0 0 (replicate 16 0))
    \<and> t = mo_insert ops (bs_tree s) (current_pid k) \<lparr>pn_ppid = current_ppid ops k (bs_tree s),
        pn_uid = fst (read_uid_gid k), pn_comm = read_comm k\<rparr>"
  using assms
  by (auto simp: try_execve_def read_at_def SYS_ENTER_EXECVE_FILENAME_def emit_event_def
      emit_event_with_pid_eq upsert_process_def Let_def split: prod.split)

lemma fork_events:
  "bs_scratch s = Some e \<Longrightarrow> probe ops Sched_Process_Fork k s =
    (let e' = event_of k (bs_ticks s) ProcessFork (ucast (kc_arg k 3)) (ucast (kc_arg k 1))
           (read_kernel_comm k (kc_arg k 0) (replicate 16 0)) (replicate 128 0) 0 0 0 0 (replicate 16 0)
     in (0, s\<lparr>bs_tree := mo_insert ops (bs_tree s) (ucast (kc_arg k 3))
              \<lparr>pn_ppid = ucast (kc_arg k 1), pn_uid = fst (read_uid_gid k), pn_comm = replicate 16 0\<rparr>,
            bs_ticks := Suc (bs_ticks s), bs_scratch := Some e',
            bs_events := mo_output ops (bs_events s) e'\<rparr>))"
  by (simp add: try_fork_def emit_event_with_pid_eq upsert_process_def Let_def split: prod.split)

lemma execve_after_fork:
  assumes "ucast (kc_arg kf 3) = c" "ucast (kc_arg kf 1) = parent" "parent \<noteq> 0"
    "map_of (bs_tree s) c \<noteq> None \<or> length (bs_tree s) < MAX_TREE" "bs_scratch s \<noteq> None"
    "\<And>k. (Sched_Process_Fork, k) \<in> set inputs \<Longrightarrow> ucast (kc_arg k 3) \<noteq> c"
    "s1 = snd (run (probe_step main_ops) s ((Sched_Process_Fork, kf) # inputs))"
    "current_pid k = c" "kc_read_at k 16 8 = Some b"
  shows "bs_events (snd (probe main_ops Sys_Enter_Execve k s1)) =
    ring_output (bs_events s1)
      (event_of k (bs_ticks s1) Exec c parent (read_comm k)
        (read_user_path k (from_ne_bytes b) (replicate 128 0)) 0 0 0 0 (replicate 16 0))"
proof -
  let ?s = "snd (probe_step main_ops s (Sched_Process_Fork, kf))"
  have s1: "s1 = snd (run (probe_step main_ops) ?s inputs)"
    by (simp add: assms(7) run_Cons del: run.simps(2))
  have "lookup_ppid main_ops (bs_tree ?s) c = parent"
    using lookup_after_fork [of s kf] assms(1,2,4) by (simp add: probe_step_def)
  then have p: "lookup_ppid main_ops (bs_tree s1) c = parent"
    unfolding s1 using assms(3,6) by (rule main_ppid_run)
  have "bs_scratch s1 \<noteq> None"
    unfolding assms(7) using assms(5) by (rule scratch_run)
  from execve_events [OF assms(9) this, of main_ops] obtain t where
    ev: "bs_events (snd (probe main_ops Sys_Enter_Execve k s1)) = mo_output main_ops (bs_events s1)
      (event_of k (bs_ticks s1) Exec c (lookup_ppid main_ops t c) (read_comm k)
        (read_user_path k (from_ne_bytes b) (replicate 128 0)) 0 0 0 0 (replicate 16 0))"
    and t: "t = mo_insert main_ops (bs_tree s1) c \<lparr>pn_ppid = parent,
        pn_uid = fst (read_uid_gid k), pn_comm = read_comm k\<rparr>"
    by (auto simp: current_ppid_def assms(8) p)
  have "lookup_ppid main_ops t c = parent"
    using km.lookup_upsert_keep [of s1 c parent, folded main_ops_def, OF p]
    by (simp add: t upsert_process_def)
  with ev show ?thesis by (simp add: main_ops_def)
qed

text \<open>C3: A process keeps its parent: after the fork of \<open>c\<close> by \<open>parent\<close> has found room in the process
  tree, whatever probes run next on behalf of any processes, as long as \<open>c\<close> is not forked anew,
  the \<open>exec\<close> event that \<open>c\<close> causes names \<open>parent\<close>, the command name and the path of the call.\<close>

theorem execve_names_parent:
  assumes "ucast (kc_arg kf 3) = c" "ucast (kc_arg kf 1) = parent" "parent \<noteq> 0"
    "map_of (bs_tree s) c \<noteq> None \<or> length (bs_tree s) < MAX_TREE" "bs_scratch s \<noteq> None"
    "\<And>k. (Sched_Process_Fork, k) \<in> set inputs \<Longrightarrow> ucast (kc_arg k 3) \<noteq> c"
    "s1 = snd (run (probe_step main_ops) s ((Sched_Process_Fork, kf) # inputs))"
    "current_pid k = c" "kc_read_at k 16 8 = Some b"
  shows "bs_events (snd (probe main_ops Sys_Enter_Execve k s1)) =
    ring_output (bs_events s1)
      (event_of k (bs_ticks s1) Exec c parent (read_comm k)
        (read_user_path k (from_ne_bytes b) (replicate 128 0)) 0 0 0 0 (replicate 16 0))"
  using assms by (rule execve_after_fork)

text \<open>A context in which nothing can be read, and an empty state, for concrete inputs.\<close>

definition quiet_kctx :: kctx where
  "quiet_kctx =
     \<lparr>kc_pid_tgid = 0, kc_uid_gid = 0, kc_comm = None, kc_ktime = (\<lambda>_. 0),
      kc_read_user_str = (\<lambda>_ buf. buf), kc_read_kernel_buf = (\<lambda>_ buf. buf),
      kc_read_user = (\<lambda>_ _. None), kc_read_at = (\<lambda>_ _. None), kc_arg = (\<lambda>_. 0)\<rparr>"

definition start_state :: "(nat \<Rightarrow> bytes option) \<Rightarrow> tree \<Rightarrow> (tree, sentinel_event list) bpf_state" where
  "start_state monitored t =
     \<lparr>bs_tree = t, bs_events = [], bs_scratch = Some (sample_event Exec 0 0 [] []),
      bs_monitored = monitored, bs_ticks = 0\<rparr>"

theorem openat_events_witness:
  "map se_kind (bs_events (snd (probe main_ops Sys_Enter_Openat
     (quiet_kctx\<lparr>kc_read_user_str := (\<lambda>_ _. pad_to 128 [47, 101, 116, 99, 47, 112]),
        kc_read_at := (\<lambda>off n. Some (1 # replicate (n - 1) 0))\<rparr>)
     (start_state [3 \<mapsto> pad_to 128 [47, 101, 116, 99, 47]] [])))) = [3, 4]"
proof -
  have m: "path_matches_monitored [3 \<mapsto> pad_to 128 [47, 101, 116, 99, 47]]
      (pad_to 128 [47, 101, 116, 99, 47, 112])"
    by (auto simp: path_matches_iff c_str_def takeWhile_pad_to intro!: exI [of _ 3])
  have ptr: "(from_ne_bytes (1 # replicate 7 0) :: u64) \<noteq> 0" by code_simp
  have flags: "(from_ne_bytes (1 # replicate 3 0) :: u32) = 1" by code_simp
  have "write_access 1" by code_simp
  with m show ?thesis
    by (subst openat_events)
      (simp_all add: start_state_def quiet_kctx_def read_user_path_def ptr flags event_of_def
        main_ops_def ring_output_def RING_BYTES_def size_of_event_def Let_def del: replicate.simps)
qed

theorem execve_names_parent_witness:
  "map se_ppid (bs_events (snd (probe main_ops Sys_Enter_Execve
     (quiet_kctx\<lparr>kc_pid_tgid := 38654705664, kc_read_at := (\<lambda>_ n. Some (replicate n 0))\<rparr>)
     (snd (run (probe_step main_ops) (start_state Map.empty [])
       [(Sched_Process_Fork, quiet_kctx\<lparr>kc_arg := (\<lambda>i. if i = 3 then 9 else 5)\<rparr>),
        (Sched_Process_Fork, quiet_kctx\<lparr>kc_arg := (\<lambda>i. if i = 3 then 10 else 9)\<rparr>)]))))) = [5, 9, 5]"
proof -
  let ?fork = "\<lambda>child parent. quiet_kctx\<lparr>kc_arg := (\<lambda>i. if i = 3 then child else parent)\<rparr>"
  let ?s1 = "snd (run (probe_step main_ops) (start_state Map.empty [])
       [(Sched_Process_Fork, ?fork 9 5), (Sched_Process_Fork, ?fork 10 9)])"
  let ?k = "quiet_kctx\<lparr>kc_pid_tgid := 38654705664, kc_read_at := (\<lambda>_ n. Some (replicate n 0))\<rparr>"
  have pid: "current_pid ?k = 9" by code_simp
  have args: "(ucast (kc_arg (?fork 9 5) 3) :: u32) = 9" "(ucast (kc_arg (?fork 9 5) 1) :: u32) = 5"
    "(ucast (kc_arg (?fork 10 9) 3) :: u32) = 10"
    by code_simp+
  have start: "length (bs_tree (start_state Map.empty [])) < MAX_TREE"
    "bs_scratch (start_state Map.empty []) \<noteq> None"
    by (simp_all add: start_state_def MAX_TREE_def)
  have other: "(Sched_Process_Fork, k) \<in> set [(Sched_Process_Fork, ?fork 10 9)] \<Longrightarrow>
      (ucast (kc_arg k 3) :: u32) \<noteq> 9" for k
    using args(3) by auto
  have path: "kc_read_at ?k 16 8 = Some (replicate 8 0)" by simp
  note ev = execve_names_parent [OF args(1,2) _ disjI2 [OF start(1)] start(2) other refl pid path]
  have "map se_ppid (bs_events ?s1) = [5, 9]"
    by (simp add: probe_step_def fork_events start_state_def main_ops_def ring_output_def
        RING_BYTES_def size_of_event_def event_of_def Let_def del: replicate.simps probe.simps)
  moreover from this have "length (bs_events ?s1) = 2" by (metis length_map length_Cons list.size(3) numeral_2_eq_2)
  ultimately show ?thesis
    by (subst ev) (simp_all add: ring_output_def RING_BYTES_def size_of_event_def event_of_def del: run.simps)
qed



subsection \<open>Socket addresses\<close>

text \<open>
  The \<open>sockaddr\<close> a process passes to \<open>connect\<close>: family in native order, port in network order,
  then the address; \<open>sockaddr_in6\<close> has a flow label before its address and a scope after it.
\<close>

definition sockaddr_in :: "u16 \<Rightarrow> bytes \<Rightarrow> bytes" where
  "sockaddr_in port addr = [2, 0] @ rev (to_ne_bytes 2 port) @ addr"

definition sockaddr_in6 :: "u16 \<Rightarrow> bytes \<Rightarrow> bytes \<Rightarrow> bytes \<Rightarrow> bytes" where
  "sockaddr_in6 port flow addr scope = [10, 0] @ rev (to_ne_bytes 2 port) @ flow @ addr @ scope"

lemma two_bytes: "\<exists>x y. to_ne_bytes 2 (w :: u16) = [x, y]"
  by (simp add: to_ne_bytes_def numeral_2_eq_2)

lemma swap_port: "swap_bytes 2 (from_ne_bytes (rev (to_ne_bytes 2 (port :: u16))) :: u16) = port"
  by (simp add: swap_bytes_def to_from_ne_bytes from_to_ne_bytes)

lemma family_bytes: "(from_ne_bytes [2, 0] :: u16) = 2" "(from_ne_bytes [10, 0] :: u16) = 10"
  by (simp_all add: from_ne_bytes_def)

lemma ucast_families [simp]: "(ucast AF_INET :: u16) = 2" "(ucast AF_INET6 :: u16) = 10"
  by (simp_all add: AF_INET_def AF_INET6_def)

lemma read_sockaddr_in_v4:
  assumes "kc_read_user k p 8 = Some (sockaddr_in port [a, b, c, d])"
  shows "read_sockaddr_in k p = (AF_INET, port, from_ne_bytes [a, b, c, d])"
proof -
  obtain x y where xy: "to_ne_bytes 2 port = [x, y]" using two_bytes by blast
  then have "swap_bytes 2 (from_ne_bytes [y, x] :: u16) = port" using swap_port [of port] by simp
  moreover have "kc_read_user k p 8 = Some [2, 0, y, x, a, b, c, d]"
    using assms by (simp add: sockaddr_in_def xy)
  ultimately show ?thesis
    by (simp add: read_sockaddr_in_def family_bytes)
qed

lemma read_sockaddr_in_other:
  "kc_read_user k p 8 = Some ([10, 0] @ r) \<Longrightarrow> read_sockaddr_in k p = (0, 0, 0)"
  by (simp add: read_sockaddr_in_def family_bytes)

lemma read_sockaddr_in6_v6:
  assumes "kc_read_user k p 28 = Some (sockaddr_in6 port flow addr scope)"
    "length flow = 4" "length addr = 16"
  shows "read_sockaddr_in6 k p = (AF_INET6, port, addr)"
proof -
  obtain x y where xy: "to_ne_bytes 2 port = [x, y]" using two_bytes by blast
  then have "swap_bytes 2 (from_ne_bytes [y, x] :: u16) = port" using swap_port [of port] by simp
  moreover obtain f g h i where "flow = [f, g, h, i]"
    using assms(2) by (auto simp: numeral_eq_Suc length_Suc_conv)
  then have "kc_read_user k p 28 = Some (10 # 0 # y # x # f # g # h # i # addr @ scope)"
    using assms(1) by (simp add: sockaddr_in6_def xy)
  ultimately show ?thesis
    using assms(3) by (simp add: read_sockaddr_in6_def family_bytes)
qed

text \<open>What a \<open>connect\<close> emits for either family.\<close>

lemma connect_events:
  assumes "kc_read_at k 24 8 = Some b" "from_ne_bytes b = p" "p \<noteq> 0" "bs_scratch s \<noteq> None"
    "(if fst (read_sockaddr_in k p) = 0 then read_sockaddr_in6 k p
      else (fst (read_sockaddr_in k p), fst (snd (read_sockaddr_in k p)), replicate 16 0)) = (fam, port, v6)"
  shows "bs_events (snd (probe ops Sys_Enter_Connect k s)) = mo_output ops (bs_events s)
    (event_of k (bs_ticks s) Connect (current_pid k) (current_ppid ops k (bs_tree s)) (read_comm k)
      (replicate 128 0) 0 fam (snd (snd (read_sockaddr_in k p))) port v6)"
  using assms
  by (auto simp: try_connect_def read_at_def SYS_ENTER_CONNECT_ADDR_def emit_event_with_pid_eq Let_def
      split: prod.splits if_splits)

end
