(* ===== verification/Rust_Net.thy ===== *)
theory Rust_Net
  imports Rust_Str
begin

text \<open>
  \<open>std::net\<close>: how \<open>Ipv4Addr\<close> and \<open>Ipv6Addr\<close> print, how \<open>Ipv4Addr\<close> parses, and the
  conversions between an IPv4 address and a \<open>u32\<close>. Printing an IPv4 address and parsing it
  again gives the address back.
\<close>

subsection \<open>IPv4\<close>

type_synonym ipv4 = "u8 \<times> u8 \<times> u8 \<times> u8"

definition ipv4_of_u32 :: "u32 \<Rightarrow> ipv4" where
  "ipv4_of_u32 w =
     (case rev (to_ne_bytes 4 w) of [a, b, c, d] \<Rightarrow> (a, b, c, d) | _ \<Rightarrow> (0, 0, 0, 0))"

definition u32_of_ipv4 :: "ipv4 \<Rightarrow> u32" where
  "u32_of_ipv4 ip = (case ip of (a, b, c, d) \<Rightarrow> from_ne_bytes [d, c, b, a])"

definition ipv4_to_string :: "ipv4 \<Rightarrow> string" where
  "ipv4_to_string ip =
     (case ip of (a, b, c, d) \<Rightarrow>
        join_with ''.'' (map (\<lambda>x. show_nat (unat x)) [a, b, c, d]))"

text \<open>
  An octet of the text form: one to three decimal digits, no leading zero unless it is the only
  digit, at most 255. The parser refuses text of more than 15 bytes.
\<close>

definition parse_octet :: "string \<Rightarrow> u8 option" where
  "parse_octet s =
     (if s = [] \<or> 3 < length s \<or> (1 < length s \<and> hd s = CHR ''0'') then None
      else (case digits_val 0 s of
              None \<Rightarrow> None
            | Some n \<Rightarrow> if n < 256 then Some (word_of_nat n) else None))"

definition parse_ipv4 :: "string \<Rightarrow> ipv4 option" where
  "parse_ipv4 s =
     (if 15 < length s then None
      else (case map parse_octet (split_on (CHR ''.'') s) of
              [Some a, Some b, Some c, Some d] \<Rightarrow> Some (a, b, c, d)
            | _ \<Rightarrow> None))"

lemma length_4_conv: "length xs = 4 \<longleftrightarrow> (\<exists>a b c d. xs = [a, b, c, d])"
  by (auto simp: numeral_eq_Suc length_Suc_conv)

lemma rev_to_ne_bytes_4: "\<exists>a b c d. rev (to_ne_bytes 4 w) = [a, b, c, d]"
  using length_4_conv [of "rev (to_ne_bytes 4 w)"] by simp

lemma u32_of_ipv4_of_u32 [simp]: "u32_of_ipv4 (ipv4_of_u32 w) = w"
proof -
  obtain a b c d where r: "rev (to_ne_bytes 4 w) = [a, b, c, d]"
    using rev_to_ne_bytes_4 by blast
  then have "to_ne_bytes 4 w = [d, c, b, a]" by (metis rev.simps append.simps rev_rev_ident)
  then have "from_ne_bytes [d, c, b, a] = w"
    using from_to_ne_bytes [of 4 w] by simp
  with r show ?thesis by (simp add: ipv4_of_u32_def u32_of_ipv4_def)
qed

lemma ipv4_of_u32_of_ipv4 [simp]: "ipv4_of_u32 (u32_of_ipv4 ip) = ip"
proof -
  obtain a b c d where ip: "ip = (a, b, c, d)" by (cases ip)
  have "to_ne_bytes 4 (from_ne_bytes [d, c, b, a] :: u32) = [d, c, b, a]"
    by (rule to_from_ne_bytes) simp_all
  with ip show ?thesis by (simp add: ipv4_of_u32_def u32_of_ipv4_def)
qed

lemma show_nat_octet:
  assumes "n < 256"
  shows "length (show_nat n) \<le> 3" "length (show_nat n) > 1 \<Longrightarrow> hd (show_nat n) \<noteq> CHR ''0''"
proof -
  have q: "n div 10 < 10 \<or> 10 \<le> n div 10 \<and> n div 10 div 10 < 10" using assms by arith
  have h: "hd (show_nat n) \<noteq> CHR ''0''" if "10 \<le> n"
    using q that
    by (auto simp: show_nat.simps [of n] show_nat.simps [of "n div 10"]
        show_nat.simps [of "n div 10 div 10"] char_eq_code)
  show "length (show_nat n) \<le> 3"
    using q by (auto simp: show_nat.simps [of n] show_nat.simps [of "n div 10"]
        show_nat.simps [of "n div 10 div 10"])
  show "hd (show_nat n) \<noteq> CHR ''0''" if "length (show_nat n) > 1"
    using that h by (cases "n < 10") (simp_all add: show_nat.simps [of n])
qed

lemma parse_octet_show: "parse_octet (show_nat (unat (a :: u8))) = Some a"
  using show_nat_octet [of "unat a"]
  by (auto simp: parse_octet_def digits_val_show_nat)

lemma dot_notin_show_nat [simp]: "CHR ''.'' \<notin> set (show_nat n)"
  using show_nat_digits [of "CHR ''.''" n] by auto

theorem parse_ipv4_to_string: "parse_ipv4 (ipv4_to_string ip) = Some ip"
proof -
  obtain a b c d where ip: "ip = (a, b, c, d)" by (cases ip)
  let ?s = "\<lambda>x :: u8. show_nat (unat x)"
  have "split_on (CHR ''.'') (ipv4_to_string ip) = [?s a, ?s b, ?s c, ?s d]"
    by (simp add: ip ipv4_to_string_def split_on_append split_on_id)
  moreover have l: "length (?s x) \<le> 3" for x by (rule show_nat_octet) simp
  have "length (ipv4_to_string ip) \<le> 15"
    using l [of a] l [of b] l [of c] l [of d] by (simp add: ip ipv4_to_string_def)
  ultimately show ?thesis
    by (simp add: parse_ipv4_def parse_octet_show ip)
qed

lemma ipv4_to_string_ascii: "is_ascii (ipv4_to_string ip)"
  by (cases ip) (simp add: ipv4_to_string_def)

subsection \<open>IPv6\<close>

definition hex_digit :: "nat \<Rightarrow> char" where
  "hex_digit d = (if d < 10 then char_of (48 + d) else char_of (87 + d))"

fun show_hex :: "nat \<Rightarrow> string" where
  "show_hex n = (if n < 16 then [hex_digit n] else show_hex (n div 16) @ [hex_digit (n mod 16)])"

declare show_hex.simps [simp del]

text \<open>The eight 16-bit segments of the sixteen address bytes, in network order.\<close>

fun ipv6_segments :: "bytes \<Rightarrow> nat list" where
  "ipv6_segments (hi # lo # bs) = (256 * unat hi + unat lo) # ipv6_segments bs"
| "ipv6_segments bs = []"

text \<open>
  The longest run of zero segments, the first one of that length: the scan keeps the longest
  run so far and the current run, each as its start and its length.
\<close>

fun zero_run :: "nat \<times> nat \<Rightarrow> nat \<times> nat \<Rightarrow> nat \<Rightarrow> nat list \<Rightarrow> nat \<times> nat" where
  "zero_run longest cur i [] = longest"
| "zero_run longest cur i (x # xs) =
     (if x = 0 then
        (let cur' = (if snd cur = 0 then i else fst cur, Suc (snd cur))
         in zero_run (if snd longest < snd cur' then cur' else longest) cur' (Suc i) xs)
      else zero_run longest (0, 0) (Suc i) xs)"

definition fmt_subslice :: "nat list \<Rightarrow> string" where
  "fmt_subslice xs = join_with '':'' (map show_hex xs)"

definition ipv6_to_string :: "bytes \<Rightarrow> string" where
  "ipv6_to_string bs =
     (if take 12 bs = replicate 10 0 @ [0xFF, 0xFF] then
        ''::ffff:'' @ ipv4_to_string (bs ! 12, bs ! 13, bs ! 14, bs ! 15)
      else
        (let segs = ipv6_segments bs; z = zero_run (0, 0) (0, 0) 0 segs
         in if 1 < snd z then
              fmt_subslice (take (fst z) segs) @ ''::'' @ fmt_subslice (drop (fst z + snd z) segs)
            else fmt_subslice segs))"

lemmas [std_eval] = ipv4_of_u32_def u32_of_ipv4_def ipv4_to_string_def parse_octet_def
  parse_ipv4_def hex_digit_def show_hex.simps fmt_subslice_def ipv6_to_string_def

lemma ipv6_loopback: "ipv6_to_string (replicate 15 0 @ [1]) = ''::1''"
  by code_simp

lemma show_hex_nonempty [simp]: "show_hex n \<noteq> []"
  by (subst show_hex.simps) simp

lemma show_hex_chars: "c \<in> set (show_hex n) \<Longrightarrow> code c < 128 \<and> c \<noteq> CHR '':'' \<and> c \<noteq> CHR ''.''"
proof (induction n rule: show_hex.induct)
  case (1 n)
  have d: "code (hex_digit k) < 128 \<and> hex_digit k \<noteq> CHR '':'' \<and> hex_digit k \<noteq> CHR ''.''" if "k < 16" for k
    using that by (auto simp: hex_digit_def char_eq_code)
  show ?case
  proof (cases "n < 16")
    case True
    with "1.prems" d show ?thesis by (simp add: show_hex.simps [of n])
  next
    case False
    with "1.prems" have "c \<in> set (show_hex (n div 16)) \<or> c = hex_digit (n mod 16)"
      by (auto simp: show_hex.simps [of n])
    then show ?thesis using "1.IH" [OF False] "1.prems" d [of "n mod 16"] by auto
  qed
qed

end
