(* ===== verification/Event.thy ===== *)
theory Event
  imports Common Rust_Net
begin

text \<open>
  \<open>event.rs\<close>: the enriched event the detection rules see, the alert, and the field access by
  name that rule conditions use. A 64-bit float is kept as its bit pattern: the code only
  copies it and stores one constant.
\<close>

record mitre_attack =
  ma_tactic :: string
  ma_technique :: string
  ma_subtechnique :: "string option"

record triage_outcome =
  to_severity :: string
  to_summary :: string
  to_reasoning :: string
  to_mitre :: "string list"
  to_remediation :: "string list"
  to_false_positive_likelihood :: u64

record enriched_event =
  ee_kind :: string
  ee_pid :: u32
  ee_ppid :: u32
  ee_uid :: u32
  ee_gid :: u32
  ee_timestamp_ns :: u64
  ee_timestamp :: "string option"
  ee_comm :: string
  ee_parent_comm :: string
  ee_path :: string
  ee_addr_family :: "u8 option"
  ee_dst_addr :: "string option"
  ee_dst_port :: "u16 option"
  ee_flags :: u32
  ee_lineage :: "string list"
  ee_host :: string
  ee_container_id :: "string option"
  ee_pod_name :: "string option"
  ee_pod_namespace :: "string option"
  ee_pod_image :: "string option"

record alert =
  al_rule_id :: string
  al_title :: string
  al_severity :: string
  al_description :: string
  al_tags :: "string list"
  al_mitre :: "mitre_attack option"
  al_event :: enriched_event
  al_triage :: "triage_outcome option"
  al_timestamp_ns :: u64

text \<open>\<open>to_string\<close> of an unsigned integer.\<close>

definition show_word :: "'w::len word \<Rightarrow> string" where
  "show_word w = show_nat (unat w)"

text \<open>\<open>EnrichedEvent::field\<close>; \<open>tbl\<close> lower-cases text that is not ASCII.\<close>

definition field :: "(string \<Rightarrow> string) \<Rightarrow> enriched_event \<Rightarrow> string \<Rightarrow> string option" where
  "field tbl e name =
     (if name = ''kind'' then Some (to_lowercase tbl (ee_kind e))
      else if name = ''pid'' then Some (show_word (ee_pid e))
      else if name = ''ppid'' then Some (show_word (ee_ppid e))
      else if name = ''uid'' then Some (show_word (ee_uid e))
      else if name = ''gid'' then Some (show_word (ee_gid e))
      else if name = ''comm'' \<or> name = ''image'' then Some (ee_comm e)
      else if name = ''parent_comm'' \<or> name = ''parent_image'' then Some (ee_parent_comm e)
      else if name = ''path'' \<or> name = ''filename'' then Some (ee_path e)
      else if name = ''addr_family'' then map_option show_word (ee_addr_family e)
      else if name = ''dst_addr'' \<or> name = ''dst'' then ee_dst_addr e
      else if name = ''dst_port'' then map_option show_word (ee_dst_port e)
      else if name = ''flags'' then Some (show_word (ee_flags e))
      else if name = ''host'' then Some (ee_host e)
      else if name = ''lineage'' then Some (join_with '','' (ee_lineage e))
      else if name = ''container_id'' then ee_container_id e
      else if name = ''pod_name'' then ee_pod_name e
      else if name = ''namespace'' \<or> name = ''pod_namespace'' then ee_pod_namespace e
      else if name = ''pod_image'' then ee_pod_image e
      else None)"

definition known_fields :: "string list" where
  "known_fields =
     [''kind'', ''pid'', ''ppid'', ''uid'', ''gid'', ''comm'', ''image'', ''parent_comm'',
      ''parent_image'', ''path'', ''filename'', ''addr_family'', ''dst_addr'', ''dst'',
      ''dst_port'', ''flags'', ''host'', ''lineage'', ''container_id'', ''pod_name'',
      ''namespace'', ''pod_namespace'', ''pod_image'']"

lemma field_known: "field tbl e name = Some v \<Longrightarrow> name \<in> set known_fields"
  by (auto simp: field_def known_fields_def split: if_splits)

lemma known_fields_no_colon: "name \<in> set known_fields \<Longrightarrow> CHR '':'' \<notin> set name"
  by (auto simp: known_fields_def)

lemma parse_show_word: "2 ^ LENGTH('w) \<le> b \<Longrightarrow> parse_uint b (show_word (w :: 'w::len word)) = Some (unat w)"
  unfolding show_word_def
  by (rule parse_show_nat) (rule less_le_trans [OF unsigned_less])

text \<open>The fields that hold numbers, and their values.\<close>

definition numeric_field :: "enriched_event \<Rightarrow> string \<Rightarrow> nat option" where
  "numeric_field e name =
     (if name = ''pid'' then Some (unat (ee_pid e))
      else if name = ''ppid'' then Some (unat (ee_ppid e))
      else if name = ''uid'' then Some (unat (ee_uid e))
      else if name = ''gid'' then Some (unat (ee_gid e))
      else if name = ''flags'' then Some (unat (ee_flags e))
      else if name = ''addr_family'' then map_option unat (ee_addr_family e)
      else if name = ''dst_port'' then map_option unat (ee_dst_port e)
      else None)"

lemma numeric_field_field:
  "numeric_field e name = Some n \<Longrightarrow> \<exists>v. field tbl e name = Some v \<and> parse_uint (2 ^ 64) v = Some n"
  by (auto simp: numeric_field_def field_def parse_show_word split: if_splits)

lemma numeric_field_bound: "numeric_field e name = Some n \<Longrightarrow> n < 2 ^ 32"
proof -
  have "unat (w :: u32) < 2 ^ 32" for w by (rule less_le_trans [OF unsigned_less]) simp
  moreover have "unat (w :: u16) < 2 ^ 32" for w by (rule less_le_trans [OF unsigned_less]) simp
  moreover have "unat (w :: u8) < 2 ^ 32" for w by (rule less_le_trans [OF unsigned_less]) simp
  ultimately show "numeric_field e name = Some n \<Longrightarrow> n < 2 ^ 32"
    unfolding numeric_field_def by (auto split: if_splits)
qed

end
