(* ===== verification/Rust_Path.thy ===== *)
theory Rust_Path
  imports Rust_Str
begin

text \<open>
  \<open>std::path::Path\<close> on Unix: \<open>file_name\<close> and \<open>parent\<close>. Repeated and trailing separators and
  \<open>.\<close> components after the first do not count; a path that ends in \<open>..\<close> or has no component
  has no file name.
\<close>

definition path_components :: "string \<Rightarrow> string list" where
  "path_components p = filter (\<lambda>c. c \<noteq> [] \<and> c \<noteq> ''.'') (split_on (CHR ''/'') p)"

definition file_name :: "string \<Rightarrow> string option" where
  "file_name p =
     (let cs = path_components p
      in if cs = [] \<or> last cs = ''..'' then None else Some (last cs))"

text \<open>
  \<open>parent\<close> is a prefix of the text. \<open>strip_tail\<close> works on the reversed text and removes the
  separators and \<open>.\<close> components it ends in, except the root and a leading \<open>.\<close>.
\<close>

fun strip_tail :: "string \<Rightarrow> string" where
  "strip_tail (a # b # r) =
     (if a = CHR ''/'' then strip_tail (b # r)
      else if a = CHR ''.'' \<and> b = CHR ''/'' then strip_tail (b # r)
      else a # b # r)"
| "strip_tail r = r"

definition path_parent :: "string \<Rightarrow> string option" where
  "path_parent p =
     (let r = strip_tail (rev p)
      in if r = [] \<or> r = ''/'' then None
         else Some (rev (strip_tail (dropWhile (\<lambda>c. c \<noteq> CHR ''/'') r))))"

text \<open>\<open>extension\<close>: what follows the last dot of the file name, unless that dot comes first.\<close>

definition path_extension :: "string \<Rightarrow> string option" where
  "path_extension p =
     (case file_name p of
        None \<Rightarrow> None
      | Some f \<Rightarrow>
          (case rfind_char (CHR ''.'') f of
             None \<Rightarrow> None
           | Some i \<Rightarrow> if i = 0 then None else Some (drop (Suc i) f)))"

text \<open>\<open>join\<close> with a relative path.\<close>

definition path_join :: "string \<Rightarrow> string \<Rightarrow> string" where
  "path_join dir p = (if dir = [] \<or> last dir = CHR ''/'' then dir @ p else dir @ ''/'' @ p)"

lemmas [std_eval] = path_components_def file_name_def path_parent_def

text \<open>A normal component: not empty, not \<open>.\<close> or \<open>..\<close>, and without a separator.\<close>

definition normal_component :: "string \<Rightarrow> bool" where
  "normal_component c \<longleftrightarrow> c \<noteq> [] \<and> c \<noteq> ''.'' \<and> c \<noteq> ''..'' \<and> CHR ''/'' \<notin> set c"

lemma split_on_snoc: "c \<notin> set t \<Longrightarrow> split_on c (s @ c # t) = split_on c s @ [t]"
  by (induction s) (auto simp: split_on_id split: list.splits)

lemma file_name_last: "normal_component c \<Longrightarrow> file_name (d @ CHR ''/'' # c) = Some c"
  by (simp add: normal_component_def file_name_def path_components_def split_on_snoc)

lemma file_name_single: "normal_component c \<Longrightarrow> file_name c = Some c"
  by (simp add: normal_component_def file_name_def path_components_def split_on_id)

lemma file_name_normal: "file_name p = Some c \<Longrightarrow> normal_component c"
proof -
  assume "file_name p = Some c"
  then have "c \<in> set (path_components p)" "c \<noteq> ''..''"
    by (auto simp: file_name_def Let_def split: if_splits)
  then show ?thesis
    by (auto simp: path_components_def normal_component_def dest: split_on_no_sep)
qed

end
