(* ===== verification/Config.thy ===== *)
theory Config
  imports Rust_Path
begin

text \<open>
  \<open>config.rs\<close>: the agent's configuration, the defaults a YAML file may leave out, the
  normalisation of empty lists, and the start-up validation. Reading and parsing the file is
  the caller's; the file system is an argument: its tests and \<open>create_dir_all\<close> over a state of
  any type.
\<close>

datatype sink_config = SC_Stdout | SC_Ndjson string | SC_Grpc string

record triage_config =
  tc_enabled :: bool
  tc_api_key_env :: string
  tc_model :: string
  tc_max_tokens :: u32

record rate_limit_config =
  rlc_max_alerts :: u32
  rlc_window_secs :: u64

record suppression_config =
  sup_default :: rate_limit_config
  sup_rules :: "string \<rightharpoonup> rate_limit_config"

record metrics_config =
  mc_enabled :: bool
  mc_listen :: string

record k8s_config =
  kc_enabled :: bool
  kc_cri_socket :: string
  kc_cache_ttl_secs :: u64

record config =
  cfg_rules_dir :: string
  cfg_sigma_dir :: "string option"
  cfg_monitored_paths :: "string list"
  cfg_sinks :: "sink_config list"
  cfg_triage :: triage_config
  cfg_host :: string
  cfg_suppression :: suppression_config
  cfg_metrics :: metrics_config
  cfg_k8s :: k8s_config

subsection \<open>Defaults\<close>

definition default_rules_dir :: string where "default_rules_dir = ''rules''"
definition default_api_key_env :: string where "default_api_key_env = ''ANTHROPIC_API_KEY''"
definition default_model :: string where "default_model = ''claude-sonnet-4-20250514''"
definition default_max_tokens :: u32 where "default_max_tokens = 1024"
definition default_max_alerts :: u32 where "default_max_alerts = 10"
definition default_window_secs :: u64 where "default_window_secs = 60"
definition default_metrics_listen :: string where "default_metrics_listen = ''0.0.0.0:9090''"
definition default_cri_socket :: string where
  "default_cri_socket = ''/run/containerd/containerd.sock''"
definition default_cache_ttl :: u64 where "default_cache_ttl = 30"

text \<open>\<open>hostname()\<close>: the trimmed content of \<open>/etc/hostname\<close>, if it can be read.\<close>

definition hostname :: "string option \<Rightarrow> string" where
  "hostname etc_hostname =
     (case etc_hostname of Some s \<Rightarrow> trim s | None \<Rightarrow> ''localhost'')"

definition rate_limit_config_default :: rate_limit_config where
  "rate_limit_config_default =
     \<lparr>rlc_max_alerts = default_max_alerts, rlc_window_secs = default_window_secs\<rparr>"

definition suppression_config_default :: suppression_config where
  "suppression_config_default =
     \<lparr>sup_default = rate_limit_config_default, sup_rules = Map.empty\<rparr>"

definition metrics_config_default :: metrics_config where
  "metrics_config_default = \<lparr>mc_enabled = False, mc_listen = default_metrics_listen\<rparr>"

definition k8s_config_default :: k8s_config where
  "k8s_config_default =
     \<lparr>kc_enabled = False, kc_cri_socket = default_cri_socket,
      kc_cache_ttl_secs = default_cache_ttl\<rparr>"

definition triage_config_default :: triage_config where
  "triage_config_default =
     \<lparr>tc_enabled = False, tc_api_key_env = default_api_key_env,
      tc_model = default_model, tc_max_tokens = default_max_tokens\<rparr>"

definition config_default :: "string option \<Rightarrow> config" where
  "config_default etc_hostname =
     \<lparr>cfg_rules_dir = default_rules_dir,
      cfg_sigma_dir = Some ''sigma'',
      cfg_monitored_paths = [''/etc/passwd'', ''/etc/shadow'', ''/etc/sudoers''],
      cfg_sinks = [SC_Stdout],
      cfg_triage = triage_config_default,
      cfg_host = hostname etc_hostname,
      cfg_suppression = suppression_config_default,
      cfg_metrics = metrics_config_default,
      cfg_k8s = k8s_config_default\<rparr>"

subsection \<open>Normalisation and validation\<close>

definition normalize :: "string option \<Rightarrow> config \<Rightarrow> config" where
  "normalize etc_hostname c =
     (let c1 = (if cfg_sinks c = [] then c\<lparr>cfg_sinks := cfg_sinks c @ [SC_Stdout]\<rparr> else c)
      in if cfg_monitored_paths c1 = []
         then c1\<lparr>cfg_monitored_paths := cfg_monitored_paths (config_default etc_hostname)\<rparr>
         else c1)"

datatype config_error =
    Read_Config string
  | Parse_Config
  | Rules_Dir_Missing string
  | Create_Parent string
  | Empty_Grpc_Endpoint

record 'w fs_ops =
  fs_is_dir :: "'w \<Rightarrow> string \<Rightarrow> bool"
  fs_exists :: "'w \<Rightarrow> string \<Rightarrow> bool"
  fs_create_dir_all :: "'w \<Rightarrow> string \<Rightarrow> bool \<times> 'w"

text \<open>One round of the loop over the sinks.\<close>

definition validate_sink :: "'w fs_ops \<Rightarrow> 'w \<Rightarrow> sink_config \<Rightarrow> config_error option \<times> 'w" where
  "validate_sink fs w sink =
     (case sink of
        SC_Stdout \<Rightarrow> (None, w)
      | SC_Ndjson path \<Rightarrow>
          (case path_parent path of
             None \<Rightarrow> (None, w)
           | Some parent \<Rightarrow>
               if parent \<noteq> [] \<and> \<not> fs_exists fs w parent then
                 (case fs_create_dir_all fs w parent of
                    (ok, w') \<Rightarrow> (if ok then None else Some (Create_Parent parent), w'))
               else (None, w))
      | SC_Grpc endpoint \<Rightarrow> (if endpoint = [] then Some Empty_Grpc_Endpoint else None, w))"

fun validate_sinks :: "'w fs_ops \<Rightarrow> 'w \<Rightarrow> sink_config list \<Rightarrow> config_error option \<times> 'w" where
  "validate_sinks fs w [] = (None, w)"
| "validate_sinks fs w (s # ss) =
     (case validate_sink fs w s of
        (Some e, w') \<Rightarrow> (Some e, w')
      | (None, w') \<Rightarrow> validate_sinks fs w' ss)"

definition validate :: "'w fs_ops \<Rightarrow> 'w \<Rightarrow> config \<Rightarrow> config_error option \<times> 'w" where
  "validate fs w c =
     (if \<not> fs_is_dir fs w (cfg_rules_dir c) then (Some (Rules_Dir_Missing (cfg_rules_dir c)), w)
      else validate_sinks fs w (cfg_sinks c))"

text \<open>
  \<open>Config::load\<close>; \<open>read_file\<close> is \<open>std::fs::read_to_string\<close> and \<open>from_yaml\<close> the YAML parser.
\<close>

definition load_config ::
  "(string \<Rightarrow> string option) \<Rightarrow> (string \<Rightarrow> config option) \<Rightarrow> string option \<Rightarrow> string \<Rightarrow>
   config_error + config" where
  "load_config read_file from_yaml etc_hostname path =
     (case read_file path of
        None \<Rightarrow> Inl (Read_Config path)
      | Some raw \<Rightarrow>
          (case from_yaml raw of
             None \<Rightarrow> Inl Parse_Config
           | Some cfg \<Rightarrow> Inr (normalize etc_hostname cfg)))"

lemma normalize_nonempty:
  "cfg_sinks (normalize h c) \<noteq> []" "cfg_monitored_paths (normalize h c) \<noteq> []"
  by (simp_all add: normalize_def config_default_def Let_def)

text \<open>Normalisation leaves at least one sink and one monitored path, keeps lists that are
  already filled, touches no other field, and does nothing a second time (the configuration is
  normalised both when the file is loaded and again in \<open>main\<close>).\<close>

theorem normalize_correct:
  "cfg_sinks (normalize h c) = (if cfg_sinks c = [] then [SC_Stdout] else cfg_sinks c) \<and>
   cfg_monitored_paths (normalize h c) =
     (if cfg_monitored_paths c = [] then [''/etc/passwd'', ''/etc/shadow'', ''/etc/sudoers'']
      else cfg_monitored_paths c) \<and>
   (normalize h c)\<lparr>cfg_sinks := ss, cfg_monitored_paths := ps\<rparr> =
     c\<lparr>cfg_sinks := ss, cfg_monitored_paths := ps\<rparr> \<and>
   normalize h' (normalize h c) = normalize h c"
  by (simp add: normalize_def config_default_def Let_def)

text \<open>
  What the validation relies on from the file system: a directory that \<open>create_dir_all\<close>
  reports as created exists afterwards, and creating one removes none.
\<close>

locale file_system =
  fixes fs :: "'w fs_ops"
  assumes created_exists: "fs_create_dir_all fs w p = (True, w') \<Longrightarrow> fs_exists fs w' p"
    and exists_kept: "fs_create_dir_all fs w p = (ok, w') \<Longrightarrow> fs_exists fs w q \<Longrightarrow> fs_exists fs w' q"
begin

lemma validate_sink_keeps:
  "validate_sink fs w s = (r, w') \<Longrightarrow> fs_exists fs w q \<Longrightarrow> fs_exists fs w' q"
  by (auto simp: validate_sink_def dest: exists_kept
      split: sink_config.splits option.splits if_splits prod.splits)

lemma validate_sinks_keeps:
  "validate_sinks fs w ss = (r, w') \<Longrightarrow> fs_exists fs w q \<Longrightarrow> fs_exists fs w' q"
  by (induction ss arbitrary: w)
    (auto split: prod.splits option.splits dest: validate_sink_keeps)

lemma validate_sink_parent:
  "validate_sink fs w (SC_Ndjson path) = (None, w') \<Longrightarrow> path_parent path = Some parent \<Longrightarrow>
   parent \<noteq> [] \<Longrightarrow> fs_exists fs w' parent"
  by (auto simp: validate_sink_def dest: created_exists split: if_splits prod.splits)

lemma validate_sinks_parents:
  assumes "validate_sinks fs w ss = (None, w')" "SC_Ndjson path \<in> set ss"
    "path_parent path = Some parent" "parent \<noteq> []"
  shows "fs_exists fs w' parent"
  using assms(1,2)
proof (induction ss arbitrary: w)
  case Nil
  then show ?case by simp
next
  case (Cons s ss)
  from Cons.prems(1) obtain w1 where s: "validate_sink fs w s = (None, w1)"
    and ss: "validate_sinks fs w1 ss = (None, w')"
    by (auto split: prod.splits option.splits)
  show ?case
  proof (cases "SC_Ndjson path = s")
    case True
    with s have "fs_exists fs w1 parent"
      using validate_sink_parent assms(3,4) by blast
    with ss show ?thesis by (rule validate_sinks_keeps)
  next
    case False
    with Cons.prems(2) show ?thesis by (auto intro: Cons.IH ss)
  qed
qed

end

text \<open>A file system that holds a set of directories and can create any of them.\<close>

definition dir_set_fs :: "string set fs_ops" where
  "dir_set_fs =
     \<lparr>fs_is_dir = (\<lambda>w p. p \<in> w), fs_exists = (\<lambda>w p. p \<in> w),
      fs_create_dir_all = (\<lambda>w p. (True, insert p w))\<rparr>"

interpretation dir_fs: file_system dir_set_fs
  by unfold_locales (auto simp: dir_set_fs_def)

lemma validate_sinks_Ok:
  "validate_sinks fs w ss = (None, w') \<Longrightarrow> SC_Grpc [] \<notin> set ss"
  by (induction ss arbitrary: w)
    (auto simp: validate_sink_def split: prod.splits option.splits sink_config.splits if_splits)

text \<open>A configuration that passes validation has an existing rules directory, no gRPC sink
  with an empty endpoint, and, once validation returns, an existing parent directory for the
  file of every NDJSON sink.\<close>

theorem validate_Ok:
  assumes "file_system fs" "validate fs w c = (None, w')"
  shows "fs_is_dir fs w (cfg_rules_dir c) \<and> SC_Grpc [] \<notin> set (cfg_sinks c) \<and>
    (\<forall>path parent. SC_Ndjson path \<in> set (cfg_sinks c) \<longrightarrow> path_parent path = Some parent \<longrightarrow>
       parent \<noteq> [] \<longrightarrow> fs_exists fs w' parent)"
proof -
  from assms(2) have dir: "fs_is_dir fs w (cfg_rules_dir c)"
    and ss: "validate_sinks fs w (cfg_sinks c) = (None, w')"
    by (auto simp: validate_def split: if_splits)
  show ?thesis
    using dir validate_sinks_Ok [OF ss] file_system.validate_sinks_parents [OF assms(1) ss] by blast
qed

definition example_config :: config where
  "example_config =
     (config_default None)\<lparr>cfg_sinks := [SC_Stdout, SC_Ndjson ''/tmp/sentinel/events.ndjson'']\<rparr>"

theorem validate_Ok_witness:
  "fs_exists dir_set_fs {''/tmp/sentinel'', ''rules''} ''/tmp/sentinel'' \<and>
   validate dir_set_fs {''rules''} example_config = (None, {''/tmp/sentinel'', ''rules''})"
proof -
  have par: "path_parent ''/tmp/sentinel/events.ndjson'' = Some ''/tmp/sentinel''"
    by (simp add: path_parent_def)
  then have v: "validate dir_set_fs {''rules''} example_config = (None, {''/tmp/sentinel'', ''rules''})"
    by (simp add: validate_def validate_sink_def dir_set_fs_def example_config_def
        config_default_def default_rules_dir_def)
  from validate_Ok [OF dir_fs.file_system_axioms v] par v show ?thesis
    by (auto simp: example_config_def)
qed

end
