(* ===== verification/K8s.thy ===== *)
theory K8s
  imports Config
begin

text \<open>
  \<open>k8s.rs\<close>: the container metadata cache. The container id of a process is taken from its
  cgroup file by five regular expressions; the cache maps container ids to pod metadata and is
  replaced as a whole by each refresh from the CRI service.

  The regular expression engine is an argument, \<open>captures pattern text\<close>: \<open>None\<close> when there is
  no match, else the first capture group. The locale \<open>cgroup_regex\<close> states what the patterns of
  the source mean, and a matcher for exactly these patterns interprets it.
\<close>

record container_meta =
  cm_container_id :: string
  cm_pod_name :: string
  cm_pod_namespace :: string
  cm_pod_image :: string
  cm_pod_uid :: string

record k8s_cache =
  kc_inner :: "string \<rightharpoonup> container_meta"
  kc_poisoned :: bool
  kc_config :: k8s_config

definition new_k8s_cache :: "k8s_config \<Rightarrow> k8s_cache" where
  "new_k8s_cache cfg = \<lparr>kc_inner = Map.empty, kc_poisoned = False, kc_config = cfg\<rparr>"

subsection \<open>Container ids in cgroup data\<close>

type_synonym captures = "string \<Rightarrow> string \<Rightarrow> string option option"

definition pat_containerd_64 :: string where "pat_containerd_64 = ''cri-containerd-([a-f0-9]{64})''"
definition pat_containerd_12 :: string where "pat_containerd_12 = ''cri-containerd-([a-f0-9]{12,63})''"
definition pat_crio :: string where "pat_crio = ''crio-([a-f0-9]{64})''"
definition pat_docker :: string where "pat_docker = ''docker-([a-f0-9]{64})''"
definition pat_scope :: string where
  "pat_scope = ''/([a-f0-9]{64})'' @ [CHR 0x5C] @ ''.scope''"

definition cgroup_patterns :: "string list" where
  "cgroup_patterns = [pat_containerd_64, pat_containerd_12, pat_crio, pat_docker, pat_scope]"

text \<open>The two nested loops, which return at the first match.\<close>

fun first_capture :: "captures \<Rightarrow> string list \<Rightarrow> string \<Rightarrow> string option option" where
  "first_capture captures [] line = None"
| "first_capture captures (p # ps) line =
     (case captures p line of Some g \<Rightarrow> Some g | None \<Rightarrow> first_capture captures ps line)"

fun scan_lines :: "captures \<Rightarrow> string list \<Rightarrow> string option" where
  "scan_lines captures [] = None"
| "scan_lines captures (l # ls) =
     (case first_capture captures cgroup_patterns l of
        Some g \<Rightarrow> g
      | None \<Rightarrow> scan_lines captures ls)"

definition container_id_from_cgroup :: "captures \<Rightarrow> string \<Rightarrow> string option" where
  "container_id_from_cgroup captures cgroup_data = scan_lines captures (lines cgroup_data)"

text \<open>\<open>read_cgroup pid\<close> is the content of \<open>/proc/<pid>/cgroup\<close>, if it can be read.\<close>

definition container_id_from_pid ::
  "captures \<Rightarrow> (u32 \<Rightarrow> string option) \<Rightarrow> u32 \<Rightarrow> string option" where
  "container_id_from_pid captures read_cgroup pid =
     (case read_cgroup pid of
        None \<Rightarrow> None
      | Some contents \<Rightarrow> container_id_from_cgroup captures contents)"

definition lookup_by_container_id :: "k8s_cache \<Rightarrow> string \<Rightarrow> container_meta option" where
  "lookup_by_container_id cache container_id =
     (if kc_poisoned cache then None else kc_inner cache container_id)"

definition lookup_by_pid ::
  "captures \<Rightarrow> (u32 \<Rightarrow> string option) \<Rightarrow> k8s_cache \<Rightarrow> u32 \<Rightarrow> container_meta option" where
  "lookup_by_pid captures read_cgroup cache pid =
     (case container_id_from_pid captures read_cgroup pid of
        None \<Rightarrow> None
      | Some container_id \<Rightarrow> lookup_by_container_id cache container_id)"

subsection \<open>What the patterns match\<close>

definition hex_char :: "char \<Rightarrow> bool" where
  "hex_char c \<longleftrightarrow> 48 \<le> code c \<and> code c \<le> 57 \<or> 97 \<le> code c \<and> code c \<le> 102"

text \<open>
  A pattern is a literal, a group of between \<open>lo\<close> and \<open>hi\<close> hexadecimal digits, and a literal
  after it.
\<close>

definition pattern_shape :: "string \<Rightarrow> (string \<times> nat \<times> nat \<times> string) option" where
  "pattern_shape p =
     (if p = pat_containerd_64 then Some (''cri-containerd-'', 64, 64, [])
      else if p = pat_containerd_12 then Some (''cri-containerd-'', 12, 63, [])
      else if p = pat_crio then Some (''crio-'', 64, 64, [])
      else if p = pat_docker then Some (''docker-'', 64, 64, [])
      else if p = pat_scope then Some (''/'', 64, 64, ''.scope'')
      else None)"

definition hex_match :: "string \<times> nat \<times> nat \<times> string \<Rightarrow> string \<Rightarrow> string \<Rightarrow> bool" where
  "hex_match sh h line =
     (case sh of (lit, lo, hi, suf) \<Rightarrow>
        list_all hex_char h \<and> lo \<le> length h \<and> length h \<le> hi \<and> sublist (lit @ h @ suf) line)"

text \<open>\<open>h\<close> stands in the line as one of the given patterns says.\<close>

definition pattern_hit :: "string list \<Rightarrow> string \<Rightarrow> string \<Rightarrow> bool" where
  "pattern_hit ps h line \<longleftrightarrow> (\<exists>p \<in> set ps. \<exists>sh. pattern_shape p = Some sh \<and> hex_match sh h line)"

lemma pattern_hit_simps [simp]:
  "\<not> pattern_hit [] h line"
  "pattern_hit (p # ps) h line \<longleftrightarrow>
     (\<exists>sh. pattern_shape p = Some sh \<and> hex_match sh h line) \<or> pattern_hit ps h line"
  by (auto simp: pattern_hit_def)

locale cgroup_regex =
  fixes captures :: captures
  assumes sound: "pattern_shape p = Some sh \<Longrightarrow> captures p line = Some g \<Longrightarrow>
      \<exists>h. g = Some h \<and> hex_match sh h line"
    and complete: "pattern_shape p = Some sh \<Longrightarrow> captures p line = None \<Longrightarrow> \<not> hex_match sh h line"
begin

lemma first_capture_correct:
  "\<forall>p \<in> set ps. pattern_shape p \<noteq> None \<Longrightarrow>
   case first_capture captures ps line of
     Some g \<Rightarrow> \<exists>h. g = Some h \<and> pattern_hit ps h line
   | None \<Rightarrow> \<forall>h. \<not> pattern_hit ps h line"
proof (induction ps)
  case Nil
  show ?case by simp
next
  case (Cons p ps)
  then obtain sh where sh: "pattern_shape p = Some sh" by auto
  show ?case
  proof (cases "captures p line")
    case None
    then show ?thesis using Cons complete [OF sh None] by (auto simp: sh split: option.splits)
  next
    case (Some g)
    then show ?thesis using sound [OF sh Some] sh by auto
  qed
qed

lemma shapes: "\<forall>p \<in> set cgroup_patterns. pattern_shape p \<noteq> None"
  by (simp add: cgroup_patterns_def pattern_shape_def)

lemma scan_lines_correct:
  "case scan_lines captures ls of
     Some h \<Rightarrow> \<exists>l \<in> set ls. pattern_hit cgroup_patterns h l
   | None \<Rightarrow> \<forall>l \<in> set ls. \<forall>h. \<not> pattern_hit cgroup_patterns h l"
proof (induction ls)
  case Nil
  show ?case by simp
next
  case (Cons l ls)
  then show ?case
    using first_capture_correct [OF shapes, of l]
    by (auto split: option.splits)
qed

end

text \<open>
  A matcher for patterns of this shape: at each position from the left, the literal, then as many
  digits as the bound allows.
\<close>

definition hex_here :: "string \<times> nat \<times> nat \<times> string \<Rightarrow> string \<Rightarrow> string option" where
  "hex_here sh line =
     (case sh of (lit, lo, hi, suf) \<Rightarrow>
        if prefix lit line then
          (let rest = drop (length lit) line; h = take hi (takeWhile hex_char rest)
           in if lo \<le> length h \<and> prefix suf (drop (length h) rest) then Some h else None)
        else None)"

fun hex_capture :: "string \<times> nat \<times> nat \<times> string \<Rightarrow> string \<Rightarrow> string option" where
  "hex_capture sh [] = hex_here sh []"
| "hex_capture sh (c # line) =
     (case hex_here sh (c # line) of Some h \<Rightarrow> Some h | None \<Rightarrow> hex_capture sh line)"

definition hex_captures :: captures where
  "hex_captures p line =
     (case pattern_shape p of None \<Rightarrow> None | Some sh \<Rightarrow> map_option Some (hex_capture sh line))"

lemma hex_here_sound: "hex_here sh line = Some h \<Longrightarrow> hex_match sh h line"
proof -
  obtain lit lo hi suf where sh: "sh = (lit, lo, hi, suf)" by (cases sh)
  assume "hex_here sh line = Some h"
  then obtain rest where rest: "line = lit @ rest" and h: "h = take hi (takeWhile hex_char rest)"
    and lo: "lo \<le> length h" and suf: "prefix suf (drop (length h) rest)"
    by (auto simp: hex_here_def sh Let_def prefix_def split: if_splits)
  have "prefix h rest"
    using h by (meson take_is_prefix takeWhile_is_prefix prefix_order.trans)
  then have "rest = h @ drop (length h) rest" by (auto simp: prefix_def)
  with suf obtain b where "line = lit @ h @ suf @ b"
    using rest by (metis prefix_def)
  moreover have "list_all hex_char h"
    using h by (auto simp: list_all_iff dest!: in_set_takeD set_takeWhileD)
  moreover have "length h \<le> hi" using h by simp
  ultimately show ?thesis using lo by (auto simp: hex_match_def sh sublist_def)
qed

lemma hex_here_complete:
  assumes "list_all hex_char h" "lo \<le> length h" "length h \<le> hi" "lo = hi \<or> suf = []"
  shows "hex_here (lit, lo, hi, suf) (lit @ h @ suf @ b) \<noteq> None"
proof -
  let ?h = "take hi (takeWhile hex_char (h @ suf @ b))"
  have tw: "takeWhile hex_char (h @ x) = h @ takeWhile hex_char x" for x
    using assms(1) by (simp add: takeWhile_append list_all_iff)
  have lo: "lo \<le> length ?h"
    using assms(2,3) by (simp add: tw)
  have suf: "prefix suf (drop (length ?h) (h @ suf @ b))"
  proof (cases "suf = []")
    case False
    with assms have "?h = h" by (simp add: tw)
    then show ?thesis by simp
  qed simp
  show ?thesis
    using lo suf by (simp add: hex_here_def Let_def del: length_take)
qed

lemma hex_match_Cons: "hex_match sh h line \<Longrightarrow> hex_match sh h (c # line)"
  by (auto simp: hex_match_def sublist_Cons_right split: prod.splits)

lemma hex_capture_sound: "hex_capture sh line = Some h \<Longrightarrow> hex_match sh h line"
  by (induction line) (auto dest: hex_here_sound intro: hex_match_Cons split: option.splits)

lemma hex_capture_complete:
  assumes "lo = hi \<or> suf = []"
  shows "hex_capture (lit, lo, hi, suf) line = None \<Longrightarrow> \<not> hex_match (lit, lo, hi, suf) h line"
proof (induction line)
  case Nil
  then show ?case
    using hex_here_complete [of h lo hi suf lit "[]"] assms by (auto simp: hex_match_def)
next
  case (Cons c line)
  from Cons.prems have here: "hex_here (lit, lo, hi, suf) (c # line) = None"
    and rest: "hex_capture (lit, lo, hi, suf) line = None" by (auto split: option.splits)
  have "\<not> prefix (lit @ h @ suf) (c # line)"
    if "list_all hex_char h" "lo \<le> length h" "length h \<le> hi"
  proof
    assume "prefix (lit @ h @ suf) (c # line)"
    then obtain b where "c # line = lit @ h @ suf @ b" by (auto simp: prefix_def)
    with hex_here_complete [OF that assms, of lit b] here show False by simp
  qed
  with Cons.IH [OF rest] show ?case
    by (auto simp: hex_match_def sublist_Cons_right)
qed

interpretation hex_regex: cgroup_regex hex_captures
proof
  fix p sh line g
  assume "pattern_shape p = Some sh" "hex_captures p line = Some g"
  then show "\<exists>h. g = Some h \<and> hex_match sh h line"
    by (auto simp: hex_captures_def dest: hex_capture_sound)
next
  fix p sh line h
  assume p: "pattern_shape p = Some sh" and "hex_captures p line = None"
  then have n: "hex_capture sh line = None" by (simp add: hex_captures_def)
  obtain lit lo hi suf where sh: "sh = (lit, lo, hi, suf)" by (cases sh)
  have "lo = hi \<or> suf = []"
    using p unfolding sh pattern_shape_def by (auto split: if_splits)
  with n show "\<not> hex_match sh h line"
    unfolding sh by (rule hex_capture_complete [rotated])
qed

lemma pattern_shape_bounds:
  "pattern_shape p = Some (lit, lo, hi, suf) \<Longrightarrow> 12 \<le> lo \<and> hi \<le> 64"
  by (auto simp: pattern_shape_def split: if_splits)

text \<open>C29: For any engine that gives the five patterns their meaning: a container id taken from a
  cgroup file is 12 to 64 lower-case hexadecimal digits and stands in one of the file's lines
  as one of the patterns says; and when none is found, no line matches any of the patterns.\<close>

theorem container_id_from_cgroup_correct:
  assumes "cgroup_regex captures"
  shows "case container_id_from_cgroup captures data of
      Some h \<Rightarrow> list_all hex_char h \<and> 12 \<le> length h \<and> length h \<le> 64 \<and>
        (\<exists>l \<in> set (lines data). pattern_hit cgroup_patterns h l)
    | None \<Rightarrow> \<forall>l \<in> set (lines data). \<forall>h. \<not> pattern_hit cgroup_patterns h l"
proof -
  have "list_all hex_char h \<and> 12 \<le> length h \<and> length h \<le> 64"
    if "pattern_hit cgroup_patterns h l" for h l
    using that pattern_shape_bounds unfolding pattern_hit_def hex_match_def
    by (fastforce split: prod.splits)
  then show ?thesis
    using cgroup_regex.scan_lines_correct [OF assms, of "lines data"]
    unfolding container_id_from_cgroup_def [symmetric] by (auto split: option.splits)
qed

definition cgroup_sample :: string where
  "cgroup_sample = ''12:memory:/crio-'' @ concat (replicate 16 ''a1b2'') @ [CHR 0x0A]"

theorem container_id_from_cgroup_correct_witness:
  "container_id_from_cgroup hex_captures cgroup_sample = Some (concat (replicate 16 ''a1b2'')) \<and>
   length (concat (replicate 16 ''a1b2'')) \<le> 64"
proof -
  have r: "container_id_from_cgroup hex_captures cgroup_sample = Some (concat (replicate 16 ''a1b2''))"
    by code_simp
  from container_id_from_cgroup_correct [OF hex_regex.cgroup_regex_axioms, of cgroup_sample] r
  show ?thesis by simp
qed

subsection \<open>Refresh from the CRI service\<close>

text \<open>The parts of the CRI answers that the source reads.\<close>

record pod_sandbox =
  sb_id :: string
  sb_metadata :: "(string \<times> string \<times> string) option"

record cri_container =
  ct_id :: string
  ct_pod_sandbox_id :: string
  ct_image :: "string option"
  ct_image_ref :: string

record cri_client =
  cri_list_pod_sandbox :: "pod_sandbox list option"
  cri_list_containers :: "cri_container list option"

datatype cri_error = Cri_Connect | Cri_List_Sandboxes | Cri_List_Containers

definition sandbox_step ::
  "(string \<rightharpoonup> string \<times> string \<times> string) \<Rightarrow> pod_sandbox \<Rightarrow> (string \<rightharpoonup> string \<times> string \<times> string)" where
  "sandbox_step m sb =
     (case sb_metadata sb of Some meta \<Rightarrow> m(sb_id sb \<mapsto> meta) | None \<Rightarrow> m)"

definition short_id :: "cri_container \<Rightarrow> string" where
  "short_id c =
     (case strip_prefix ''containerd://'' (ct_id c) of Some s \<Rightarrow> s | None \<Rightarrow> ct_id c)"

definition meta_of :: "(string \<rightharpoonup> string \<times> string \<times> string) \<Rightarrow> cri_container \<Rightarrow> container_meta" where
  "meta_of sandbox_meta c =
     (case (case sandbox_meta (ct_pod_sandbox_id c) of Some t \<Rightarrow> t | None \<Rightarrow> ([], [], [])) of
        (pod_name, pod_namespace, pod_uid) \<Rightarrow>
          \<lparr>cm_container_id = short_id c,
           cm_pod_name = pod_name,
           cm_pod_namespace = pod_namespace,
           cm_pod_image =
             (case ct_image c of
                Some img \<Rightarrow> if img \<noteq> [] then img else ct_image_ref c
              | None \<Rightarrow> ct_image_ref c),
           cm_pod_uid = pod_uid\<rparr>)"

definition container_step ::
  "(string \<rightharpoonup> string \<times> string \<times> string) \<Rightarrow> (string \<rightharpoonup> container_meta) \<Rightarrow> cri_container \<Rightarrow>
   (string \<rightharpoonup> container_meta)" where
  "container_step sandbox_meta m c =
     (let meta = meta_of sandbox_meta c; m' = m(short_id c \<mapsto> meta)
      in if ct_id c \<noteq> [] then m'(ct_id c \<mapsto> meta) else m')"

definition sandbox_map :: "pod_sandbox list \<Rightarrow> (string \<rightharpoonup> string \<times> string \<times> string)" where
  "sandbox_map sandboxes = foldl sandbox_step Map.empty sandboxes"

definition container_map :: "pod_sandbox list \<Rightarrow> cri_container list \<Rightarrow> (string \<rightharpoonup> container_meta)" where
  "container_map sandboxes containers =
     foldl (container_step (sandbox_map sandboxes)) Map.empty containers"

text \<open>\<open>connect\<close> is the attempt to connect to the CRI socket: it must exist, and dialling it succeed.\<close>

definition connect_cri :: "(string \<Rightarrow> bool) \<Rightarrow> (string \<Rightarrow> cri_client option) \<Rightarrow> string \<Rightarrow> cri_client option" where
  "connect_cri exists dial socket_path = (if exists socket_path then dial socket_path else None)"

definition refresh_once :: "cri_client option \<Rightarrow> k8s_cache \<Rightarrow> (cri_error + unit) \<times> k8s_cache" where
  "refresh_once connect cache =
     (case connect of
        None \<Rightarrow> (Inl Cri_Connect, cache)
      | Some client \<Rightarrow>
          (case cri_list_pod_sandbox client of
             None \<Rightarrow> (Inl Cri_List_Sandboxes, cache)
           | Some sandboxes \<Rightarrow>
               (case cri_list_containers client of
                  None \<Rightarrow> (Inl Cri_List_Containers, cache)
                | Some containers \<Rightarrow>
                    (Inr (), if kc_poisoned cache then cache
                             else cache\<lparr>kc_inner := container_map sandboxes containers\<rparr>))))"

text \<open>The pause of \<open>refresh_loop\<close> between two refreshes, and one round of the loop.\<close>

definition refresh_ttl :: "k8s_cache \<Rightarrow> u64" where
  "refresh_ttl cache = max (kc_cache_ttl_secs (kc_config cache)) 5"

definition refresh_round :: "k8s_cache \<Rightarrow> cri_client option \<Rightarrow> k8s_cache" where
  "refresh_round cache connect = snd (refresh_once connect cache)"

lemma refresh_without_socket:
  "\<not> exists (kc_cri_socket (kc_config cache)) \<Longrightarrow>
   refresh_once (connect_cri exists dial (kc_cri_socket (kc_config cache))) cache = (Inl Cri_Connect, cache)"
  by (simp add: connect_cri_def refresh_once_def)

text \<open>A later container overwrites an earlier one on the ids they share.\<close>

definition ids_of :: "cri_container \<Rightarrow> string set" where
  "ids_of c = insert (short_id c) (if ct_id c = [] then {} else {ct_id c})"

lemma container_step_apply:
  "container_step sm m c k = (if k \<in> ids_of c then Some (meta_of sm c) else m k)"
  by (simp add: container_step_def ids_of_def Let_def)

lemma foldl_container_step:
  "foldl (container_step sm) m cs k =
     (case find (\<lambda>c. k \<in> ids_of c) (rev cs) of Some c \<Rightarrow> Some (meta_of sm c) | None \<Rightarrow> m k)"
  by (induction cs rule: rev_induct) (auto simp: container_step_apply)

lemma find_unique:
  assumes "x \<in> set xs" "P x" "\<forall>y \<in> set xs. P y \<longrightarrow> y = x"
  shows "find P xs = Some x"
proof (cases "find P xs")
  case None
  with assms(1,2) show ?thesis unfolding find_None_iff by blast
next
  case (Some y)
  then have "y \<in> set xs" "P y" unfolding find_Some_iff by auto
  with assms(3) Some show ?thesis by blast
qed

lemma refresh_failure: "refresh_once connect cache = (Inl e, cache') \<Longrightarrow> cache' = cache"
  by (auto simp: refresh_once_def split: option.splits)

text \<open>C30: After a refresh that reached the CRI service, the cache holds exactly the containers
  listed: a container whose ids no other container shares is found under its id with and
  without the \<open>containerd://\<close> scheme, with the image name or else the image reference and the
  metadata of its sandbox; and an id that no listed container has is not found, whatever the
  cache held before.\<close>

theorem refresh_once_lookup:
  assumes "\<not> kc_poisoned cache" "connect = Some client"
    "cri_list_pod_sandbox client = Some sbs" "cri_list_containers client = Some cs"
    "refresh_once connect cache = (r, cache')"
  shows "r = Inr () \<and>
    (\<forall>c k. c \<in> set cs \<longrightarrow> k \<in> ids_of c \<longrightarrow> (\<forall>d \<in> set cs. k \<in> ids_of d \<longrightarrow> d = c) \<longrightarrow>
       lookup_by_container_id cache' k = Some (meta_of (sandbox_map sbs) c)) \<and>
    (\<forall>k. (\<forall>c \<in> set cs. k \<notin> ids_of c) \<longrightarrow> lookup_by_container_id cache' k = None)"
proof -
  from assms have r: "r = Inr ()" and c': "cache' = cache\<lparr>kc_inner := container_map sbs cs\<rparr>"
    by (auto simp: refresh_once_def)
  have look: "lookup_by_container_id cache' k =
      (case find (\<lambda>c. k \<in> ids_of c) (rev cs) of
         Some c \<Rightarrow> Some (meta_of (sandbox_map sbs) c) | None \<Rightarrow> None)" for k
    using assms(1)
    by (simp add: c' lookup_by_container_id_def container_map_def foldl_container_step)
  have hit: "find (\<lambda>c. k \<in> ids_of c) (rev cs) = Some c"
    if "c \<in> set cs" "k \<in> ids_of c" "\<forall>d \<in> set cs. k \<in> ids_of d \<longrightarrow> d = c" for c k
    by (rule find_unique [where xs = "rev cs", unfolded set_rev, OF that])
  have miss: "find (\<lambda>c. k \<in> ids_of c) (rev cs) = None" if "\<forall>c \<in> set cs. k \<notin> ids_of c" for k
    using that unfolding find_None_iff set_rev by blast
  show ?thesis
    by (intro conjI allI impI; (rule r)?; unfold look; (drule (2) hit | drule miss); simp only: option.case)
qed

definition cri_sample :: cri_client where
  "cri_sample =
     \<lparr>cri_list_pod_sandbox = Some [\<lparr>sb_id = ''sb'', sb_metadata = Some (''web'', ''prod'', ''u1'')\<rparr>],
      cri_list_containers =
        Some [\<lparr>ct_id = ''containerd://abc'', ct_pod_sandbox_id = ''sb'', ct_image = Some [],
               ct_image_ref = ''nginx@sha256''\<rparr>]\<rparr>"

theorem refresh_once_lookup_witness:
  "lookup_by_container_id
     (snd (refresh_once (Some cri_sample) (new_k8s_cache k8s_config_default))) ''abc'' =
   Some \<lparr>cm_container_id = ''abc'', cm_pod_name = ''web'', cm_pod_namespace = ''prod'',
         cm_pod_image = ''nginx@sha256'', cm_pod_uid = ''u1''\<rparr>"
proof -
  let ?sbs = "[\<lparr>sb_id = ''sb'', sb_metadata = Some (''web'', ''prod'', ''u1'')\<rparr>]"
  let ?c = "\<lparr>ct_id = ''containerd://abc'', ct_pod_sandbox_id = ''sb'', ct_image = Some [],
               ct_image_ref = ''nginx@sha256''\<rparr>"
  have s: "short_id ?c = ''abc''"
    by (simp add: short_id_def strip_prefix_def)
  have m: "meta_of (sandbox_map ?sbs) ?c =
      \<lparr>cm_container_id = ''abc'', cm_pod_name = ''web'', cm_pod_namespace = ''prod'',
       cm_pod_image = ''nginx@sha256'', cm_pod_uid = ''u1''\<rparr>"
    by (simp add: meta_of_def s sandbox_map_def sandbox_step_def)
  have "''abc'' \<in> ids_of ?c" by (simp add: ids_of_def s)
  moreover obtain r cache' where
    rc: "refresh_once (Some cri_sample) (new_k8s_cache k8s_config_default) = (r, cache')"
    by fastforce
  ultimately show ?thesis
    using refresh_once_lookup [of "new_k8s_cache k8s_config_default" "Some cri_sample" cri_sample
        ?sbs "[?c]" r cache'] m
    by (simp add: cri_sample_def new_k8s_cache_def)
qed

end
