(* ===== verification/Procfs.thy ===== *)
theory Procfs
  imports Rust_Str
begin

text \<open>
  Reading \<open>/proc\<close>, as both the enricher and the probe loader do at start-up: a directory listing
  whose entries may fail, the files of each process directory, and the parent pid in the
  \<open>stat\<close> file, which follows the command name in parentheses. A file that can be read is its
  text, one that cannot is \<open>None\<close>.
\<close>

record proc_entry =
  pe_name :: string
  pe_comm :: "string option"
  pe_stat :: "string option"
  pe_status :: "string option"

definition parse_u32 :: "string \<Rightarrow> u32 option" where
  "parse_u32 s = map_option word_of_nat (parse_uint (2 ^ 32) s)"

text \<open>
  \<open>parse_ppid\<close>: the second field after the last closing parenthesis and the byte behind it. The
  slice panics when the parenthesis is the last byte.
\<close>

definition parse_ppid :: "string option \<Rightarrow> u32 option outcome" where
  "parse_ppid stat_file =
     (case stat_file of
        None \<Rightarrow> Inr None
      | Some stat \<Rightarrow>
          (case rfind_char (CHR '')'') stat of
             None \<Rightarrow> Inr None
           | Some rparen \<Rightarrow>
               bind_sum (slice_from stat (rparen + 2)) (\<lambda>s.
                 let rest = split_whitespace s
                 in Inr (if 1 < length rest then parse_u32 (rest ! 1) else None))))"

lemma parse_u32_show [simp]: "parse_u32 (show_nat (unat (w :: u32))) = Some w"
proof -
  have "unat w < 2 ^ 32" by (rule less_le_trans [OF unsigned_less]) simp
  then show ?thesis by (simp add: parse_u32_def parse_show_nat)
qed

text \<open>The line the kernel writes: pid, command name in parentheses, state letter, parent pid, rest.\<close>

definition stat_line :: "u32 \<Rightarrow> string \<Rightarrow> char \<Rightarrow> u32 \<Rightarrow> string \<Rightarrow> string" where
  "stat_line pid comm state ppid rest =
     show_nat (unat pid) @ '' ('' @ comm @ '') '' @ [state] @ '' '' @ show_nat (unat ppid) @ '' '' @ rest"

text \<open>C35: \<open>parse_ppid\<close> reads the parent pid out of every line of the kernel's format, also when the
  command name holds spaces, parentheses or further digits: it looks for the last closing
  parenthesis, and the fields after the command name hold none.\<close>

theorem parse_ppid_stat_line:
  assumes "CHR '')'' \<notin> set rest" "code state < 128" "\<not> ascii_ws state" "state \<noteq> CHR '')''"
  shows "parse_ppid (Some (stat_line pid comm state ppid rest)) = Inr (Some ppid)"
proof -
  let ?tail = "state # CHR '' '' # show_nat (unat ppid) @ CHR '' '' # rest"
  define head where "head = show_nat (unat pid) @ '' ('' @ comm"
  have line: "stat_line pid comm state ppid rest = head @ CHR '')'' # CHR '' '' # ?tail"
    by (simp add: stat_line_def head_def)
  have "CHR '')'' \<notin> set (show_nat n)" for n
    using show_nat_digits [of "CHR '')''" n] by auto
  then have r: "rfind_char (CHR '')'') (stat_line pid comm state ppid rest) = Some (length head)"
    unfolding line by (intro rfind_char_append_hit) (use assms in auto)
  have "is_char_boundary (head @ CHR '')'' # CHR '' '' # ?tail) (length head + 2)"
    using assms(2) by (simp add: is_char_boundary_def nth_append is_cont_ascii)
  then have s: "slice_from (stat_line pid comm state ppid rest) (length head + 2) = Inr ?tail"
    by (simp add: line slice_from_def)
  have "split_whitespace ?tail = [state] # split_whitespace (show_nat (unat ppid) @ CHR '' '' # rest)"
    using split_whitespace_word [of "[state]" "CHR '' ''"] assms(2,3)
    by (simp add: plain_word_def)
  also have "\<dots> = [state] # show_nat (unat ppid) # split_whitespace rest"
    by (simp add: split_whitespace_word)
  finally show ?thesis
    unfolding parse_ppid_def option.case r s bind_sum.simps by simp
qed

theorem parse_ppid_stat_line_witness:
  "parse_ppid (Some (stat_line 42 ''a) R 7 (b'' (CHR ''S'') 4241 ''4242 0 -1'')) = Inr (Some 4241)"
  by (rule parse_ppid_stat_line) (simp_all add: ascii_ws_def)

end
