(* ===== verification/Enricher.thy ===== *)
theory Enricher
  imports Event K8s Procfs
begin

text \<open>
  \<open>enricher.rs\<close>: the process table of the daemon and the enrichment of raw events. The table maps
  a pid to its parent and its command name; it is seeded from \<open>/proc\<close>, updated by every event
  and cleared when it outgrows its bound. The lineage walk follows parents until the chain has
  the maximal length; a process without a command name adds nothing to the chain, so the walk is
  a loop that need not end, and \<open>None\<close> is the value of a walk that does not.
\<close>

definition MAX_PROCESSES :: nat where "MAX_PROCESSES = 32768"

record process_info =
  pi_ppid :: u32
  pi_comm :: string

type_synonym process_table = "u32 \<rightharpoonup> process_info"

record enricher =
  en_host :: string
  en_processes :: process_table
  en_max_lineage :: nat
  en_k8s :: "k8s_cache option"

subsection \<open>Seeding\<close>

text \<open>
  The loop over the entries of \<open>/proc\<close>: a failed entry ends it with an error and keeps what
  was inserted; the flag of the result tells whether the loop ran to the end.
\<close>

fun seed_entries :: "proc_entry option list \<Rightarrow> process_table \<Rightarrow> (bool \<times> process_table) outcome" where
  "seed_entries [] procs = Inr (True, procs)"
| "seed_entries (None # es) procs = Inr (False, procs)"
| "seed_entries (Some e # es) procs =
     (case parse_u32 (pe_name e) of
        None \<Rightarrow> seed_entries es procs
      | Some pid \<Rightarrow>
          bind_sum (parse_ppid (pe_stat e)) (\<lambda>p.
            let comm = trim (case pe_comm e of Some s \<Rightarrow> s | None \<Rightarrow> []);
                ppid = (case p of Some n \<Rightarrow> n | None \<Rightarrow> 0)
            in seed_entries es (procs(pid \<mapsto> \<lparr>pi_ppid = ppid, pi_comm = comm\<rparr>))))"

definition seed_from_proc :: "proc_entry option list option \<Rightarrow> enricher \<Rightarrow> (bool \<times> enricher) outcome" where
  "seed_from_proc read_dir en =
     (case read_dir of
        None \<Rightarrow> Inr (False, en)
      | Some entries \<Rightarrow>
          bind_sum (seed_entries entries (en_processes en)) (\<lambda>(ok, procs).
            Inr (ok, en\<lparr>en_processes := procs\<rparr>)))"

definition new_enricher :: "string \<Rightarrow> proc_entry option list option \<Rightarrow> enricher outcome" where
  "new_enricher host read_dir =
     bind_sum
       (seed_from_proc read_dir
          \<lparr>en_host = host, en_processes = Map.empty, en_max_lineage = 8, en_k8s = None\<rparr>)
       (\<lambda>(ok, en). Inr en)"

definition with_k8s :: "enricher \<Rightarrow> k8s_cache \<Rightarrow> enricher" where
  "with_k8s en cache = en\<lparr>en_k8s := Some cache\<rparr>"

subsection \<open>Buffers and paths as text\<close>

definition cstr_comm :: "bytes \<Rightarrow> string" where
  "cstr_comm buf = from_utf8_lossy (take (str_len buf) buf)"

definition cstr_path :: "bytes \<Rightarrow> string" where
  "cstr_path buf = from_utf8_lossy (take (str_len buf) buf)"

definition path_basename :: "string \<Rightarrow> string" where
  "path_basename path = (case file_name path of Some s \<Rightarrow> s | None \<Rightarrow> path)"

subsection \<open>The process table\<close>

definition fork_update :: "sentinel_event \<Rightarrow> process_table \<Rightarrow> process_table" where
  "fork_update raw procs =
     (let parent_comm = cstr_comm (se_comm raw);
          procs1 = procs(se_pid raw \<mapsto> \<lparr>pi_ppid = se_ppid raw, pi_comm = []\<rparr>)
      in case procs1 (se_ppid raw) of
           Some parent \<Rightarrow>
             if pi_comm parent = []
             then procs1(se_ppid raw \<mapsto> parent\<lparr>pi_comm := parent_comm\<rparr>)
             else procs1
         | None \<Rightarrow> procs1(se_ppid raw \<mapsto> \<lparr>pi_ppid = 0, pi_comm = parent_comm\<rparr>))"

definition exec_update :: "sentinel_event \<Rightarrow> process_table \<Rightarrow> process_table" where
  "exec_update raw procs =
     (let path = cstr_path (se_path raw);
          comm = (if path = [] then cstr_comm (se_comm raw) else path_basename path)
      in procs(se_pid raw \<mapsto> \<lparr>pi_ppid = se_ppid raw, pi_comm = comm\<rparr>))"

definition other_update :: "sentinel_event \<Rightarrow> process_table \<Rightarrow> process_table" where
  "other_update raw procs =
     (if procs (se_pid raw) = None
      then procs(se_pid raw \<mapsto> \<lparr>pi_ppid = se_ppid raw, pi_comm = cstr_comm (se_comm raw)\<rparr>)
      else procs)"

definition update_tree :: "enricher \<Rightarrow> sentinel_event \<Rightarrow> enricher" where
  "update_tree en raw =
     (let procs =
        (case from_u32 (se_kind raw) of
           Some ProcessFork \<Rightarrow> fork_update raw (en_processes en)
         | Some Exec \<Rightarrow> exec_update raw (en_processes en)
         | _ \<Rightarrow> other_update raw (en_processes en))
      in en\<lparr>en_processes := (if MAX_PROCESSES < card (dom procs) then Map.empty else procs)\<rparr>)"

subsection \<open>Lineage\<close>

partial_function (option) lineage_loop ::
  "process_table \<Rightarrow> nat \<Rightarrow> u32 \<Rightarrow> string list \<Rightarrow> string list option" where
  "lineage_loop procs max_lineage pid chain =
     (if 0 < pid \<and> length chain < max_lineage then
        (case procs pid of
           Some info \<Rightarrow>
             lineage_loop procs max_lineage (pi_ppid info)
               (if pi_comm info \<noteq> [] then chain @ [pi_comm info] else chain)
         | None \<Rightarrow> Some chain)
      else Some chain)"

definition lineage :: "enricher \<Rightarrow> u32 \<Rightarrow> string list option" where
  "lineage en pid = lineage_loop (en_processes en) (en_max_lineage en) pid []"

subsection \<open>Enrichment\<close>

text \<open>
  What enrichment takes from outside: the cgroup regular expressions, the cgroup files, and the
  rendering of a time stamp (seconds, nanoseconds) by \<open>chrono\<close>.
\<close>

record enrich_env =
  ev_captures :: captures
  ev_read_cgroup :: "u32 \<Rightarrow> string option"
  ev_rfc3339 :: "u64 \<Rightarrow> u32 \<Rightarrow> string option"

definition kind_name :: "u32 \<Rightarrow> string" where
  "kind_name v =
     (case from_u32 v of
        Some k \<Rightarrow> map ascii_lower (debug_kind k)
      | None \<Rightarrow> ''unknown('' @ show_nat (unat v) @ '')'')"

definition event_comm :: "sentinel_event \<Rightarrow> string" where
  "event_comm raw =
     (let path = cstr_path (se_path raw)
      in if kind_name (se_kind raw) = ''exec'' \<and> path \<noteq> [] then path_basename path
         else cstr_comm (se_comm raw))"

definition dst_addr_text :: "sentinel_event \<Rightarrow> string option" where
  "dst_addr_text raw =
     (if se_addr_family raw = AF_INET6 then Some (ipv6_to_string (se_dst_addr_v6 raw))
      else if se_dst_addr raw \<noteq> 0
      then Some (ipv4_to_string (ipv4_of_u32 (swap_bytes 4 (se_dst_addr raw))))
      else None)"

definition nonempty :: "string option \<Rightarrow> string option" where
  "nonempty s = (case s of Some t \<Rightarrow> if t = [] then None else Some t | None \<Rightarrow> None)"

definition enriched_of ::
  "enrich_env \<Rightarrow> enricher \<Rightarrow> sentinel_event \<Rightarrow> string list \<Rightarrow> enriched_event" where
  "enriched_of env en raw lin =
     (let kind = kind_name (se_kind raw);
          comm = event_comm raw;
          k8s = (case en_k8s en of
                   Some cache \<Rightarrow>
                     lookup_by_pid (ev_captures env) (ev_read_cgroup env) cache (se_pid raw)
                 | None \<Rightarrow> None)
      in \<lparr>ee_kind = kind,
          ee_pid = se_pid raw,
          ee_ppid = se_ppid raw,
          ee_uid = se_uid raw,
          ee_gid = se_gid raw,
          ee_timestamp_ns = se_timestamp_ns raw,
          ee_timestamp =
            ev_rfc3339 env (se_timestamp_ns raw div 1000000000)
              (ucast (se_timestamp_ns raw mod 1000000000)),
          ee_comm = comm,
          ee_parent_comm =
            (if kind = ''processfork'' then comm
             else (case en_processes en (se_ppid raw) of Some p \<Rightarrow> pi_comm p | None \<Rightarrow> [])),
          ee_path = cstr_path (se_path raw),
          ee_addr_family = (if se_addr_family raw \<noteq> 0 then Some (se_addr_family raw) else None),
          ee_dst_addr = dst_addr_text raw,
          ee_dst_port = (if se_dst_port raw \<noteq> 0 then Some (se_dst_port raw) else None),
          ee_flags = se_flags raw,
          ee_lineage = lin,
          ee_host = en_host en,
          ee_container_id = map_option cm_container_id k8s,
          ee_pod_name = nonempty (map_option cm_pod_name k8s),
          ee_pod_namespace = nonempty (map_option cm_pod_namespace k8s),
          ee_pod_image = nonempty (map_option cm_pod_image k8s)\<rparr>)"

text \<open>\<open>Enricher::enrich\<close>; \<open>None\<close> when the lineage walk does not end.\<close>

definition enrich ::
  "enrich_env \<Rightarrow> enricher \<Rightarrow> sentinel_event \<Rightarrow> (enriched_event \<times> enricher) option" where
  "enrich env en raw =
     (let en' = update_tree en raw
      in map_option (\<lambda>lin. (enriched_of env en' raw lin, en')) (lineage en' (se_ppid raw)))"

subsection \<open>When the lineage walk ends\<close>

text \<open>
  A \<^emph>\<open>silent\<close> entry has no command name: the walk passes through it to its parent without
  making the chain longer. The walk ends from every pid just when no cycle of parents consists
  of silent entries only.
\<close>

definition silent_parent :: "process_table \<Rightarrow> (u32 \<times> u32) set" where
  "silent_parent procs =
     {(q, p). 0 < p \<and> (\<exists>info. procs p = Some info \<and> pi_comm info = [] \<and> pi_ppid info = q)}"

lemma lineage_loop_returns:
  assumes "wf (silent_parent procs)"
  shows "\<exists>c. lineage_loop procs m pid chain = Some c"
proof -
  let ?r = "inv_image (measure (\<lambda>chain. m - length chain) <*lex*> silent_parent procs)
      (\<lambda>(pid, chain). (chain, pid))"
  have "wf ?r" using assms by (intro wf_inv_image wf_lex_prod) simp_all
  then have "\<exists>c. lineage_loop procs m (fst x) (snd x) = Some c" for x
  proof (induction x rule: wf_induct_rule)
    case (less x)
    obtain pid chain where x: "x = (pid, chain)" by fastforce
    show ?case
    proof (cases "0 < pid \<and> length chain < m \<and> procs pid \<noteq> None")
      case False
      then show ?thesis
        by (subst lineage_loop.simps) (auto simp: x split: option.split)
    next
      case True
      then obtain info where info: "procs pid = Some info" by auto
      let ?next = "if pi_comm info \<noteq> [] then chain @ [pi_comm info] else chain"
      have "((pi_ppid info, ?next), x) \<in> ?r"
        using True info by (auto simp: x silent_parent_def)
      from less.IH [OF this] obtain c where "lineage_loop procs m (pi_ppid info) ?next = Some c"
        by auto
      then have "lineage_loop procs m pid chain = Some c"
        using True info by (subst lineage_loop.simps) (simp del: if_split)
      then show ?thesis by (simp add: x)
    qed
  qed
  from this [of "(pid, chain)"] show ?thesis by simp
qed

lemma lineage_loop_stuck:
  assumes "\<forall>x \<in> S. \<exists>q \<in> S. (q, x) \<in> silent_parent procs" "pid \<in> S" "length chain < m"
  shows "lineage_loop procs m pid chain = None"
proof (rule ccontr)
  assume "lineage_loop procs m pid chain \<noteq> None"
  then obtain c where ret: "lineage_loop procs m pid chain = Some c" by auto
  have "procs = procs \<longrightarrow> pid \<in> S \<longrightarrow> m \<le> length chain"
  proof (rule lineage_loop.raw_induct
      [where P = "\<lambda>ps m pid chain r. ps = procs \<longrightarrow> pid \<in> S \<longrightarrow> m \<le> length chain", OF _ ret])
    fix loop ps n p ch r
    assume IH: "\<And>ps n p ch r. loop ps n p ch = Some r \<Longrightarrow> ps = procs \<longrightarrow> p \<in> S \<longrightarrow> n \<le> length ch"
      and eq: "(if 0 < p \<and> length ch < n
        then case ps p of None \<Rightarrow> Some ch
             | Some info \<Rightarrow> loop ps n (pi_ppid info) (if pi_comm info \<noteq> [] then ch @ [pi_comm info] else ch)
        else Some ch) = Some r"
    show "ps = procs \<longrightarrow> p \<in> S \<longrightarrow> n \<le> length ch"
    proof (intro impI)
      assume ps: "ps = procs" and p: "p \<in> S"
      from assms(1) p obtain q info where q: "q \<in> S" and info: "procs p = Some info"
        "pi_comm info = []" "pi_ppid info = q" "0 < p"
        by (auto simp: silent_parent_def)
      with eq ps IH [of procs n q ch r] q show "n \<le> length ch"
        by (auto split: if_splits)
    qed
  qed
  with assms(2,3) show False by simp
qed

lemma silent_parent_fun: "(q, x) \<in> silent_parent procs \<Longrightarrow> (q', x) \<in> silent_parent procs \<Longrightarrow> q = q'"
  by (auto simp: silent_parent_def)

lemma finite_silent_parent: "finite (dom procs) \<Longrightarrow> finite (silent_parent procs)"
  by (rule finite_subset [of _ "(\<lambda>p. (pi_ppid (the (procs p)), p)) ` dom procs"])
    (force simp: silent_parent_def)+

lemma lineage_cycle_stuck:
  assumes "(p, p) \<in> (silent_parent procs)\<^sup>+" "0 < m"
  shows "lineage_loop procs m p [] = None"
proof (rule lineage_loop_stuck [where S = "{x. (p, x) \<in> (silent_parent procs)\<^sup>+ \<and> (x, p) \<in> (silent_parent procs)\<^sup>+}"])
  let ?R = "silent_parent procs"
  show "\<forall>x \<in> {x. (p, x) \<in> ?R\<^sup>+ \<and> (x, p) \<in> ?R\<^sup>+}.
      \<exists>q \<in> {x. (p, x) \<in> ?R\<^sup>+ \<and> (x, p) \<in> ?R\<^sup>+}. (q, x) \<in> ?R"
  proof
    fix x assume "x \<in> {x. (p, x) \<in> ?R\<^sup>+ \<and> (x, p) \<in> ?R\<^sup>+}"
    then have px: "(p, x) \<in> ?R\<^sup>+" and xp: "(x, p) \<in> ?R\<^sup>+" by auto
    from px obtain q where q: "(p, q) \<in> ?R\<^sup>*" "(q, x) \<in> ?R" by (meson tranclD2)
    then have "(p, q) \<in> ?R\<^sup>+" using assms(1) by (meson trancl_rtrancl_trancl)
    moreover have "(q, p) \<in> ?R\<^sup>+" using q(2) xp by (rule trancl_into_trancl2)
    ultimately show "\<exists>q \<in> {x. (p, x) \<in> ?R\<^sup>+ \<and> (x, p) \<in> ?R\<^sup>+}. (q, x) \<in> ?R" using q(2) by auto
  qed
qed (use assms in auto)

text \<open>C4: The lineage walk returns from every pid exactly when the process table has no cycle of
  parents all of whose entries lack a command name. (The bound on the chain alone does not make
  the loop end: an entry without a name does not make the chain longer.)\<close>

theorem lineage_returns_iff:
  assumes "finite (dom (en_processes en))" "0 < en_max_lineage en"
  shows "(\<forall>pid. \<exists>lin. lineage en pid = Some lin) \<longleftrightarrow> acyclic (silent_parent (en_processes en))"
proof
  assume "\<forall>pid. \<exists>lin. lineage en pid = Some lin"
  then show "acyclic (silent_parent (en_processes en))"
    using lineage_cycle_stuck [OF _ assms(2)] unfolding acyclic_def lineage_def
    by (metis option.distinct(1))
next
  assume "acyclic (silent_parent (en_processes en))"
  then have "wf (silent_parent (en_processes en))"
    using finite_silent_parent [OF assms(1)] by (rule finite_acyclic_wf [rotated])
  then show "\<forall>pid. \<exists>lin. lineage en pid = Some lin"
    unfolding lineage_def by (blast intro: lineage_loop_returns)
qed

theorem lineage_returns_iff_witness:
  "acyclic (silent_parent [7 \<mapsto> \<lparr>pi_ppid = 1, pi_comm = []\<rparr>]) \<longleftrightarrow>
     (\<forall>pid. \<exists>lin. lineage
       \<lparr>en_host = ''h'', en_processes = [7 \<mapsto> \<lparr>pi_ppid = 1, pi_comm = []\<rparr>],
        en_max_lineage = 8, en_k8s = None\<rparr> pid = Some lin)"
  using lineage_returns_iff [of "\<lparr>en_host = ''h'',
      en_processes = [7 \<mapsto> \<lparr>pi_ppid = 1, pi_comm = []\<rparr>], en_max_lineage = 8, en_k8s = None\<rparr>"]
  by simp

text \<open>Every chain that is returned is short and names only.\<close>

lemma lineage_loop_bounds:
  assumes "lineage_loop procs m pid chain = Some c" "length chain \<le> m" "[] \<notin> set chain"
  shows "length c \<le> m \<and> [] \<notin> set c"
proof -
  have "length chain \<le> m \<longrightarrow> [] \<notin> set chain \<longrightarrow> length c \<le> m \<and> [] \<notin> set c"
    by (rule lineage_loop.raw_induct [where P = "\<lambda>procs m pid chain c.
          length chain \<le> m \<longrightarrow> [] \<notin> set chain \<longrightarrow> length c \<le> m \<and> [] \<notin> set c", OF _ assms(1)])
      (force split: if_splits option.splits)
  with assms(2,3) show ?thesis by blast
qed

lemma lineage_bounds: "lineage en pid = Some lin \<Longrightarrow> length lin \<le> en_max_lineage en \<and> [] \<notin> set lin"
  unfolding lineage_def by (erule lineage_loop_bounds) simp_all

subsection \<open>What the lineage is\<close>

text \<open>The names of the first \<open>n\<close> entries on the way up from a pid; unnamed entries add nothing.\<close>

fun names_up :: "process_table \<Rightarrow> nat \<Rightarrow> u32 \<Rightarrow> string list" where
  "names_up procs 0 pid = []"
| "names_up procs (Suc n) pid =
     (if pid = 0 then []
      else case procs pid of
             None \<Rightarrow> []
           | Some info \<Rightarrow>
               (if pi_comm info = [] then [] else [pi_comm info]) @ names_up procs n (pi_ppid info))"

lemma lineage_loop_names:
  assumes "lineage_loop procs m pid chain = Some c"
  shows "\<exists>n. \<forall>k \<ge> n. length chain \<le> m \<longrightarrow> take m (chain @ names_up procs k pid) = c"
proof (rule lineage_loop.raw_induct [where P = "\<lambda>procs m pid chain c.
      \<exists>n. \<forall>k \<ge> n. length chain \<le> m \<longrightarrow> take m (chain @ names_up procs k pid) = c", OF _ assms])
  fix loop procs m pid chain c
  assume IH: "\<And>procs m pid chain c. loop procs m pid chain = Some c \<Longrightarrow>
      \<exists>n. \<forall>k \<ge> n. length chain \<le> m \<longrightarrow> take m (chain @ names_up procs k pid) = c"
    and eq: "(if 0 < pid \<and> length chain < m
      then case procs pid of None \<Rightarrow> Some chain
           | Some info \<Rightarrow> loop procs m (pi_ppid info)
               (if pi_comm info \<noteq> [] then chain @ [pi_comm info] else chain)
      else Some chain) = Some (c :: string list)"
  show "\<exists>n. \<forall>k \<ge> n. length chain \<le> m \<longrightarrow> take m (chain @ names_up procs k pid) = c"
  proof (cases "0 < pid \<and> length chain < m \<and> procs pid \<noteq> None")
    case False
    then have "take m (chain @ names_up procs k pid) = c" if "length chain \<le> m" for k
      using that eq by (cases k) (auto split: if_splits option.splits simp: word_gt_0)
    then show ?thesis by blast
  next
    case True
    then obtain info where info: "procs pid = Some info" by auto
    with eq True have "loop procs m (pi_ppid info)
        (if pi_comm info \<noteq> [] then chain @ [pi_comm info] else chain) = Some c"
      by simp
    from IH [OF this] obtain n where n: "\<forall>k \<ge> n. take m
        ((if pi_comm info \<noteq> [] then chain @ [pi_comm info] else chain) @ names_up procs k (pi_ppid info)) = c"
      using True by (auto split: if_splits)
    have "take m (chain @ names_up procs k pid) = c" if "k \<ge> Suc n" for k
    proof -
      from that obtain k' where k: "k = Suc k'" "n \<le> k'" by (cases k) auto
      with n True info show ?thesis by (auto simp: k(1) split: if_splits)
    qed
    then show ?thesis by blast
  qed
qed

text \<open>C32: The lineage that is returned is made of the first names met on the way from the pid to its
  ancestors, at most as many as the maximal length: past some height, looking at more ancestors
  changes nothing.\<close>

theorem lineage_is_ancestry:
  assumes "lineage en pid = Some lin"
  shows "\<exists>n. \<forall>k \<ge> n. take (en_max_lineage en) (names_up (en_processes en) k pid) = lin"
  using lineage_loop_names [OF assms [unfolded lineage_def]] by simp

theorem lineage_is_ancestry_witness:
  "\<exists>n. \<forall>k \<ge> n. take 2 (names_up
     [7 \<mapsto> \<lparr>pi_ppid = 5, pi_comm = ''nc''\<rparr>, 5 \<mapsto> \<lparr>pi_ppid = 1, pi_comm = []\<rparr>,
      1 \<mapsto> \<lparr>pi_ppid = 0, pi_comm = ''init''\<rparr>] k 7) = [''nc'', ''init'']"
proof -
  let ?en = "\<lparr>en_host = ''h'', en_processes =
     [7 \<mapsto> \<lparr>pi_ppid = 5, pi_comm = ''nc''\<rparr>, 5 \<mapsto> \<lparr>pi_ppid = 1, pi_comm = []\<rparr>,
      1 \<mapsto> \<lparr>pi_ppid = 0, pi_comm = ''init''\<rparr>], en_max_lineage = 2, en_k8s = None\<rparr>"
  have "lineage ?en 7 = Some [''nc'', ''init'']"
    unfolding lineage_def by (simp add: lineage_loop.simps)
  from lineage_is_ancestry [OF this] show ?thesis by simp
qed

subsection \<open>The table after an event\<close>

lemma finite_fork_update: "finite (dom procs) \<Longrightarrow> finite (dom (fork_update raw procs))"
  by (simp add: fork_update_def Let_def split: option.split)

lemma finite_update_tree:
  "finite (dom (en_processes en)) \<Longrightarrow> finite (dom (en_processes (update_tree en raw)))"
  by (simp add: update_tree_def finite_fork_update exec_update_def other_update_def Let_def
      split: option.split event_kind.split)

lemma update_tree_keeps [simp]:
  "en_host (update_tree en raw) = en_host en"
  "en_max_lineage (update_tree en raw) = en_max_lineage en"
  "en_k8s (update_tree en raw) = en_k8s en"
  by (simp_all add: update_tree_def Let_def)

lemma update_tree_bounded: "card (dom (en_processes (update_tree en raw))) \<le> MAX_PROCESSES"
  by (simp add: update_tree_def Let_def)

lemma path_basename_nonempty: "path \<noteq> [] \<Longrightarrow> path_basename path \<noteq> []"
  by (auto simp: path_basename_def normal_component_def split: option.splits dest: file_name_normal)

lemma silent_parent_zero: "(q, 0) \<notin> silent_parent procs"
  by (simp add: silent_parent_def)

lemma silent_parent_named:
  "pi_comm info \<noteq> [] \<Longrightarrow> silent_parent (procs(p \<mapsto> info)) \<subseteq> silent_parent procs"
  by (auto simp: silent_parent_def split: if_splits)

lemma acyclic_add_leaf:
  assumes "acyclic (silent_parent procs)" "\<And>q. (p, q) \<notin> silent_parent procs" "pi_ppid info \<noteq> p"
  shows "acyclic (silent_parent (procs(p \<mapsto> info)))"
proof -
  have sub: "silent_parent (procs(p \<mapsto> info)) \<subseteq> insert (pi_ppid info, p) (silent_parent procs)"
    by (auto simp: silent_parent_def split: if_splits)
  have "(p, pi_ppid info) \<notin> (silent_parent procs)\<^sup>*"
    using assms(2,3) by (auto elim: converse_rtranclE)
  then have "acyclic (insert (pi_ppid info, p) (silent_parent procs))"
    using assms(1) by (simp add: acyclic_insert)
  then show ?thesis using sub by (rule acyclic_subset)
qed

lemma acyclic_add_orphan:
  assumes "acyclic (silent_parent procs)" "pi_ppid info = 0"
  shows "acyclic (silent_parent (procs(p \<mapsto> info)))"
proof (cases "p = 0")
  case True
  have "silent_parent (procs(0 \<mapsto> info)) = silent_parent procs"
    by (auto simp: silent_parent_def split: if_splits)
  with assms(1) True show ?thesis by simp
next
  case False
  have "(p, 0) \<notin> (silent_parent procs)\<^sup>*"
    using False by (meson rtranclE silent_parent_zero)
  moreover have "silent_parent (procs(p \<mapsto> info)) \<subseteq> insert (0, p) (silent_parent procs)"
    using assms(2) by (auto simp: silent_parent_def split: if_splits)
  ultimately show ?thesis
    using assms(1) by (blast intro: acyclic_subset acyclic_insert [THEN iffD2])
qed

text \<open>The events that cannot close a cycle of unnamed processes: a fork whose child is new as a
  parent and not its own parent, and any other event that brings a command name.\<close>

definition harmless :: "process_table \<Rightarrow> sentinel_event \<Rightarrow> bool" where
  "harmless procs raw \<longleftrightarrow>
     (if from_u32 (se_kind raw) = Some ProcessFork
      then se_pid raw \<noteq> se_ppid raw \<and> (\<forall>q. (se_pid raw, q) \<notin> silent_parent procs)
      else event_comm raw \<noteq> [] \<and> cstr_comm (se_comm raw) \<noteq> [])"

lemma fork_update_acyclic:
  assumes "acyclic (silent_parent procs)" "se_pid raw \<noteq> se_ppid raw"
    "\<And>q. (se_pid raw, q) \<notin> silent_parent procs"
  shows "acyclic (silent_parent (fork_update raw procs))"
proof -
  let ?procs1 = "procs(se_pid raw \<mapsto> \<lparr>pi_ppid = se_ppid raw, pi_comm = []\<rparr>)"
  have a: "acyclic (silent_parent ?procs1)"
    using assms by (intro acyclic_add_leaf) simp_all
  show ?thesis
  proof (cases "?procs1 (se_ppid raw)")
    case None
    then have "fork_update raw procs =
        ?procs1(se_ppid raw \<mapsto> \<lparr>pi_ppid = 0, pi_comm = cstr_comm (se_comm raw)\<rparr>)"
      by (simp add: fork_update_def Let_def)
    with acyclic_add_orphan [OF a] show ?thesis by simp
  next
    case (Some parent)
    then have "silent_parent (fork_update raw procs) \<subseteq> silent_parent ?procs1"
      by (auto simp: fork_update_def Let_def silent_parent_def split: if_splits)
    with a show ?thesis by (rule acyclic_subset)
  qed
qed

lemma kind_name_simps [simp]:
  "kind_name (kind_as_u32 Exec) = ''exec''"
  "kind_name (kind_as_u32 Connect) = ''connect''"
  "kind_name (kind_as_u32 Open) = ''open''"
  "kind_name (kind_as_u32 FileIntegrity) = ''fileintegrity''"
  "kind_name (kind_as_u32 ProcessFork) = ''processfork''"
  by code_simp+

lemma event_comm_exec: "from_u32 (se_kind raw) = Some Exec \<Longrightarrow> exec_update raw procs =
    procs(se_pid raw \<mapsto> \<lparr>pi_ppid = se_ppid raw, pi_comm = event_comm raw\<rparr>)"
  by (simp add: exec_update_def event_comm_def from_u32_Some_iff Let_def del: kind_as_u32.simps)

lemma update_tree_acyclic:
  assumes "acyclic (silent_parent (en_processes en))" "harmless (en_processes en) raw"
  shows "acyclic (silent_parent (en_processes (update_tree en raw)))"
proof -
  let ?procs = "case from_u32 (se_kind raw) of
      Some ProcessFork \<Rightarrow> fork_update raw (en_processes en)
    | Some Exec \<Rightarrow> exec_update raw (en_processes en)
    | _ \<Rightarrow> other_update raw (en_processes en)"
  have other: "acyclic (silent_parent (other_update raw (en_processes en)))"
    if "cstr_comm (se_comm raw) \<noteq> []"
    using that assms(1) by (auto simp: other_update_def intro: acyclic_subset [OF _ silent_parent_named])
  have "acyclic (silent_parent ?procs)"
    using assms fork_update_acyclic [of "en_processes en" raw] other
    by (auto simp: harmless_def event_comm_exec intro: acyclic_subset [OF _ silent_parent_named]
        split: option.splits event_kind.splits if_splits)
  moreover have "acyclic (silent_parent Map.empty)"
    by (simp add: silent_parent_def acyclic_def)
  ultimately show ?thesis by (simp add: update_tree_def Let_def)
qed

text \<open>C31: Enrichment returns, and keeps the process table free of unnamed cycles of parents, for
  every fork of a process that is not yet a parent and not its own, and for every other event
  that carries a command name.\<close>

theorem enrich_returns:
  assumes "finite (dom (en_processes en))" "acyclic (silent_parent (en_processes en))"
    "harmless (en_processes en) raw"
  shows "\<exists>e en'. enrich env en raw = Some (e, en') \<and> acyclic (silent_parent (en_processes en'))"
proof -
  let ?en = "update_tree en raw"
  have "acyclic (silent_parent (en_processes ?en))"
    using assms(2,3) by (rule update_tree_acyclic)
  moreover from this have "wf (silent_parent (en_processes ?en))"
    by (rule finite_acyclic_wf [OF finite_silent_parent [OF finite_update_tree [OF assms(1)]]])
  then obtain lin where "lineage ?en (se_ppid raw) = Some lin"
    unfolding lineage_def by (blast dest: lineage_loop_returns)
  ultimately show ?thesis by (simp add: enrich_def Let_def)
qed

text \<open>Text written into a zeroed buffer is read back.\<close>

lemma zero_notin_bytes: "is_ascii s \<Longrightarrow> CHR 0x00 \<notin> set s \<Longrightarrow> 0 \<notin> set (bytes_of_string s)"
proof
  assume nz: "CHR 0x00 \<notin> set s"
  assume "0 \<in> set (bytes_of_string s)"
  then have "char_of (unat (0 :: u8)) \<in> set (string_of_bytes (bytes_of_string s))"
    unfolding string_of_bytes_def set_map by (rule imageI)
  moreover have "char_of (unat (0 :: u8)) = CHR 0x00" by (simp add: char_of_def)
  ultimately have "CHR 0x00 \<in> set (string_of_bytes (bytes_of_string s))" by simp
  with nz show False by simp
qed

lemma cstr_pad:
  "is_ascii s \<Longrightarrow> CHR 0x00 \<notin> set s \<Longrightarrow> cstr_comm (pad_to n (bytes_of_string s)) = s"
  "is_ascii s \<Longrightarrow> CHR 0x00 \<notin> set s \<Longrightarrow> cstr_path (pad_to n (bytes_of_string s)) = s"
  by (simp_all add: cstr_comm_def cstr_path_def take_str_len takeWhile_pad_to zero_notin_bytes
      from_utf8_lossy_ascii)

lemma sample_event_simps [simp]:
  "se_kind (sample_event k pid ppid comm path) = kind_as_u32 k"
  "se_pid (sample_event k pid ppid comm path) = pid"
  "se_ppid (sample_event k pid ppid comm path) = ppid"
  "is_ascii comm \<Longrightarrow> CHR 0x00 \<notin> set comm \<Longrightarrow>
     cstr_comm (se_comm (sample_event k pid ppid comm path)) = comm"
  "is_ascii path \<Longrightarrow> CHR 0x00 \<notin> set path \<Longrightarrow>
     cstr_path (se_path (sample_event k pid ppid comm path)) = path"
  by (simp_all add: sample_event_def cstr_pad)

abbreviation bare_enricher :: "process_table \<Rightarrow> enricher" where
  "bare_enricher procs \<equiv> \<lparr>en_host = ''h'', en_processes = procs, en_max_lineage = 8, en_k8s = None\<rparr>"

definition quiet_enrich_env :: enrich_env where
  "quiet_enrich_env =
     \<lparr>ev_captures = (\<lambda>_ _. None), ev_read_cgroup = (\<lambda>_. None), ev_rfc3339 = (\<lambda>_ _. None)\<rparr>"

theorem enrich_returns_witness:
  "\<exists>e en'. enrich quiet_enrich_env (bare_enricher [5 \<mapsto> \<lparr>pi_ppid = 1, pi_comm = []\<rparr>])
     (sample_event ProcessFork 9 5 ''nc'' []) = Some (e, en') \<and> acyclic (silent_parent (en_processes en'))"
proof (rule enrich_returns)
  have "silent_parent [5 \<mapsto> \<lparr>pi_ppid = 1, pi_comm = []\<rparr>] = {(1, 5)}"
    by (auto simp: silent_parent_def split: if_splits)
  then show "acyclic (silent_parent (en_processes (bare_enricher [5 \<mapsto> \<lparr>pi_ppid = 1, pi_comm = []\<rparr>])))"
    "harmless (en_processes (bare_enricher [5 \<mapsto> \<lparr>pi_ppid = 1, pi_comm = []\<rparr>]))
      (sample_event ProcessFork 9 5 ''nc'' [])"
    by (simp_all add: harmless_def acyclic_insert wf_acyclic del: kind_as_u32.simps)
qed simp

text \<open>C39: Enrichment never returns from the fork event that makes a process the child of its own
  unnamed child: with the table entry that the fork of \<open>b\<close> by \<open>a\<close> leaves, the fork of \<open>a\<close> by
  \<open>b\<close> (after the kernel has reused the pid) with an empty command name loops for ever.\<close>

theorem enrich_hangs:
  assumes "from_u32 (se_kind raw) = Some ProcessFork" "cstr_comm (se_comm raw) = []"
    "en_processes en (se_ppid raw) = Some \<lparr>pi_ppid = se_pid raw, pi_comm = []\<rparr>"
    "0 < se_pid raw" "0 < se_ppid raw" "0 < en_max_lineage en"
    "card (dom (en_processes en)) < MAX_PROCESSES" "finite (dom (en_processes en))"
  shows "enrich env en raw = None"
proof -
  let ?a = "se_pid raw" and ?b = "se_ppid raw"
  let ?procs = "(en_processes en)(?a \<mapsto> \<lparr>pi_ppid = ?b, pi_comm = []\<rparr>)"
  have "fork_update raw (en_processes en) = ?procs"
    using assms(2,3) by (auto simp: fork_update_def Let_def fun_upd_twist)
  moreover have "card (dom ?procs) \<le> MAX_PROCESSES"
    using card_dom_upd_le [OF assms(8)] assms(7) by (meson Suc_leI le_trans)
  ultimately have procs: "en_processes (update_tree en raw) = ?procs"
    using assms(1) by (simp add: update_tree_def Let_def)
  have "(?b, ?a) \<in> silent_parent ?procs"
    using assms(4) by (simp add: silent_parent_def)
  moreover have "\<exists>q \<in> {?a, ?b}. (q, ?b) \<in> silent_parent ?procs"
    using assms(3,5) by (auto simp: silent_parent_def)
  ultimately have "lineage_loop ?procs (en_max_lineage en) ?b [] = None"
    using assms(6) by (intro lineage_loop_stuck [where S = "{?a, ?b}"]) auto
  then show ?thesis by (simp add: enrich_def lineage_def procs Let_def)
qed

theorem enrich_hangs_witness:
  "map_option (\<lambda>(e, en). enrich quiet_enrich_env en (sample_event ProcessFork 9 5 [] []))
     (enrich quiet_enrich_env (bare_enricher [5 \<mapsto> \<lparr>pi_ppid = 0, pi_comm = ''sh''\<rparr>])
       (sample_event ProcessFork 5 9 [] [])) = Some None"
proof -
  let ?en = "bare_enricher [5 \<mapsto> \<lparr>pi_ppid = 9, pi_comm = []\<rparr>, 9 \<mapsto> \<lparr>pi_ppid = 0, pi_comm = []\<rparr>]"
  let ?start = "bare_enricher [5 \<mapsto> \<lparr>pi_ppid = 0, pi_comm = ''sh''\<rparr>]"
  have tree: "update_tree ?start (sample_event ProcessFork 5 9 [] []) = ?en"
    by (rule enricher.equality)
      (simp_all add: update_tree_def fork_update_def Let_def MAX_PROCESSES_def
        del: kind_as_u32.simps)
  have "lineage ?en 9 = Some []"
    unfolding lineage_def by (simp add: lineage_loop.simps)
  then have "enrich quiet_enrich_env ?start (sample_event ProcessFork 5 9 [] []) =
      Some (enriched_of quiet_enrich_env ?en (sample_event ProcessFork 5 9 [] []) [], ?en)"
    unfolding enrich_def Let_def tree by simp
  moreover have "enrich quiet_enrich_env ?en (sample_event ProcessFork 9 5 [] []) = None"
    by (rule enrich_hangs)
      (simp_all add: MAX_PROCESSES_def card_insert_if word_gt_0 del: kind_as_u32.simps)
  ultimately show ?thesis by simp
qed

text \<open>An exec event takes its command name from the file name of the program, its parent's name
  from the process table, and leaves the program in the table under the pid; the lineage starts
  with the parent's name. (The table is not full and the process is not its own parent.)\<close>

theorem enrich_exec:
  assumes "from_u32 (se_kind raw) = Some Exec" "cstr_path (se_path raw) = dir @ CHR ''/'' # prog"
    "normal_component prog" "en_processes en (se_ppid raw) = Some parent" "pi_comm parent \<noteq> []"
    "se_pid raw \<noteq> se_ppid raw" "0 < se_ppid raw" "0 < en_max_lineage en"
    "card (dom (en_processes en)) < MAX_PROCESSES" "finite (dom (en_processes en))"
    "enrich env en raw = Some (e, en')"
  shows "ee_kind e = ''exec'' \<and> ee_comm e = prog \<and> ee_parent_comm e = pi_comm parent \<and>
    ee_path e = dir @ CHR ''/'' # prog \<and> take 1 (ee_lineage e) = [pi_comm parent] \<and>
    en_processes en' =
      (en_processes en)(se_pid raw \<mapsto> \<lparr>pi_ppid = se_ppid raw, pi_comm = prog\<rparr>)"
proof -
  have kind: "kind_name (se_kind raw) = ''exec''"
    using assms(1) by (simp add: from_u32_Some_iff del: kind_as_u32.simps)
  have base: "path_basename (dir @ CHR ''/'' # prog) = prog"
    using assms(3) by (simp add: path_basename_def file_name_last)
  then have comm: "event_comm raw = prog"
    using assms(2) by (simp add: event_comm_def kind)
  let ?procs = "(en_processes en)(se_pid raw \<mapsto> \<lparr>pi_ppid = se_ppid raw, pi_comm = prog\<rparr>)"
  have "card (dom ?procs) \<le> MAX_PROCESSES"
    using card_dom_upd_le [OF assms(10)] assms(9) by (meson Suc_leI le_trans)
  then have procs: "en_processes (update_tree en raw) = ?procs"
    using assms(1) by (simp add: update_tree_def Let_def event_comm_exec comm)
  from assms(11) obtain lin where lin: "lineage (update_tree en raw) (se_ppid raw) = Some lin"
    and e: "e = enriched_of env (update_tree en raw) raw lin" and en': "en' = update_tree en raw"
    by (auto simp: enrich_def Let_def)
  from lineage_loop_names [OF lin [unfolded lineage_def]] obtain n where
    "\<forall>k \<ge> n. take (en_max_lineage en) (names_up ?procs k (se_ppid raw)) = lin"
    by (auto simp: procs)
  then have "take (en_max_lineage en) (names_up ?procs (Suc n) (se_ppid raw)) = lin"
    by (meson le_SucI le_refl)
  moreover have "names_up ?procs (Suc n) (se_ppid raw) = pi_comm parent # names_up ?procs n (pi_ppid parent)"
    using assms(4-7) by simp
  ultimately have "take 1 lin = [pi_comm parent]"
    using assms(8) by (cases "en_max_lineage en") (auto simp del: names_up.simps)
  with assms(4,6) procs show ?thesis
    by (simp add: e en' enriched_of_def comm kind assms(2) Let_def)
qed

theorem enrich_exec_witness:
  "case enrich quiet_enrich_env (bare_enricher [41 \<mapsto> \<lparr>pi_ppid = 0, pi_comm = ''nc''\<rparr>])
     (sample_event Exec 42 41 ''nc'' ''/bin/bash'') of
     Some (e, en) \<Rightarrow> ee_comm e = ''bash'' \<and> ee_parent_comm e = ''nc'' \<and> take 1 (ee_lineage e) = [''nc'']
   | None \<Rightarrow> False"
proof -
  let ?en = "bare_enricher [41 \<mapsto> \<lparr>pi_ppid = 0, pi_comm = ''nc''\<rparr>]"
  let ?raw = "sample_event Exec 42 41 ''nc'' ''/bin/bash''"
  have "lineage (update_tree ?en ?raw) 41 \<noteq> None"
    by (simp add: update_tree_def lineage_def lineage_loop.simps event_comm_exec Let_def
        MAX_PROCESSES_def card_insert_if del: kind_as_u32.simps)
  then obtain e en' where r: "enrich quiet_enrich_env ?en ?raw = Some (e, en')"
    by (auto simp: enrich_def Let_def)
  have "normal_component ''bash''" by (simp add: normal_component_def)
  from enrich_exec [where dir = "''/bin''", OF _ _ this _ _ _ _ _ _ _ r] show ?thesis
    by (simp add: r MAX_PROCESSES_def word_gt_0 del: kind_as_u32.simps)
qed

end
