(* ===== verification/Loader.thy ===== *)
theory Loader
  imports Bpf Enricher
begin

text \<open>
  \<open>loader.rs\<close>: loading and attaching the probes, filling the table of monitored paths, and
  seeding the kernel's process tree from \<open>/proc\<close>. Loading goes through the \<open>aya\<close> library and the
  kernel, which appear as an environment of answers (\<open>load_env\<close>); errors of the steps are values.
\<close>

subsection \<open>Loading and attaching\<close>

datatype program_kind = PK_TracePoint | PK_BtfTracePoint | PK_Other

datatype load_error =
    Btf_Not_Found
  | Object_Not_Loaded
  | Btf_Not_Parsed
  | Program_Not_Found string
  | Program_Wrong_Kind string
  | Program_Not_Loaded string
  | Program_Not_Attached string string
  | Map_Not_Found string
  | Map_Not_Set nat
  | Proc_Not_Listed

record load_env =
  le_vmlinux_exists :: bool
  le_object_loads :: bool
  le_btf_parses :: bool
  le_program :: "string \<Rightarrow> program_kind option"
  le_program_loads :: "string \<Rightarrow> bool"
  le_attaches :: "string \<Rightarrow> string \<Rightarrow> bool"

definition ensure_btf_available :: "load_env \<Rightarrow> load_error + unit" where
  "ensure_btf_available env = (if le_vmlinux_exists env then Inr () else Inl Btf_Not_Found)"

text \<open>An attached program and where it is attached.\<close>

type_synonym attachment = "string \<times> string"

definition attach_as ::
  "program_kind \<Rightarrow> load_env \<Rightarrow> string \<Rightarrow> string \<Rightarrow> attachment list \<Rightarrow> load_error + attachment list" where
  "attach_as kind env program target attached =
     (case le_program env program of
        None \<Rightarrow> Inl (Program_Not_Found program)
      | Some k \<Rightarrow>
          if k \<noteq> kind then Inl (Program_Wrong_Kind program)
          else if \<not> le_program_loads env program then Inl (Program_Not_Loaded program)
          else if \<not> le_attaches env program target then Inl (Program_Not_Attached program target)
          else Inr (attached @ [(program, target)]))"

definition attach_tracepoint ::
  "load_env \<Rightarrow> string \<Rightarrow> string \<Rightarrow> string \<Rightarrow> attachment list \<Rightarrow> load_error + attachment list" where
  "attach_tracepoint env program category name = attach_as PK_TracePoint env program (category @ ''/'' @ name)"

definition attach_btf_tracepoint ::
  "load_env \<Rightarrow> string \<Rightarrow> string \<Rightarrow> attachment list \<Rightarrow> load_error + attachment list" where
  "attach_btf_tracepoint env program tracepoint = attach_as PK_BtfTracePoint env program tracepoint"

definition load :: "load_env \<Rightarrow> load_error + attachment list" where
  "load env =
     bind_sum (ensure_btf_available env) (\<lambda>_.
     if \<not> le_object_loads env then Inl Object_Not_Loaded
     else if \<not> le_btf_parses env then Inl Btf_Not_Parsed
     else
       bind_sum (attach_tracepoint env ''sys_enter_execve'' ''syscalls'' ''sys_enter_execve'' []) (\<lambda>a.
       bind_sum (attach_tracepoint env ''sys_enter_connect'' ''syscalls'' ''sys_enter_connect'' a) (\<lambda>a.
       bind_sum (attach_tracepoint env ''sys_enter_openat'' ''syscalls'' ''sys_enter_openat'' a) (\<lambda>a.
       bind_sum (attach_btf_tracepoint env ''sched_process_fork'' ''sched_process_fork'' a) (\<lambda>a.
       attach_tracepoint env ''sched_process_exec'' ''sched'' ''sched_process_exec'' a)))))"

subsection \<open>Monitored paths\<close>

definition monitored_key :: "string \<Rightarrow> bytes" where
  "monitored_key path =
     (let bytes = bytes_of_string path;
          len = min (length bytes) (MAX_PATH_LEN - 1)
      in take len bytes @ replicate (MAX_PATH_LEN - len) 0)"

text \<open>
  The slots start as the kernel makes them, 64 zeroed buffers; \<open>set_ok\<close> says which \<open>map.set\<close>
  succeeds. A failed one ends the loop and leaves the slots set so far.
\<close>

definition empty_slots :: "nat \<Rightarrow> bytes option" where
  "empty_slots i = (if i < 64 then Some (replicate 128 0) else None)"

fun set_paths ::
  "(nat \<Rightarrow> bool) \<Rightarrow> nat \<Rightarrow> string list \<Rightarrow> (nat \<Rightarrow> bytes option) \<Rightarrow> (load_error + unit) \<times> (nat \<Rightarrow> bytes option)" where
  "set_paths set_ok idx [] slots = (Inr (), slots)"
| "set_paths set_ok idx (path # paths) slots =
     (if set_ok idx then set_paths set_ok (Suc idx) paths (slots(idx \<mapsto> monitored_key path))
      else (Inl (Map_Not_Set idx), slots))"

definition populate_monitored_paths ::
  "bool \<Rightarrow> (nat \<Rightarrow> bool) \<Rightarrow> string list \<Rightarrow> (nat \<Rightarrow> bytes option) \<Rightarrow> (load_error + unit) \<times> (nat \<Rightarrow> bytes option)" where
  "populate_monitored_paths map_found set_ok paths slots =
     (if map_found then set_paths set_ok 0 (take 64 paths) slots
      else (Inl (Map_Not_Found ''MONITORED_PATHS''), slots))"

subsection \<open>Seeding the process tree\<close>

fun find_uid_line :: "string list \<Rightarrow> u32 option" where
  "find_uid_line [] = None"
| "find_uid_line (line # rest) =
     (case strip_prefix ''Uid:'' line of
        Some val \<Rightarrow>
          (case split_whitespace val of
             w # _ \<Rightarrow> parse_u32 w
           | [] \<Rightarrow> None)
      | None \<Rightarrow> find_uid_line rest)"

definition parse_uid :: "string option \<Rightarrow> u32 option" where
  "parse_uid status_file = (case status_file of Some status \<Rightarrow> find_uid_line (lines status) | None \<Rightarrow> None)"

definition node_comm :: "string option \<Rightarrow> bytes" where
  "node_comm comm_file =
     take 16 (bytes_of_string (trim (case comm_file of Some s \<Rightarrow> s | None \<Rightarrow> [])) @ replicate 16 0)"

text \<open>The loop over \<open>/proc\<close>; the result of \<open>map.insert\<close> is dropped.\<close>

fun seed_tree_entries ::
  "('t \<Rightarrow> u32 \<Rightarrow> process_node \<Rightarrow> 't) \<Rightarrow> proc_entry option list \<Rightarrow> 't \<Rightarrow> (bool \<times> 't) outcome" where
  "seed_tree_entries ins [] tree = Inr (True, tree)"
| "seed_tree_entries ins (None # es) tree = Inr (False, tree)"
| "seed_tree_entries ins (Some e # es) tree =
     (case parse_u32 (pe_name e) of
        None \<Rightarrow> seed_tree_entries ins es tree
      | Some pid \<Rightarrow>
          bind_sum (parse_ppid (pe_stat e)) (\<lambda>p.
            let comm = node_comm (pe_comm e);
                ppid = (case p of Some n \<Rightarrow> n | None \<Rightarrow> 0);
                uid = (case parse_uid (pe_status e) of Some n \<Rightarrow> n | None \<Rightarrow> 0);
                node = \<lparr>pn_ppid = ppid, pn_uid = uid, pn_comm = comm\<rparr>
            in seed_tree_entries ins es (ins tree pid node)))"

definition seed_process_tree ::
  "('t \<Rightarrow> u32 \<Rightarrow> process_node \<Rightarrow> 't) \<Rightarrow> bool \<Rightarrow> proc_entry option list option \<Rightarrow> 't \<Rightarrow> (bool \<times> 't) outcome" where
  "seed_process_tree ins map_found read_dir tree =
     (if \<not> map_found then Inr (False, tree)
      else (case read_dir of
              None \<Rightarrow> Inr (False, tree)
            | Some entries \<Rightarrow> seed_tree_entries ins entries tree))"

subsection \<open>Loading is all or nothing\<close>

text \<open>The programs of \<open>sentinel-ebpf\<close> and where they belong.\<close>

definition all_attachments :: "attachment list" where
  "all_attachments =
     [(''sys_enter_execve'', ''syscalls/sys_enter_execve''),
      (''sys_enter_connect'', ''syscalls/sys_enter_connect''),
      (''sys_enter_openat'', ''syscalls/sys_enter_openat''),
      (''sched_process_fork'', ''sched_process_fork''),
      (''sched_process_exec'', ''sched/sched_process_exec'')]"

definition expected_kind :: "string \<Rightarrow> program_kind" where
  "expected_kind program = (if program = ''sched_process_fork'' then PK_BtfTracePoint else PK_TracePoint)"

definition attachable :: "load_env \<Rightarrow> attachment \<Rightarrow> bool" where
  "attachable env pt = (case pt of (p, t) \<Rightarrow>
     le_program env p = Some (expected_kind p) \<and> le_program_loads env p \<and> le_attaches env p t)"

lemma attach_as_Inr_iff:
  "attach_as kind env p t a = Inr a' \<longleftrightarrow>
     le_program env p = Some kind \<and> le_program_loads env p \<and> le_attaches env p t \<and> a' = a @ [(p, t)]"
  by (auto simp: attach_as_def split: option.split)

text \<open>The probes load exactly when the kernel has BTF, the object and the BTF load, and every one
  of the five programs is found with its kind, loads and attaches; then all five are attached to
  their tracepoints, in order.\<close>

theorem load_iff:
  "load env = Inr a \<longleftrightarrow>
     le_vmlinux_exists env \<and> le_object_loads env \<and> le_btf_parses env \<and>
     list_all (attachable env) all_attachments \<and> a = all_attachments"
  by (auto simp: load_def ensure_btf_available_def bind_sum_Inr_iff attach_tracepoint_def
      attach_btf_tracepoint_def attach_as_Inr_iff attachable_def all_attachments_def expected_kind_def)

subsection \<open>The paths that are monitored\<close>

lemma set_paths_slots:
  "fst (set_paths set_ok idx paths slots) = Inr () \<Longrightarrow>
   snd (set_paths set_ok idx paths slots) i =
     (if idx \<le> i \<and> i < idx + length paths then Some (monitored_key (paths ! (i - idx))) else slots i)"
proof (induction paths arbitrary: idx slots)
  case Nil
  then show ?case by auto
next
  case (Cons p ps)
  then have "set_ok idx" by (auto split: if_splits)
  then have step: "set_paths set_ok idx (p # ps) slots =
      set_paths set_ok (Suc idx) ps (slots(idx \<mapsto> monitored_key p))" by simp
  note IH = Cons.IH [OF Cons.prems [unfolded step]]
  show ?case
    unfolding step IH by (cases "i = idx") (auto simp: nth_Cons' Suc_diff_Suc)
qed

lemma c_str_key: "0 \<notin> set (bytes_of_string m) \<Longrightarrow> c_str (monitored_key m) = take 127 (bytes_of_string m)"
proof -
  assume nz: "0 \<notin> set (bytes_of_string m)"
  let ?t = "take 127 (bytes_of_string m)"
  have "0 \<notin> set ?t" using nz by (meson in_set_takeD)
  moreover have "monitored_key m = pad_to 128 ?t"
    by (simp add: monitored_key_def pad_to_def Let_def min_def)
  ultimately show ?thesis by (simp add: c_str_def takeWhile_pad_to)
qed

lemma c_str_zero: "c_str (replicate n 0) = []"
  by (cases n) (simp_all add: c_str_def)

text \<open>After the configured paths have been loaded, the probes take a path for monitored exactly
  when one of the first 64 of them is not empty and its first 127 bytes are a prefix of the path
  (texts without NUL bytes).\<close>

theorem monitored_paths_loaded:
  assumes "populate_monitored_paths True set_ok paths empty_slots = (Inr (), slots)"
    "\<And>m. m \<in> set paths \<Longrightarrow> 0 \<notin> set (bytes_of_string m)" "0 \<notin> set p"
  shows "path_matches_monitored slots (pad_to 128 p) \<longleftrightarrow>
    (\<exists>m \<in> set (take 64 paths). m \<noteq> [] \<and> prefix (take 127 (bytes_of_string m)) p)"
proof -
  let ?ms = "take 64 paths"
  have slots: "slots i = (if i < length ?ms then Some (monitored_key (?ms ! i)) else empty_slots i)" for i
    using assms(1) set_paths_slots [of set_ok 0 ?ms empty_slots i]
    by (simp add: populate_monitored_paths_def)
  have key: "c_str (monitored_key (?ms ! i)) = take 127 (bytes_of_string (?ms ! i))"
    if "i < length ?ms" for i
    using that assms(2) [of "?ms ! i"] by (intro c_str_key) (metis in_set_takeD nth_mem)
  have ne: "take 127 (bytes_of_string m) \<noteq> [] \<longleftrightarrow> m \<noteq> []" for m :: string
    by (simp add: bytes_of_string_def)
  have txt_p: "c_str (pad_to 128 p) = p"
    using assms(3) by (simp add: c_str_def takeWhile_pad_to)
  have slot: "(\<exists>slot. slots i = Some slot \<and> c_str slot \<noteq> [] \<and> prefix (c_str slot) p) \<longleftrightarrow>
      i < length ?ms \<and> ?ms ! i \<noteq> [] \<and> prefix (take 127 (bytes_of_string (?ms ! i))) p" for i
  proof (cases "i < length ?ms")
    case True
    then show ?thesis using key [OF True] ne [of "?ms ! i"] by (simp only: slots) auto
  next
    case False
    then show ?thesis by (simp only: slots) (simp add: empty_slots_def c_str_zero)
  qed
  have "path_matches_monitored slots (pad_to 128 p) \<longleftrightarrow>
      (\<exists>i < 64. i < length ?ms \<and> ?ms ! i \<noteq> [] \<and> prefix (take 127 (bytes_of_string (?ms ! i))) p)"
    unfolding path_matches_iff txt_p slot ..
  also have "\<dots> \<longleftrightarrow> (\<exists>i < length ?ms. ?ms ! i \<noteq> [] \<and> prefix (take 127 (bytes_of_string (?ms ! i))) p)"
    by auto
  also have "\<dots> \<longleftrightarrow> (\<exists>m \<in> set ?ms. m \<noteq> [] \<and> prefix (take 127 (bytes_of_string m)) p)"
    by (metis in_set_conv_nth)
  finally show ?thesis .
qed

theorem monitored_paths_loaded_witness:
  "path_matches_monitored (snd (populate_monitored_paths True (\<lambda>_. True) [''/etc/passwd''] empty_slots))
     (pad_to 128 (bytes_of_string ''/etc/passwd.bak''))"
proof -
  have z: "0 \<notin> set (bytes_of_string ''/etc/passwd.bak'')" "0 \<notin> set (bytes_of_string ''/etc/passwd'')"
    by (rule zero_notin_bytes; simp)+
  have "populate_monitored_paths True (\<lambda>_. True) [''/etc/passwd''] empty_slots =
      (Inr (), snd (populate_monitored_paths True (\<lambda>_. True) [''/etc/passwd''] empty_slots))"
    by (simp add: populate_monitored_paths_def)
  from monitored_paths_loaded [OF this _ z(1)] z(2) show ?thesis
    by (simp add: bytes_of_string_def)
qed

subsection \<open>The two seeded tables agree\<close>

text \<open>
  The daemon's process table and the kernel's tree describe the same processes when they have
  the same keys, the same parents, and the tree holds the first 16 bytes of the names.
\<close>

definition same_process :: "process_info \<Rightarrow> process_node \<Rightarrow> bool" where
  "same_process i n \<longleftrightarrow>
     pi_ppid i = pn_ppid n \<and> pn_comm n = take 16 (bytes_of_string (pi_comm i) @ replicate 16 0)"

definition same_processes :: "process_table \<Rightarrow> tree \<Rightarrow> bool" where
  "same_processes procs t \<longleftrightarrow> (\<forall>pid. rel_option same_process (procs pid) (map_of t pid))"

lemma tree_insert_room: "length t < MAX_TREE \<Longrightarrow> tree_insert t p n = AList.update p n t"
  by (simp add: tree_insert_def)

lemma length_update_le: "length (AList.update k v t) \<le> Suc (length t)"
  by (induction t) auto

lemma same_processes_upd:
  "same_processes procs t \<Longrightarrow> same_process i n \<Longrightarrow>
   same_processes (procs(p \<mapsto> i)) (AList.update p n t)"
  by (simp add: same_processes_def update_conv')

lemma seeds_agree_loop:
  "same_processes procs t \<Longrightarrow> length t + length es \<le> MAX_TREE \<Longrightarrow>
   rel_sum (=) (rel_prod (=) same_processes)
     (seed_entries es procs) (seed_tree_entries tree_insert es t)"
proof (induction es arbitrary: procs t)
  case Nil
  then show ?case by simp
next
  case (Cons entry es)
  show ?case
  proof (cases entry)
    case None
    with Cons.prems show ?thesis by simp
  next
    case (Some e)
    show ?thesis
    proof (cases "parse_u32 (pe_name e)")
      case None
      with Cons Some show ?thesis by simp
    next
      case pid: (Some pid)
      show ?thesis
      proof (cases "parse_ppid (pe_stat e)")
        case (Inl a)
        with Some pid show ?thesis by simp
      next
        case (Inr p)
        let ?ppid = "case p of Some n \<Rightarrow> n | None \<Rightarrow> 0"
        let ?uid = "case parse_uid (pe_status e) of Some n \<Rightarrow> n | None \<Rightarrow> 0"
        let ?i = "\<lparr>pi_ppid = ?ppid, pi_comm = trim (case pe_comm e of Some s \<Rightarrow> s | None \<Rightarrow> [])\<rparr>"
        let ?n = "\<lparr>pn_ppid = ?ppid, pn_uid = ?uid, pn_comm = node_comm (pe_comm e)\<rparr>"
        have "same_process ?i ?n" by (simp add: same_process_def node_comm_def)
        then have same: "same_processes (procs(pid \<mapsto> ?i)) (AList.update pid ?n t)"
          by (rule same_processes_upd [OF Cons.prems(1)])
        have room: "length (AList.update pid ?n t) + length es \<le> MAX_TREE"
          using Cons.prems(2) length_update_le [of pid ?n t] by simp
        have ins: "tree_insert t pid ?n = AList.update pid ?n t"
          using Cons.prems(2) by (intro tree_insert_room) simp
        have "seed_entries (entry # es) procs = seed_entries es (procs(pid \<mapsto> ?i))"
          by (simp add: Some pid Inr Let_def)
        moreover have "seed_tree_entries tree_insert (entry # es) t =
            seed_tree_entries tree_insert es (AList.update pid ?n t)"
          by (simp add: Some pid Inr Let_def ins)
        ultimately show ?thesis
          using Cons.IH [OF same room] by (simp only:)
      qed
    qed
  qed
qed

text \<open>Seeding from the same \<open>/proc\<close> listing gives the daemon and the kernel the same processes
  with the same parents and names, or makes both fail in the same way, as long as the listing
  fits into the kernel's tree.\<close>

theorem seeds_agree:
  assumes "length entries \<le> MAX_TREE"
    "seed_from_proc (Some entries)
       \<lparr>en_host = host, en_processes = Map.empty, en_max_lineage = 8, en_k8s = None\<rparr> = Inr (ok, en)"
  shows "\<exists>t. seed_process_tree tree_insert True (Some entries) [] = Inr (ok, t) \<and>
    same_processes (en_processes en) t"
proof -
  have "rel_sum (=) (rel_prod (=) same_processes)
      (seed_entries entries Map.empty) (seed_tree_entries tree_insert entries [])"
    using assms(1) by (intro seeds_agree_loop) (simp_all add: same_processes_def)
  moreover obtain procs where procs: "seed_entries entries Map.empty = Inr (ok, procs)"
    and en: "en_processes en = procs"
    using assms(2) by (auto simp: seed_from_proc_def bind_sum_Inr_iff)
  ultimately obtain t where "seed_tree_entries tree_insert entries [] = Inr (ok, t)" "same_processes procs t"
    by (cases "seed_tree_entries tree_insert entries []") (auto simp: rel_prod_conv)
  then show ?thesis by (simp add: seed_process_tree_def en)
qed

text \<open>A listing with one process directory, whose \<open>stat\<close> file is gone.\<close>

definition sample_proc :: "proc_entry option list" where
  "sample_proc =
     [Some \<lparr>pe_name = ''self'', pe_comm = None, pe_stat = None, pe_status = None\<rparr>,
      Some \<lparr>pe_name = show_nat (unat (42 :: u32)), pe_comm = Some ''sh'', pe_stat = None, pe_status = None\<rparr>]"

lemma sample_proc_seed:
  "seed_entries sample_proc Map.empty = Inr (True, [42 \<mapsto> \<lparr>pi_ppid = 0, pi_comm = ''sh''\<rparr>])"
proof -
  have "trim ''sh'' = ''sh''" by code_simp
  moreover have "parse_u32 ''self'' = None" by (simp add: parse_u32_def parse_uint_def)
  moreover have "parse_ppid None = Inr None" by (simp add: parse_ppid_def)
  ultimately show ?thesis
    unfolding sample_proc_def seed_entries.simps proc_entry.select_convs
    by (simp only: parse_u32_show option.case bind_sum.simps Let_def seed_entries.simps)
qed

theorem seeds_agree_witness:
  "\<exists>t. seed_process_tree tree_insert True (Some sample_proc) [] = Inr (True, t) \<and>
     same_processes [42 \<mapsto> \<lparr>pi_ppid = 0, pi_comm = ''sh''\<rparr>] t"
proof -
  have "length sample_proc \<le> MAX_TREE" by (simp add: sample_proc_def MAX_TREE_def)
  moreover have "seed_from_proc (Some sample_proc) (bare_enricher Map.empty) =
      Inr (True, bare_enricher [42 \<mapsto> \<lparr>pi_ppid = 0, pi_comm = ''sh''\<rparr>])"
    by (simp add: seed_from_proc_def sample_proc_seed)
  ultimately show ?thesis using seeds_agree by fastforce
qed

end
