(* ===== verification/Rules.thy ===== *)
theory Rules
  imports Config Event
begin

text \<open>
  \<open>rules/mod.rs\<close>: the detection rules, their compilation, and their evaluation on an event. The
  value of a condition is a YAML value of the \<open>serde_yaml\<close> library, which is known only through
  its accessors (\<open>yaml_api\<close>); regular expressions of the \<open>regex\<close> library are known through
  compilation and matching (\<open>regex_api\<close>). The laws the rules rely on are the locale
  \<open>yaml_values\<close>, interpreted below on a type of YAML values.
\<close>

subsection \<open>The libraries\<close>

text \<open>
  \<open>y_string_variant\<close> is the match on the constructor \<open>Value::String\<close>, which unlike \<open>as_str\<close>
  does not look through tags; \<open>as_i64\<close> answers the bit pattern.
\<close>

record 'v yaml_api =
  y_as_str :: "'v \<Rightarrow> string option"
  y_as_u64 :: "'v \<Rightarrow> u64 option"
  y_as_i64 :: "'v \<Rightarrow> u64 option"
  y_as_bool :: "'v \<Rightarrow> bool option"
  y_as_sequence :: "'v \<Rightarrow> 'v list option"
  y_as_mapping :: "'v \<Rightarrow> ('v \<times> 'v) list option"
  y_get :: "'v \<Rightarrow> string \<Rightarrow> 'v option"
  y_string_variant :: "'v \<Rightarrow> string option"
  y_string :: "string \<Rightarrow> 'v"

record 're regex_api =
  rx_new :: "string \<Rightarrow> 're option"
  rx_is_match :: "'re \<Rightarrow> string \<Rightarrow> bool"

subsection \<open>Rules\<close>

datatype operator = Eq | Ne | Contains | Prefix | Suffix | Regex | Gt | Lt

record 'v condition =
  cd_field :: string
  cd_op :: operator
  cd_value :: 'v

datatype 'v condition_group =
    CG_All "'v condition list"
  | CG_Any "'v condition list"
  | CG_Single "'v condition"

record 'v rule =
  ru_id :: string
  ru_title :: string
  ru_description :: string
  ru_severity :: string
  ru_enabled :: bool
  ru_tags :: "string list"
  ru_mitre :: "mitre_attack option"
  ru_conditions :: "'v condition_group"
  ru_actions :: "string list"

datatype 'v rule_file = RF_Set "'v rule list" | RF_Single "'v rule"

definition default_severity :: string where "default_severity = ''medium''"
definition default_true :: bool where "default_true = True"

record ('v, 're) compiled_rule =
  cr_rule :: "'v rule"
  cr_regexes :: "string \<rightharpoonup> 're"

type_synonym ('v, 're) rule_engine = "('v, 're) compiled_rule list"

datatype rule_error =
    Glob_Error
  | Glob_Entry_Error
  | Read_Rule string
  | Parse_Rule string
  | Duplicate_Id string
  | Compile_Regex string

subsection \<open>Values\<close>

definition value_as_str :: "'v yaml_api \<Rightarrow> 'v \<Rightarrow> string option" where
  "value_as_str y v = y_as_str y v"

definition value_as_u64 :: "'v yaml_api \<Rightarrow> 'v \<Rightarrow> u64 option" where
  "value_as_u64 y v = (case y_as_u64 y v of Some n \<Rightarrow> Some n | None \<Rightarrow> y_as_i64 y v)"

definition parse_u64 :: "string \<Rightarrow> u64 option" where
  "parse_u64 s = map_option word_of_nat (parse_uint (2 ^ 64) s)"

definition parse_bool :: "string \<Rightarrow> bool option" where
  "parse_bool s = (if s = ''true'' then Some True else if s = ''false'' then Some False else None)"

definition regex_key :: "'v yaml_api \<Rightarrow> string \<Rightarrow> 'v \<Rightarrow> string" where
  "regex_key y fld v = fld @ ''::'' @ (case value_as_str y v of Some s \<Rightarrow> s | None \<Rightarrow> [])"

definition values_equal :: "'v yaml_api \<Rightarrow> string \<Rightarrow> 'v \<Rightarrow> bool" where
  "values_equal y field_val expected =
     (case y_as_str y expected of
        Some s \<Rightarrow> eq_ignore_ascii_case field_val s
      | None \<Rightarrow>
          (case value_as_u64 y expected of
             Some n \<Rightarrow> parse_u64 field_val = Some n
           | None \<Rightarrow>
               (case y_as_bool y expected of
                  Some b \<Rightarrow> parse_bool field_val = Some b \<or> (b \<and> field_val = ''1'') \<or> (\<not> b \<and> field_val = ''0'')
                | None \<Rightarrow> False)))"

subsection \<open>Compilation\<close>

fun iter_conditions :: "'v condition_group \<Rightarrow> 'v condition list" where
  "iter_conditions (CG_All cs) = cs"
| "iter_conditions (CG_Any cs) = cs"
| "iter_conditions (CG_Single c) = [c]"

fun compile_regexes ::
  "'v yaml_api \<Rightarrow> 're regex_api \<Rightarrow> string \<Rightarrow> 'v condition list \<Rightarrow> (string \<rightharpoonup> 're) \<Rightarrow> rule_error + (string \<rightharpoonup> 're)" where
  "compile_regexes y rx rid [] m = Inr m"
| "compile_regexes y rx rid (c # cs) m =
     (if cd_op c = Regex then
        (case value_as_str y (cd_value c) of
           Some pattern \<Rightarrow>
             (case rx_new rx pattern of
                None \<Rightarrow> Inl (Compile_Regex rid)
              | Some re \<Rightarrow>
                  compile_regexes y rx rid cs (m(regex_key y (cd_field c) (cd_value c) \<mapsto> re)))
         | None \<Rightarrow> compile_regexes y rx rid cs m)
      else compile_regexes y rx rid cs m)"

definition compiled_rule_new ::
  "'v yaml_api \<Rightarrow> 're regex_api \<Rightarrow> 'v rule \<Rightarrow> rule_error + ('v, 're) compiled_rule" where
  "compiled_rule_new y rx r =
     bind_sum (compile_regexes y rx (ru_id r) (iter_conditions (ru_conditions r)) Map.empty)
       (\<lambda>m. Inr \<lparr>cr_rule = r, cr_regexes = m\<rparr>)"

subsection \<open>Loading\<close>

text \<open>
  Where the rules come from: \<open>glob\<close>, reading, and parsing of a rule file and of a YAML document,
  each of which may fail.
\<close>

record 'v rule_env =
  re_glob :: "string \<Rightarrow> string option list option"
  re_read :: "string \<Rightarrow> string option"
  re_parse_rules :: "string \<Rightarrow> 'v rule_file option"
  re_parse_yaml :: "string \<Rightarrow> 'v option"
  re_is_dir :: "string \<Rightarrow> bool"

fun file_rules :: "'v rule_file \<Rightarrow> 'v rule list" where
  "file_rules (RF_Set rs) = rs"
| "file_rules (RF_Single r) = [r]"

fun load_files :: "'v rule_env \<Rightarrow> string option list \<Rightarrow> 'v rule list \<Rightarrow> rule_error + 'v rule list" where
  "load_files env [] rules = Inr rules"
| "load_files env (None # entries) rules = Inl Glob_Entry_Error"
| "load_files env (Some path # entries) rules =
     (if path_extension path = Some ''yml'' then load_files env entries rules
      else
        (case re_read env path of
           None \<Rightarrow> Inl (Read_Rule path)
         | Some raw \<Rightarrow>
             (case re_parse_rules env raw of
                None \<Rightarrow> Inl (Parse_Rule path)
              | Some parsed \<Rightarrow> load_files env entries (rules @ file_rules parsed))))"

fun check_ids :: "string list \<Rightarrow> 'v rule list \<Rightarrow> rule_error + unit" where
  "check_ids seen [] = Inr ()"
| "check_ids seen (r # rs) =
     (if ru_id r \<in> set seen then Inl (Duplicate_Id (ru_id r)) else check_ids (ru_id r # seen) rs)"

definition load_dir ::
  "'v yaml_api \<Rightarrow> 're regex_api \<Rightarrow> 'v rule_env \<Rightarrow> string \<Rightarrow> rule_error + ('v, 're) rule_engine" where
  "load_dir y rx env dir =
     (case re_glob env (path_join dir ''**/*.yaml'') of
        None \<Rightarrow> Inl Glob_Error
      | Some entries \<Rightarrow>
          bind_sum (load_files env entries []) (\<lambda>rules.
          bind_sum (check_ids [] rules) (\<lambda>_.
          try_map (compiled_rule_new y rx) rules)))"

subsection \<open>Evaluation\<close>

definition match_condition ::
  "(string \<Rightarrow> string) \<Rightarrow> 'v yaml_api \<Rightarrow> 're regex_api \<Rightarrow> ('v, 're) compiled_rule \<Rightarrow> 'v condition \<Rightarrow>
   enriched_event \<Rightarrow> bool" where
  "match_condition tbl y rx compiled cond event =
     (case field tbl event (cd_field cond) of
        None \<Rightarrow> False
      | Some field_val \<Rightarrow>
          (case cd_op cond of
             Eq \<Rightarrow> values_equal y field_val (cd_value cond)
           | Ne \<Rightarrow> \<not> values_equal y field_val (cd_value cond)
           | Contains \<Rightarrow>
               (case value_as_str y (cd_value cond) of Some n \<Rightarrow> sublist n field_val | None \<Rightarrow> False)
           | Prefix \<Rightarrow>
               (case value_as_str y (cd_value cond) of Some p \<Rightarrow> prefix p field_val | None \<Rightarrow> False)
           | Suffix \<Rightarrow>
               (case value_as_str y (cd_value cond) of Some s \<Rightarrow> suffix s field_val | None \<Rightarrow> False)
           | Regex \<Rightarrow>
               (case cr_regexes compiled (regex_key y (cd_field cond) (cd_value cond)) of
                  Some re \<Rightarrow> rx_is_match rx re field_val
                | None \<Rightarrow> False)
           | Gt \<Rightarrow>
               (case (parse_u64 field_val, value_as_u64 y (cd_value cond)) of
                  (Some a, Some b) \<Rightarrow> b < a
                | _ \<Rightarrow> False)
           | Lt \<Rightarrow>
               (case (parse_u64 field_val, value_as_u64 y (cd_value cond)) of
                  (Some a, Some b) \<Rightarrow> a < b
                | _ \<Rightarrow> False)))"

definition matches ::
  "(string \<Rightarrow> string) \<Rightarrow> 'v yaml_api \<Rightarrow> 're regex_api \<Rightarrow> ('v, 're) compiled_rule \<Rightarrow> enriched_event \<Rightarrow> bool" where
  "matches tbl y rx compiled event =
     (case ru_conditions (cr_rule compiled) of
        CG_All cs \<Rightarrow> list_all (\<lambda>c. match_condition tbl y rx compiled c event) cs
      | CG_Any cs \<Rightarrow> list_ex (\<lambda>c. match_condition tbl y rx compiled c event) cs
      | CG_Single c \<Rightarrow> match_condition tbl y rx compiled c event)"

definition alert_of :: "'v rule \<Rightarrow> enriched_event \<Rightarrow> alert" where
  "alert_of r event =
     \<lparr>al_rule_id = ru_id r, al_title = ru_title r, al_severity = ru_severity r,
      al_description = ru_description r, al_tags = ru_tags r, al_mitre = ru_mitre r,
      al_event = event, al_triage = None, al_timestamp_ns = ee_timestamp_ns event\<rparr>"

fun evaluate ::
  "(string \<Rightarrow> string) \<Rightarrow> 'v yaml_api \<Rightarrow> 're regex_api \<Rightarrow> ('v, 're) rule_engine \<Rightarrow> enriched_event \<Rightarrow> alert list" where
  "evaluate tbl y rx [] event = []"
| "evaluate tbl y rx (c # cs) event =
     (if \<not> ru_enabled (cr_rule c) then evaluate tbl y rx cs event
      else if matches tbl y rx c event then alert_of (cr_rule c) event # evaluate tbl y rx cs event
      else evaluate tbl y rx cs event)"

definition find_rule :: "('v, 're) rule_engine \<Rightarrow> string \<Rightarrow> 'v rule option" where
  "find_rule engine rule_id = map_option cr_rule (find (\<lambda>c. ru_id (cr_rule c) = rule_id) engine)"

definition should_triage :: "('v, 're) rule_engine \<Rightarrow> string \<Rightarrow> bool" where
  "should_triage engine rule_id =
     (case find_rule engine rule_id of
        Some r \<Rightarrow> list_ex (\<lambda>a. a = ''triage'') (ru_actions r)
      | None \<Rightarrow> False)"

definition should_alert :: "('v, 're) rule_engine \<Rightarrow> string \<Rightarrow> bool" where
  "should_alert engine rule_id =
     (case find_rule engine rule_id of
        Some r \<Rightarrow> ru_actions r = [] \<or> list_ex (\<lambda>a. a = ''alert'') (ru_actions r)
      | None \<Rightarrow> True)"

subsection \<open>The laws of YAML values\<close>

locale yaml_values =
  fixes y :: "'v yaml_api"
  assumes as_str_string: "y_as_str y (y_string y s) = Some s"
    and string_variant_string: "y_string_variant y (y_string y s) = Some s"
    and string_not_number: "y_as_str y v = Some s \<Longrightarrow> y_as_u64 y v = None \<and> y_as_i64 y v = None"
    and string_not_bool: "y_as_str y v = Some s \<Longrightarrow> y_as_bool y v = None"
begin

lemma values_equal_string: "values_equal y x (y_string y s) \<longleftrightarrow> eq_ignore_ascii_case x s"
  by (simp add: values_equal_def as_str_string)

lemma number_not_string: "value_as_u64 y v = Some n \<Longrightarrow> y_as_str y v = None"
  using string_not_number [of v] by (cases "y_as_str y v") (auto simp: value_as_u64_def)

lemma values_equal_number:
  "value_as_u64 y v = Some n \<Longrightarrow> values_equal y x v \<longleftrightarrow> parse_u64 x = Some n"
  by (simp add: values_equal_def number_not_string)

text \<open>A numeric field against a number: the comparison of the two 64-bit values.\<close>

lemma numeric_condition:
  assumes "numeric_field event (cd_field cond) = Some n" "value_as_u64 y (cd_value cond) = Some b"
    "cd_op cond \<noteq> Regex"
  shows "match_condition tbl y rx compiled cond event \<longleftrightarrow>
    (case cd_op cond of
       Eq \<Rightarrow> word_of_nat n = b
     | Ne \<Rightarrow> word_of_nat n \<noteq> b
     | Gt \<Rightarrow> unat b < n
     | Lt \<Rightarrow> n < unat b
     | _ \<Rightarrow> False)"
proof -
  obtain v where v: "field tbl event (cd_field cond) = Some v" and "parse_uint (2 ^ 64) v = Some n"
    using numeric_field_field [OF assms(1)] by blast
  then have p: "parse_u64 v = Some (word_of_nat n)" by (simp add: parse_u64_def)
  have "n < 2 ^ 64" using numeric_field_bound [OF assms(1)] by simp
  then have u: "unat (word_of_nat n :: u64) = n" by (simp add: unat_of_nat)
  show ?thesis
    using assms(2,3) number_not_string [OF assms(2)] values_equal_number [OF assms(2), of v]
    by (cases "cd_op cond")
      (simp_all add: match_condition_def v p value_as_str_def word_less_nat_alt u)
qed

end

text \<open>YAML values (without floats), and their accessors.\<close>

datatype yval =
    Y_Null
  | Y_Bool bool
  | Y_Num int
  | Y_Str string
  | Y_Seq "yval list"
  | Y_Map "(yval \<times> yval) list"
  | Y_Tagged string yval

fun untag :: "yval \<Rightarrow> yval" where
  "untag (Y_Tagged t v) = untag v"
| "untag v = v"

definition yval_api :: "yval yaml_api" where
  "yval_api =
     \<lparr>y_as_str = (\<lambda>v. case untag v of Y_Str s \<Rightarrow> Some s | _ \<Rightarrow> None),
      y_as_u64 = (\<lambda>v. case untag v of Y_Num i \<Rightarrow> if 0 \<le> i \<and> i < 2 ^ 64 then Some (word_of_int i) else None
         | _ \<Rightarrow> None),
      y_as_i64 = (\<lambda>v. case untag v of Y_Num i \<Rightarrow> if - (2 ^ 63) \<le> i \<and> i < 2 ^ 63 then Some (word_of_int i) else None
         | _ \<Rightarrow> None),
      y_as_bool = (\<lambda>v. case untag v of Y_Bool b \<Rightarrow> Some b | _ \<Rightarrow> None),
      y_as_sequence = (\<lambda>v. case untag v of Y_Seq vs \<Rightarrow> Some vs | _ \<Rightarrow> None),
      y_as_mapping = (\<lambda>v. case untag v of Y_Map m \<Rightarrow> Some m | _ \<Rightarrow> None),
      y_get = (\<lambda>v k. case untag v of Y_Map m \<Rightarrow> map_of m (Y_Str k) | _ \<Rightarrow> None),
      y_string_variant = (\<lambda>v. case v of Y_Str s \<Rightarrow> Some s | _ \<Rightarrow> None),
      y_string = Y_Str\<rparr>"

interpretation yv: yaml_values yval_api
  by unfold_locales (auto simp: yval_api_def split: yval.splits)

subsection \<open>Compiled rules mean what the rules say\<close>

text \<open>
  The reference semantics of a condition has no compiled expressions: a \<open>regex\<close> condition holds
  when its own pattern matches the field.
\<close>

definition cond_holds ::
  "(string \<Rightarrow> string) \<Rightarrow> 'v yaml_api \<Rightarrow> 're regex_api \<Rightarrow> 'v condition \<Rightarrow> enriched_event \<Rightarrow> bool" where
  "cond_holds tbl y rx cond event =
     (if cd_op cond = Regex
      then (case (field tbl event (cd_field cond), value_as_str y (cd_value cond)) of
              (Some v, Some pattern) \<Rightarrow>
                (case rx_new rx pattern of Some re \<Rightarrow> rx_is_match rx re v | None \<Rightarrow> False)
            | _ \<Rightarrow> False)
      else match_condition tbl y rx \<lparr>cr_rule = undefined, cr_regexes = Map.empty\<rparr> cond event)"

fun group_holds ::
  "(string \<Rightarrow> string) \<Rightarrow> 'v yaml_api \<Rightarrow> 're regex_api \<Rightarrow> 'v condition_group \<Rightarrow> enriched_event \<Rightarrow> bool" where
  "group_holds tbl y rx (CG_All cs) event = (\<forall>c \<in> set cs. cond_holds tbl y rx c event)"
| "group_holds tbl y rx (CG_Any cs) event = (\<exists>c \<in> set cs. cond_holds tbl y rx c event)"
| "group_holds tbl y rx (CG_Single c) event = cond_holds tbl y rx c event"

text \<open>
  A condition is \<^emph>\<open>plain\<close> when its field name has no colon, and the pattern of a regular
  expression is a string. Then the key under which an expression is stored tells its field and
  pattern.
\<close>

definition plain_condition :: "'v yaml_api \<Rightarrow> 'v condition \<Rightarrow> bool" where
  "plain_condition y c \<longleftrightarrow>
     CHR '':'' \<notin> set (cd_field c) \<and> (cd_op c = Regex \<longrightarrow> value_as_str y (cd_value c) \<noteq> None)"

lemma append_colon_inj:
  "CHR '':'' \<notin> set f \<Longrightarrow> CHR '':'' \<notin> set g \<Longrightarrow> f @ CHR '':'' # p = g @ CHR '':'' # q \<longleftrightarrow> f = g \<and> p = q"
  by (metis split_once_append option.inject prod.inject)

lemma regex_key_inj:
  assumes "CHR '':'' \<notin> set f" "CHR '':'' \<notin> set g" "value_as_str y v = Some p" "value_as_str y w = Some q"
  shows "regex_key y f v = regex_key y g w \<longleftrightarrow> f = g \<and> p = q"
  using append_colon_inj [of f g "CHR '':'' # p" "CHR '':'' # q"] assms
  by (simp add: regex_key_def)

lemma compile_regexes_lookup:
  assumes "compile_regexes y rx rid cs m = Inr m'" "list_all (plain_condition y) cs"
  shows "(\<forall>c \<in> set cs. cd_op c = Regex \<longrightarrow> (\<exists>p re. value_as_str y (cd_value c) = Some p \<and>
      rx_new rx p = Some re \<and> m' (regex_key y (cd_field c) (cd_value c)) = Some re)) \<and>
    (\<forall>k. (\<forall>c \<in> set cs. cd_op c = Regex \<longrightarrow> regex_key y (cd_field c) (cd_value c) \<noteq> k) \<longrightarrow> m' k = m k)"
  using assms
proof (induction cs arbitrary: m)
  case Nil
  then show ?case by simp
next
  case (Cons c cs)
  show ?case
  proof (cases "cd_op c = Regex")
    case False
    with Cons.prems have "compile_regexes y rx rid cs m = Inr m'" by simp
    from Cons.IH [OF this] Cons.prems(2) False show ?thesis by simp
  next
    case True
    then obtain p re where p: "value_as_str y (cd_value c) = Some p" and re: "rx_new rx p = Some re"
      and rest: "compile_regexes y rx rid cs (m(regex_key y (cd_field c) (cd_value c) \<mapsto> re)) = Inr m'"
      using Cons.prems by (auto simp: plain_condition_def split: option.splits)
    let ?key = "regex_key y (cd_field c) (cd_value c)"
    have plain: "list_all (plain_condition y) cs" using Cons.prems(2) by simp
    note IH = Cons.IH [OF rest plain]
    have "m' ?key = Some re"
    proof (cases "\<exists>d \<in> set cs. cd_op d = Regex \<and> regex_key y (cd_field d) (cd_value d) = ?key")
      case True
      then obtain d where d: "d \<in> set cs" "cd_op d = Regex" "regex_key y (cd_field d) (cd_value d) = ?key"
        by blast
      with IH obtain q re' where q: "value_as_str y (cd_value d) = Some q" "rx_new rx q = Some re'"
        "m' ?key = Some re'" by metis
      have "q = p"
        using d q(1) p plain Cons.prems(2) regex_key_inj [of "cd_field d" "cd_field c" y "cd_value d" q "cd_value c" p]
        by (auto simp: list_all_iff plain_condition_def)
      with q re show ?thesis by simp
    next
      case False
      then have "m' ?key = (m(?key \<mapsto> re)) ?key" using IH by blast
      then show ?thesis by simp
    qed
    moreover have "m' k = m k" if "\<forall>d \<in> set (c # cs). cd_op d = Regex \<longrightarrow> regex_key y (cd_field d) (cd_value d) \<noteq> k" for k
    proof -
      from that True have "k \<noteq> ?key" by auto
      moreover have "m' k = (m(?key \<mapsto> re)) k" using IH that by auto
      ultimately show ?thesis by simp
    qed
    ultimately show ?thesis using IH p re by auto
  qed
qed

lemma compiled_rule_newD:
  assumes "compiled_rule_new y rx r = Inr c"
  shows "cr_rule c = r \<and>
    compile_regexes y rx (ru_id r) (iter_conditions (ru_conditions r)) Map.empty = Inr (cr_regexes c)"
  using assms by (auto simp: compiled_rule_new_def bind_sum_Inr_iff)

lemma match_compiled:
  assumes "compiled_rule_new y rx r = Inr c" "list_all (plain_condition y) (iter_conditions (ru_conditions r))"
    "cond \<in> set (iter_conditions (ru_conditions r))"
  shows "match_condition tbl y rx c cond event \<longleftrightarrow> cond_holds tbl y rx cond event"
proof (cases "cd_op cond = Regex")
  case True
  from compile_regexes_lookup [OF compiled_rule_newD [OF assms(1), THEN conjunct2] assms(2)] assms(3) True
  obtain p re where "value_as_str y (cd_value cond) = Some p" "rx_new rx p = Some re"
    "cr_regexes c (regex_key y (cd_field cond) (cd_value cond)) = Some re" by metis
  with True show ?thesis by (simp add: match_condition_def cond_holds_def split: option.split)
next
  case False
  then show ?thesis
    by (cases "field tbl event (cd_field cond)"; cases "cd_op cond")
      (simp_all add: match_condition_def cond_holds_def)
qed

lemma matches_compiled:
  assumes "compiled_rule_new y rx r = Inr c" "list_all (plain_condition y) (iter_conditions (ru_conditions r))"
  shows "matches tbl y rx c event \<longleftrightarrow> group_holds tbl y rx (ru_conditions r) event"
  using match_compiled [OF assms] compiled_rule_newD [OF assms(1)]
  by (cases "ru_conditions r") (simp_all add: matches_def list_all_iff list_ex_iff)

lemma evaluate_compiled:
  assumes "list_all2 (\<lambda>r c. compiled_rule_new y rx r = Inr c) rules engine"
    "\<forall>r \<in> set rules. list_all (plain_condition y) (iter_conditions (ru_conditions r))"
  shows "evaluate tbl y rx engine event =
    map (\<lambda>r. alert_of r event) (filter (\<lambda>r. ru_enabled r \<and> group_holds tbl y rx (ru_conditions r) event) rules)"
  using assms
proof (induction rules engine rule: list_all2_induct)
  case Nil
  then show ?case by simp
next
  case (Cons r rs c cs)
  then show ?case
    using compiled_rule_newD [OF Cons(1)] matches_compiled [OF Cons(1)] by simp
qed

text \<open>C10: The alerts of an event are those of the enabled rules whose conditions hold, in the order
  of the rules: compiling the regular expressions once and looking them up by field and pattern
  is the same as matching every condition with its own pattern. (The rules' field names hold no
  colon, and their patterns are strings.)\<close>

theorem evaluate_correct:
  assumes "try_map (compiled_rule_new y rx) rules = Inr engine"
    "\<forall>r \<in> set rules. list_all (plain_condition y) (iter_conditions (ru_conditions r))"
  shows "evaluate tbl y rx engine event =
    map (\<lambda>r. alert_of r event) (filter (\<lambda>r. ru_enabled r \<and> group_holds tbl y rx (ru_conditions r) event) rules)"
  using try_map_InrD [OF assms(1)] assms(2) by (rule evaluate_compiled)

text \<open>A pattern that is matched as a whole, as a concrete regular expression library.\<close>

definition literal_regex :: "string regex_api" where
  "literal_regex = \<lparr>rx_new = (\<lambda>p. if p = [] then None else Some p), rx_is_match = (\<lambda>re s. re = s)\<rparr>"

definition sample_rule :: "string \<Rightarrow> yval condition_group \<Rightarrow> string list \<Rightarrow> yval rule" where
  "sample_rule rid conds actions =
     \<lparr>ru_id = rid, ru_title = rid, ru_description = [], ru_severity = default_severity,
      ru_enabled = default_true, ru_tags = [], ru_mitre = None, ru_conditions = conds,
      ru_actions = actions\<rparr>"

definition sample_enriched :: "string \<Rightarrow> string \<Rightarrow> string \<Rightarrow> enriched_event" where
  "sample_enriched kind comm parent =
     \<lparr>ee_kind = kind, ee_pid = 42, ee_ppid = 41, ee_uid = 0, ee_gid = 0, ee_timestamp_ns = 7,
      ee_timestamp = None, ee_comm = comm, ee_parent_comm = parent, ee_path = ''/bin/sh'',
      ee_addr_family = None, ee_dst_addr = None, ee_dst_port = None, ee_flags = 0, ee_lineage = [],
      ee_host = ''h'', ee_container_id = None, ee_pod_name = None, ee_pod_namespace = None,
      ee_pod_image = None\<rparr>"

theorem evaluate_correct_witness:
  "let shell = \<lparr>cd_field = ''comm'', cd_op = Regex, cd_value = Y_Str ''sh''\<rparr>;
       netcat = \<lparr>cd_field = ''parent_comm'', cd_op = Regex, cd_value = Y_Str ''nc''\<rparr>;
       rules = [sample_rule ''r1'' (CG_All [shell, netcat]) [], sample_rule ''r2'' (CG_Single netcat) []]
   in case try_map (compiled_rule_new yval_api literal_regex) rules of
        Inr engine \<Rightarrow> map al_rule_id (evaluate id yval_api literal_regex engine (sample_enriched ''exec'' ''ls'' ''nc'')) = [''r2'']
      | Inl _ \<Rightarrow> False"
proof -
  let ?shell = "\<lparr>cd_field = ''comm'', cd_op = Regex, cd_value = Y_Str ''sh''\<rparr>"
  let ?netcat = "\<lparr>cd_field = ''parent_comm'', cd_op = Regex, cd_value = Y_Str ''nc''\<rparr>"
  let ?rules = "[sample_rule ''r1'' (CG_All [?shell, ?netcat]) [], sample_rule ''r2'' (CG_Single ?netcat) []]"
  have rules: "\<forall>r \<in> set ?rules. list_all (plain_condition yval_api) (iter_conditions (ru_conditions r))"
    by (simp add: sample_rule_def plain_condition_def value_as_str_def yval_api_def)
  obtain engine where engine: "try_map (compiled_rule_new yval_api literal_regex) ?rules = Inr engine"
    by (simp add: sample_rule_def compiled_rule_new_def value_as_str_def yval_api_def literal_regex_def)
  have "map al_rule_id (evaluate id yval_api literal_regex engine (sample_enriched ''exec'' ''ls'' ''nc'')) = [''r2'']"
    unfolding evaluate_correct [OF engine rules]
    by (simp add: sample_rule_def default_true_def cond_holds_def value_as_str_def yval_api_def
        literal_regex_def sample_enriched_def field_def alert_of_def)
  with engine show ?thesis by (simp add: Let_def)
qed

subsection \<open>Loading a directory of rules\<close>

lemma check_ids_iff:
  "check_ids seen rs = Inr u \<longleftrightarrow> distinct (map ru_id rs) \<and> set (map ru_id rs) \<inter> set seen = {}"
  by (induction rs arbitrary: seen) auto

text \<open>The rules of the files a listing names, in order, when all can be read and parsed.\<close>

fun rules_of_files :: "'v rule_env \<Rightarrow> string list \<Rightarrow> 'v rule list option" where
  "rules_of_files env [] = Some []"
| "rules_of_files env (path # paths) =
     (case re_read env path of
        None \<Rightarrow> None
      | Some raw \<Rightarrow>
          (case (re_parse_rules env raw, rules_of_files env paths) of
             (Some parsed, Some rs) \<Rightarrow> Some (file_rules parsed @ rs)
           | _ \<Rightarrow> None))"

lemma load_files_iff:
  "load_files env entries acc = Inr rules \<longleftrightarrow>
     None \<notin> set entries \<and>
     (\<exists>rs. rules_of_files env (filter (\<lambda>p. path_extension p \<noteq> Some ''yml'') (map the entries)) = Some rs \<and>
        rules = acc @ rs)"
proof (induction entries arbitrary: acc)
  case Nil
  then show ?case by auto
next
  case (Cons entry entries)
  then show ?case by (cases entry) (auto split: option.splits)
qed

text \<open>C33: Loading a directory succeeds exactly when the directory can be listed, every \<open>.yaml\<close> file in
  it can be read and parsed, no two rules have the same id, and every regular expression
  compiles; then the engine holds the rules of the files in order.\<close>

theorem load_dir_iff:
  "load_dir y rx env dir = Inr engine \<longleftrightarrow>
     (\<exists>paths rules. re_glob env (path_join dir ''**/*.yaml'') = Some (map Some paths) \<and>
        rules_of_files env (filter (\<lambda>p. path_extension p \<noteq> Some ''yml'') paths) = Some rules \<and>
        distinct (map ru_id rules) \<and>
        list_all2 (\<lambda>r c. compiled_rule_new y rx r = Inr c) rules engine)"
proof -
  have listing: "None \<notin> set entries \<longleftrightarrow> (\<exists>paths. entries = map Some paths)" for entries :: "string option list"
    by (metis (no_types, lifting) ex_map_conv option.distinct(1) not_None_eq)
  have "load_dir y rx env dir = Inr engine \<longleftrightarrow>
      (\<exists>entries rules. re_glob env (path_join dir ''**/*.yaml'') = Some entries \<and>
        load_files env entries [] = Inr rules \<and> check_ids [] rules = Inr () \<and>
        try_map (compiled_rule_new y rx) rules = Inr engine)"
    by (simp add: load_dir_def bind_sum_Inr_iff split: option.split)
  also have "\<dots> \<longleftrightarrow> (\<exists>entries rules. re_glob env (path_join dir ''**/*.yaml'') = Some entries \<and>
        (\<exists>paths. entries = map Some paths) \<and>
        rules_of_files env (filter (\<lambda>p. path_extension p \<noteq> Some ''yml'') (map the entries)) = Some rules \<and>
        distinct (map ru_id rules) \<and> list_all2 (\<lambda>r c. compiled_rule_new y rx r = Inr c) rules engine)"
    by (simp add: load_files_iff check_ids_iff try_map_Inr_iff listing conj_assoc)
  also have "\<dots> \<longleftrightarrow>
     (\<exists>paths rules. re_glob env (path_join dir ''**/*.yaml'') = Some (map Some paths) \<and>
        rules_of_files env (filter (\<lambda>p. path_extension p \<noteq> Some ''yml'') paths) = Some rules \<and>
        distinct (map ru_id rules) \<and> list_all2 (\<lambda>r c. compiled_rule_new y rx r = Inr c) rules engine)"
    (is "?l \<longleftrightarrow> ?r")
  proof
    assume ?l
    then obtain paths rules where "re_glob env (path_join dir ''**/*.yaml'') = Some (map Some paths)"
      "rules_of_files env (filter (\<lambda>p. path_extension p \<noteq> Some ''yml'') (map the (map Some paths))) = Some rules"
      "distinct (map ru_id rules)" "list_all2 (\<lambda>r c. compiled_rule_new y rx r = Inr c) rules engine"
      by blast
    then show ?r by (auto simp: comp_def)
  next
    assume ?r
    then obtain paths rules where r: "re_glob env (path_join dir ''**/*.yaml'') = Some (map Some paths)"
      "rules_of_files env (filter (\<lambda>p. path_extension p \<noteq> Some ''yml'') (map the (map Some paths))) = Some rules"
      "distinct (map ru_id rules)" "list_all2 (\<lambda>r c. compiled_rule_new y rx r = Inr c) rules engine"
      by (auto simp: comp_def)
    then show ?l by blast
  qed
  finally show ?thesis .
qed

subsection \<open>The actions of a rule\<close>

text \<open>In an engine whose rules have distinct ids, looking up the actions of an alert by its rule
  id finds the actions of the rule that raised it.\<close>

theorem actions_of_own_rule:
  assumes "distinct (map (ru_id \<circ> cr_rule) engine)" "a \<in> set (evaluate tbl y rx engine event)"
  shows "\<exists>c \<in> set engine. a = alert_of (cr_rule c) event \<and> ru_enabled (cr_rule c) \<and> matches tbl y rx c event \<and>
    (should_alert engine (al_rule_id a) \<longleftrightarrow> ru_actions (cr_rule c) = [] \<or> ''alert'' \<in> set (ru_actions (cr_rule c))) \<and>
    (should_triage engine (al_rule_id a) \<longleftrightarrow> ''triage'' \<in> set (ru_actions (cr_rule c)))"
proof -
  have "\<exists>c \<in> set engine. a = alert_of (cr_rule c) event \<and> ru_enabled (cr_rule c) \<and> matches tbl y rx c event"
    using assms(2) by (induction engine) (auto split: if_splits)
  then obtain c where c: "c \<in> set engine" "a = alert_of (cr_rule c) event" "ru_enabled (cr_rule c)"
    "matches tbl y rx c event" by blast
  have "find (\<lambda>d. ru_id (cr_rule d) = ru_id (cr_rule c)) engine = Some c"
    using assms(1) c(1) by (induction engine) (auto simp: image_iff)
  then have "find_rule engine (al_rule_id a) = Some (cr_rule c)"
    by (simp add: find_rule_def c(2) alert_of_def)
  with c show ?thesis
    by (auto simp: should_alert_def should_triage_def list_ex_iff)
qed

theorem actions_of_own_rule_witness:
  "let conds = CG_Single \<lparr>cd_field = ''comm'', cd_op = Eq, cd_value = Y_Str ''sh''\<rparr>;
       engine = [\<lparr>cr_rule = sample_rule ''quiet'' conds [''triage''], cr_regexes = Map.empty\<rparr>,
         \<lparr>cr_rule = sample_rule ''loud'' conds [], cr_regexes = Map.empty :: string \<rightharpoonup> string\<rparr>]
   in \<exists>c \<in> set engine. should_alert engine ''quiet'' \<longleftrightarrow>
        ru_actions (cr_rule c) = [] \<or> ''alert'' \<in> set (ru_actions (cr_rule c))"
proof -
  let ?conds = "CG_Single \<lparr>cd_field = ''comm'', cd_op = Eq, cd_value = Y_Str ''sh''\<rparr>"
  let ?engine = "[\<lparr>cr_rule = sample_rule ''quiet'' ?conds [''triage''], cr_regexes = Map.empty\<rparr>,
      \<lparr>cr_rule = sample_rule ''loud'' ?conds [], cr_regexes = Map.empty :: string \<rightharpoonup> string\<rparr>]"
  let ?event = "sample_enriched ''exec'' ''sh'' ''nc''"
  have "distinct (map (ru_id \<circ> cr_rule) ?engine)" by (simp add: sample_rule_def)
  moreover have "alert_of (sample_rule ''quiet'' ?conds [''triage'']) ?event \<in>
      set (evaluate id yval_api literal_regex ?engine ?event)"
    by (simp add: matches_def match_condition_def values_equal_def yval_api_def sample_rule_def
        default_true_def sample_enriched_def field_def)
  ultimately have "\<exists>c \<in> set ?engine. should_alert ?engine
      (al_rule_id (alert_of (sample_rule ''quiet'' ?conds [''triage'']) ?event)) \<longleftrightarrow>
        ru_actions (cr_rule c) = [] \<or> ''alert'' \<in> set (ru_actions (cr_rule c))"
    by (meson actions_of_own_rule)
  then show ?thesis by (simp add: alert_of_def sample_rule_def Let_def)
qed

subsection \<open>Numbers\<close>

lemma yval_u64:
  "0 \<le> i \<Longrightarrow> i < 2 ^ 64 \<Longrightarrow> value_as_u64 yval_api (Y_Num i) = Some (word_of_int i)"
  "- (2 ^ 63) \<le> i \<Longrightarrow> i < 0 \<Longrightarrow> value_as_u64 yval_api (Y_Num i) = Some (word_of_int i)"
  by (simp_all add: value_as_u64_def yval_api_def)

text \<open>A condition that compares a numeric field (\<open>pid\<close>, \<open>uid\<close>, \<open>dst_port\<close>, \<open>flags\<close>, and so on) with a
  number from 0 to 2^64-1 compares the numbers: the text the event gives for the field loses nothing.\<close>

theorem numeric_condition_correct:
  assumes "numeric_field event (cd_field cond) = Some n" "cd_value cond = Y_Num i" "0 \<le> i" "i < 2 ^ 64"
    "cd_op cond \<noteq> Regex"
  shows "match_condition tbl yval_api rx compiled cond event \<longleftrightarrow>
    (case cd_op cond of Eq \<Rightarrow> int n = i | Ne \<Rightarrow> int n \<noteq> i | Gt \<Rightarrow> i < int n | Lt \<Rightarrow> int n < i | _ \<Rightarrow> False)"
proof -
  have v: "value_as_u64 yval_api (cd_value cond) = Some (word_of_int i)"
    using assms(2-4) yval_u64(1) by simp
  have u: "int (unat (word_of_int i :: u64)) = i"
    using assms(3,4) by (simp add: uint_word_of_int)
  have n: "int (unat (word_of_nat n :: u64)) = int n"
    using numeric_field_bound [OF assms(1)] by (simp add: unat_of_nat)
  have eq: "(word_of_nat n :: u64) = word_of_int i \<longleftrightarrow> int n = i"
    using u n by (metis of_int_of_nat_eq)
  have less: "unat (word_of_int i :: u64) < n \<longleftrightarrow> i < int n" "n < unat (word_of_int i :: u64) \<longleftrightarrow> int n < i"
    using u by (metis of_nat_less_iff)+
  show ?thesis
    using assms(5) unfolding yv.numeric_condition [OF assms(1) v assms(5)]
    by (cases "cd_op cond") (simp_all add: eq less)
qed

theorem numeric_condition_correct_witness:
  "match_condition id yval_api literal_regex \<lparr>cr_rule = undefined, cr_regexes = Map.empty\<rparr>
     \<lparr>cd_field = ''pid'', cd_op = Gt, cd_value = Y_Num 41\<rparr> (sample_enriched ''exec'' ''sh'' ''nc'')"
  by (subst numeric_condition_correct [where n = 42 and i = 41])
    (simp_all add: numeric_field_def sample_enriched_def)

text \<open>A negative number in a condition is read as the unsigned number with the same bits: every
  value of every numeric field is less than it (\<open>lt: -1\<close> always holds and \<open>gt: -1\<close> never does).\<close>

theorem negative_threshold_wraps:
  assumes "numeric_field event (cd_field cond) = Some n" "cd_value cond = Y_Num i" "- (2 ^ 63) \<le> i" "i < 0"
  shows "(cd_op cond = Lt \<longrightarrow> match_condition tbl yval_api rx compiled cond event) \<and>
    (cd_op cond = Gt \<longrightarrow> \<not> match_condition tbl yval_api rx compiled cond event)"
proof -
  have v: "value_as_u64 yval_api (cd_value cond) = Some (word_of_int i)"
    using assms(2-4) yval_u64(2) by simp
  have "uint (word_of_int i :: u64) = i mod 2 ^ 64" by (simp add: uint_word_of_int)
  also have "\<dots> = (i + 2 ^ 64) mod 2 ^ 64" by simp
  also have "\<dots> = i + 2 ^ 64" using assms(3,4) by (intro mod_pos_pos_trivial) simp_all
  finally have "int (unat (word_of_int i :: u64)) = i + 2 ^ 64" by simp
  moreover have "int n < 4294967296" using numeric_field_bound [OF assms(1)] by simp
  ultimately have "int n < int (unat (word_of_int i :: u64))" using assms(3) by simp
  then have "n < unat (word_of_int i :: u64)" by (simp only: of_nat_less_iff)
  then show ?thesis
    using yv.numeric_condition [OF assms(1) v, of tbl rx compiled] by auto
qed

theorem negative_threshold_wraps_witness:
  "match_condition id yval_api literal_regex \<lparr>cr_rule = undefined, cr_regexes = Map.empty\<rparr>
     \<lparr>cd_field = ''uid'', cd_op = Lt, cd_value = Y_Num (- 1)\<rparr> (sample_enriched ''exec'' ''sh'' ''nc'')"
  using negative_threshold_wraps [of "sample_enriched ''exec'' ''sh'' ''nc''"
      "\<lparr>cd_field = ''uid'', cd_op = Lt, cd_value = Y_Num (- 1)\<rparr>" 0 "- 1"]
  by (simp add: numeric_field_def sample_enriched_def)

end
