(* ===== verification/Sigma.thy ===== *)
theory Sigma
  imports Rules
begin

text \<open>
  \<open>rules/sigma.rs\<close>: the translation of Sigma rules into native rules, and the loading of both
  (\<open>RuleEngine::load_from_config\<close>). Selections are a map from names to conditions.
\<close>

datatype sigma_error = Missing_Detection | Unknown_Selections | Unsupported_Condition

subsection \<open>Fields and values\<close>

definition field_str :: "'v yaml_api \<Rightarrow> 'v \<Rightarrow> string \<Rightarrow> string option" where
  "field_str y doc key = (case y_get y doc key of Some v \<Rightarrow> y_as_str y v | None \<Rightarrow> None)"

definition map_field_name :: "string \<Rightarrow> string option" where
  "map_field_name sigma_field =
     (if sigma_field = ''Image'' then Some ''comm''
      else if sigma_field = ''ParentImage'' then Some ''parent_comm''
      else if sigma_field = ''CommandLine'' then Some ''path''
      else if sigma_field = ''DestinationIp'' then Some ''dst_addr''
      else if sigma_field = ''DestinationPort'' then Some ''dst_port''
      else if sigma_field = ''EventID'' then Some ''kind''
      else None)"

text \<open>The two branches for images end in the same expression; a pattern is left as it is.\<close>

definition sigma_image_to_comm :: "string \<Rightarrow> operator \<Rightarrow> string" where
  "sigma_image_to_comm value op =
     (case op of
        Regex \<Rightarrow> value
      | _ \<Rightarrow> rsplit_last [CHR ''/'', CHR 0x5C] value)"

definition normalize_sigma_value :: "'v yaml_api \<Rightarrow> 'v \<Rightarrow> string \<Rightarrow> operator \<Rightarrow> 'v" where
  "normalize_sigma_value y value fld op =
     (case y_string_variant y value of
        Some s \<Rightarrow>
          (let trimmed = trim_matches (CHR 0x22) (trim_matches (CHR 0x27) s);
               normalized =
                 (if fld = ''comm'' \<or> fld = ''parent_comm'' then sigma_image_to_comm trimmed op
                  else trimmed)
           in y_string y normalized)
      | None \<Rightarrow> value)"

definition modifier_op :: "string \<Rightarrow> operator" where
  "modifier_op modifier =
     (if modifier = ''endswith'' then Suffix
      else if modifier = ''startswith'' then Prefix
      else if modifier = ''contains'' then Contains
      else if modifier = ''re'' then Regex
      else Eq)"

definition map_sigma_field :: "'v yaml_api \<Rightarrow> string \<Rightarrow> 'v \<Rightarrow> 'v condition option" where
  "map_sigma_field y fld value =
     (let (name, op) =
        (case split_once (CHR ''|'') fld of
           Some (base, modifier) \<Rightarrow> (map_field_name base, modifier_op modifier)
         | None \<Rightarrow> (map_field_name fld, Eq))
      in case name of
           None \<Rightarrow> None
         | Some mapped_field \<Rightarrow>
             Some \<lparr>cd_field = mapped_field, cd_op = op,
                   cd_value = normalize_sigma_value y value mapped_field op\<rparr>)"

definition logsource_kind :: "'v yaml_api \<Rightarrow> 'v option \<Rightarrow> 'v condition option" where
  "logsource_kind y logsource =
     (case logsource of
        None \<Rightarrow> None
      | Some ls \<Rightarrow>
          (case y_get y ls ''category'' of
             None \<Rightarrow> None
           | Some v \<Rightarrow>
               (case y_as_str y v of
                  None \<Rightarrow> None
                | Some category \<Rightarrow>
                    (let kind =
                       (if category = ''process_creation'' then Some ''exec''
                        else if category = ''network_connection'' then Some ''connect''
                        else if category = ''file_event'' then Some ''open''
                        else None)
                     in case kind of
                          None \<Rightarrow> None
                        | Some k \<Rightarrow> Some \<lparr>cd_field = ''kind'', cd_op = Eq, cd_value = y_string y k\<rparr>))))"

definition map_level :: "(string \<Rightarrow> string) \<Rightarrow> string \<Rightarrow> string" where
  "map_level tbl level =
     (let l = to_lowercase tbl level
      in if l = ''informational'' \<or> l = ''low'' then ''low''
         else if l = ''medium'' then ''medium''
         else if l = ''high'' then ''high''
         else if l = ''critical'' then ''critical''
         else ''medium'')"

text \<open>\<open>trim_start_matches\<close> removes every copy of the pattern at the start.\<close>

function trim_start_matches :: "string \<Rightarrow> string \<Rightarrow> string" where
  "trim_start_matches pat s =
     (if pat \<noteq> [] \<and> prefix pat s then trim_start_matches pat (drop (length pat) s) else s)"
  by auto
termination
  by (relation "measure (\<lambda>(pat, s). length s)") (auto simp: prefix_def)

declare trim_start_matches.simps [simp del]

definition extract_mitre :: "(string \<Rightarrow> string) \<Rightarrow> string list \<Rightarrow> mitre_attack option" where
  "extract_mitre tbl tags =
     (case find (\<lambda>t. prefix ''attack.t'' t) tags of
        None \<Rightarrow> None
      | Some technique \<Rightarrow>
          Some \<lparr>ma_tactic = [],
                ma_technique = to_uppercase tbl (trim_start_matches ''attack.'' technique),
                ma_subtechnique = None\<rparr>)"

subsection \<open>Conditions\<close>

definition parse_of_list :: "string \<Rightarrow> string list" where
  "parse_of_list inner0 =
     (let inner = trim inner0
      in if inner \<noteq> [] \<and> hd inner = CHR ''['' \<and> last inner = CHR '']''
         then filter (\<lambda>s. s \<noteq> [])
                (map (\<lambda>s. trim_matches (CHR 0x22) (trim_matches (CHR 0x27) (trim s)))
                  (split_on (CHR '','') (take (length inner - 2) (drop 1 inner))))
         else if inner = ''*'' then [''selection'']
         else [inner])"

definition selected :: "(string \<rightharpoonup> 'v condition list) \<Rightarrow> string list \<Rightarrow> 'v condition list" where
  "selected selections names =
     concat (map (\<lambda>n. case selections n of Some cs \<Rightarrow> cs | None \<Rightarrow> []) names)"

definition build_condition_group ::
  "string \<Rightarrow> (string \<rightharpoonup> 'v condition list) \<Rightarrow> sigma_error + 'v condition_group" where
  "build_condition_group expr0 selections =
     (let expr = trim expr0
      in case strip_prefix ''all of '' expr of
           Some inner \<Rightarrow>
             (let all = selected selections (parse_of_list inner)
              in if all = [] then Inl Unknown_Selections else Inr (CG_All all))
         | None \<Rightarrow>
             (case strip_prefix ''1 of '' expr of
                Some inner \<Rightarrow>
                  (let any = selected selections (parse_of_list inner)
                   in if any = [] then Inl Unknown_Selections else Inr (CG_Any any))
              | None \<Rightarrow>
                  (case selections expr of
                     Some all \<Rightarrow> Inr (CG_All all)
                   | None \<Rightarrow> Inl Unsupported_Condition)))"

fun into_conditions :: "'v condition_group \<Rightarrow> 'v condition list" where
  "into_conditions (CG_All all) = all"
| "into_conditions (CG_Any any) = any"
| "into_conditions (CG_Single c) = [c]"

text \<open>The conditions of one selection, and the selections of a detection section.\<close>

definition selection_conditions :: "'v yaml_api \<Rightarrow> ('v \<times> 'v) list \<Rightarrow> 'v condition list" where
  "selection_conditions y cond_map =
     List.map_filter
       (\<lambda>(field_key, field_val).
          map_sigma_field y (case y_as_str y field_key of Some s \<Rightarrow> s | None \<Rightarrow> []) field_val)
       cond_map"

fun detection_selections ::
  "'v yaml_api \<Rightarrow> ('v \<times> 'v) list \<Rightarrow> (string \<rightharpoonup> 'v condition list) \<Rightarrow> (string \<rightharpoonup> 'v condition list)" where
  "detection_selections y [] selections = selections"
| "detection_selections y ((key, value) # kvs) selections =
     (let name = (case y_as_str y key of Some s \<Rightarrow> s | None \<Rightarrow> [])
      in if name = ''condition'' then detection_selections y kvs selections
         else (case y_as_mapping y value of
                 None \<Rightarrow> detection_selections y kvs selections
               | Some cond_map \<Rightarrow>
                   (let conds = selection_conditions y cond_map
                    in detection_selections y kvs
                         (if conds \<noteq> [] then selections(name \<mapsto> conds) else selections))))"

definition add_kind :: "'v condition option \<Rightarrow> 'v condition_group \<Rightarrow> 'v condition_group" where
  "add_kind kind_condition grp =
     (case (kind_condition, grp) of
        (Some k, CG_All all) \<Rightarrow> CG_All (k # all)
      | (Some k, other) \<Rightarrow> CG_All (k # into_conditions other)
      | (None, g) \<Rightarrow> g)"

definition str_or :: "string \<Rightarrow> string option \<Rightarrow> string" where
  "str_or dflt s = (case s of Some t \<Rightarrow> t | None \<Rightarrow> dflt)"

definition translate_sigma ::
  "(string \<Rightarrow> string) \<Rightarrow> (string \<Rightarrow> string) \<Rightarrow> 'v yaml_api \<Rightarrow> 'v \<Rightarrow> sigma_error + 'v rule" where
  "translate_sigma lower upper y doc =
     (let title = str_or ''sigma rule'' (field_str y doc ''title'');
          rid = str_or title (field_str y doc ''id'');
          description = str_or [] (field_str y doc ''description'');
          level = str_or ''medium'' (field_str y doc ''level'');
          tags = (case y_get y doc ''tags'' of
                    None \<Rightarrow> []
                  | Some v \<Rightarrow> (case y_as_sequence y v of
                                None \<Rightarrow> []
                              | Some seq \<Rightarrow> List.map_filter (y_as_str y) seq))
      in case y_get y doc ''detection'' of
           None \<Rightarrow> Inl Missing_Detection
         | Some detection \<Rightarrow>
             (let selections = (case y_as_mapping y detection of
                                  Some m \<Rightarrow> detection_selections y m Map.empty
                                | None \<Rightarrow> Map.empty);
                  condition_expr = str_or ''selection'' (field_str y detection ''condition'');
                  kind_condition = logsource_kind y (y_get y doc ''logsource'')
              in bind_sum (build_condition_group condition_expr selections) (\<lambda>grp.
                   Inr \<lparr>ru_id = ''sigma-'' @ rid,
                        ru_title = title,
                        ru_description = description,
                        ru_severity = map_level lower level,
                        ru_enabled = True,
                        ru_tags = tags,
                        ru_mitre = extract_mitre upper tags,
                        ru_conditions = add_kind kind_condition grp,
                        ru_actions = [''alert'']\<rparr>)))"

subsection \<open>Loading\<close>

text \<open>A rule that cannot be translated is skipped; a file that cannot be read or parsed is an error.\<close>

fun load_sigma_files ::
  "(string \<Rightarrow> string) \<Rightarrow> (string \<Rightarrow> string) \<Rightarrow> 'v yaml_api \<Rightarrow> 'v rule_env \<Rightarrow> string option list \<Rightarrow> 'v rule list \<Rightarrow>
   rule_error + 'v rule list" where
  "load_sigma_files lower upper y env [] rules = Inr rules"
| "load_sigma_files lower upper y env (None # entries) rules = Inl Glob_Entry_Error"
| "load_sigma_files lower upper y env (Some path # entries) rules =
     (case re_read env path of
        None \<Rightarrow> Inl (Read_Rule path)
      | Some raw \<Rightarrow>
          (case re_parse_yaml env raw of
             None \<Rightarrow> Inl (Parse_Rule path)
           | Some doc \<Rightarrow>
               load_sigma_files lower upper y env entries
                 (case translate_sigma lower upper y doc of Inr r \<Rightarrow> rules @ [r] | Inl _ \<Rightarrow> rules)))"

fun load_sigma_patterns ::
  "(string \<Rightarrow> string) \<Rightarrow> (string \<Rightarrow> string) \<Rightarrow> 'v yaml_api \<Rightarrow> 'v rule_env \<Rightarrow> string list \<Rightarrow> 'v rule list \<Rightarrow>
   rule_error + 'v rule list" where
  "load_sigma_patterns lower upper y env [] rules = Inr rules"
| "load_sigma_patterns lower upper y env (pattern # patterns) rules =
     (case re_glob env pattern of
        None \<Rightarrow> Inl Glob_Error
      | Some entries \<Rightarrow>
          bind_sum (load_sigma_files lower upper y env entries rules)
            (\<lambda>rules. load_sigma_patterns lower upper y env patterns rules))"

definition load_sigma_dir ::
  "(string \<Rightarrow> string) \<Rightarrow> (string \<Rightarrow> string) \<Rightarrow> 'v yaml_api \<Rightarrow> 'v rule_env \<Rightarrow> string \<Rightarrow> rule_error + 'v rule list" where
  "load_sigma_dir lower upper y env dir =
     (if \<not> re_is_dir env dir then Inr []
      else load_sigma_patterns lower upper y env
             [path_join dir ''**/*.yaml'', path_join dir ''**/*.yml''] [])"

text \<open>\<open>RuleEngine::load_from_config\<close>.\<close>

fun push_compiled ::
  "'v yaml_api \<Rightarrow> 're regex_api \<Rightarrow> 'v rule list \<Rightarrow> ('v, 're) rule_engine \<Rightarrow> rule_error + ('v, 're) rule_engine" where
  "push_compiled y rx [] engine = Inr engine"
| "push_compiled y rx (r # rs) engine =
     bind_sum (compiled_rule_new y rx r) (\<lambda>c. push_compiled y rx rs (engine @ [c]))"

definition load_from_config ::
  "(string \<Rightarrow> string) \<Rightarrow> (string \<Rightarrow> string) \<Rightarrow> 'v yaml_api \<Rightarrow> 're regex_api \<Rightarrow> 'v rule_env \<Rightarrow> config \<Rightarrow>
   rule_error + ('v, 're) rule_engine" where
  "load_from_config lower upper y rx env c =
     bind_sum (load_dir y rx env (cfg_rules_dir c)) (\<lambda>engine.
       case cfg_sigma_dir c of
         None \<Rightarrow> Inr engine
       | Some sigma_dir \<Rightarrow>
           bind_sum (load_sigma_dir lower upper y env sigma_dir) (\<lambda>imported.
             push_compiled y rx imported engine))"

subsection \<open>The shape of translated rules\<close>

definition sigma_fields :: "string list" where
  "sigma_fields = [''comm'', ''parent_comm'', ''path'', ''dst_addr'', ''dst_port'', ''kind'']"

definition sigma_condition :: "'v condition \<Rightarrow> bool" where
  "sigma_condition c \<longleftrightarrow>
     cd_field c \<in> set sigma_fields \<and> cd_op c \<in> {Eq, Suffix, Prefix, Contains, Regex}"

lemma map_sigma_field_sound: "map_sigma_field y fld v = Some c \<Longrightarrow> sigma_condition c"
  by (auto simp: map_sigma_field_def map_field_name_def modifier_op_def sigma_condition_def sigma_fields_def
      split: option.splits prod.splits if_splits)

lemma logsource_kind_sound: "logsource_kind y ls = Some k \<Longrightarrow> sigma_condition k"
  by (auto simp: logsource_kind_def sigma_condition_def sigma_fields_def Let_def
      split: option.splits if_splits)

lemma selection_conditions_sound: "c \<in> set (selection_conditions y m) \<Longrightarrow> sigma_condition c"
  by (auto simp: selection_conditions_def List.map_filter_def dest: map_sigma_field_sound)

definition good_selections :: "(string \<rightharpoonup> 'v condition list) \<Rightarrow> bool" where
  "good_selections m \<longleftrightarrow> (\<forall>cs \<in> ran m. cs \<noteq> [] \<and> list_all sigma_condition cs)"

lemma detection_selections_sound:
  "good_selections m \<Longrightarrow> good_selections (detection_selections y kvs m)"
proof (induction y kvs m rule: detection_selections.induct)
  case (1 y selections)
  then show ?case by simp
next
  case (2 y key "value" kvs selections)
  let ?name = "case y_as_str y key of Some s \<Rightarrow> s | None \<Rightarrow> []"
  have upd: "good_selections (selections(?name \<mapsto> conds))"
    if "conds = selection_conditions y cm" "conds \<noteq> []" for conds cm
    using 2(4) that selection_conditions_sound [of _ y cm]
    by (auto simp: good_selections_def ran_def list_all_iff split: if_splits)
  show ?case
  proof (cases "?name = ''condition''")
    case True
    with 2(1,4) show ?thesis by simp
  next
    case False
    show ?thesis
    proof (cases "y_as_mapping y value")
      case None
      with 2(2,4) False show ?thesis by simp
    next
      case (Some cm)
      with 2(3) [OF refl False Some refl] 2(4) False upd [of "selection_conditions y cm" cm]
      show ?thesis by (simp add: Let_def)
    qed
  qed
qed

lemma selected_sound:
  "good_selections m \<Longrightarrow> c \<in> set (selected m names) \<Longrightarrow> sigma_condition c"
proof -
  assume good: "good_selections m" and "c \<in> set (selected m names)"
  then obtain n where "c \<in> set (case m n of Some cs \<Rightarrow> cs | None \<Rightarrow> [])"
    by (auto simp: selected_def)
  then obtain cs where "m n = Some cs" "c \<in> set cs" by (cases "m n") auto
  with good show ?thesis by (auto simp: good_selections_def ran_def list_all_iff)
qed

lemma build_condition_group_sound:
  assumes "good_selections m" "build_condition_group expr m = Inr g"
  shows "iter_conditions g \<noteq> [] \<and> list_all sigma_condition (iter_conditions g)"
proof -
  have "selected m names \<noteq> [] \<Longrightarrow> list_all sigma_condition (selected m names)" for names
    using selected_sound [OF assms(1)] by (auto simp: list_all_iff)
  moreover have "m e = Some cs \<Longrightarrow> cs \<noteq> [] \<and> list_all sigma_condition cs" for e cs
    using assms(1) by (auto simp: good_selections_def ran_def)
  ultimately show ?thesis
    using assms(2) by (auto simp: build_condition_group_def Let_def split: option.splits if_splits)
qed

lemma iter_add_kind:
  "set (iter_conditions (add_kind k g)) =
     (case k of Some c \<Rightarrow> insert c (set (iter_conditions g)) | None \<Rightarrow> set (iter_conditions g))"
  by (cases g) (auto simp: add_kind_def split: option.split)

lemma map_level_range: "map_level tbl l \<in> {''low'', ''medium'', ''high'', ''critical''}"
  by (simp add: map_level_def Let_def)

text \<open>C22: Every translated Sigma rule is a proper native rule: its id starts with \<open>sigma-\<close>, its
  severity is one of the four levels, its only action is to alert, and it has at least one
  condition, each on one of the six fields the translation knows and none an inequality.\<close>

theorem translate_sigma_sound:
  assumes "translate_sigma lower upper y doc = Inr r"
  shows "prefix ''sigma-'' (ru_id r) \<and> ru_severity r \<in> {''low'', ''medium'', ''high'', ''critical''} \<and>
    ru_enabled r \<and> ru_actions r = [''alert''] \<and> iter_conditions (ru_conditions r) \<noteq> [] \<and>
    list_all sigma_condition (iter_conditions (ru_conditions r))"
proof -
  obtain detection where det: "y_get y doc ''detection'' = Some detection"
    using assms by (auto simp: translate_sigma_def Let_def split: option.splits)
  define sels where "sels = (case y_as_mapping y detection of
      Some m \<Rightarrow> detection_selections y m Map.empty | None \<Rightarrow> Map.empty)"
  have "good_selections Map.empty" by (simp add: good_selections_def)
  then have good: "good_selections sels"
    unfolding sels_def by (auto intro: detection_selections_sound split: option.split)
  obtain g where g: "build_condition_group (str_or ''selection'' (field_str y detection ''condition'')) sels = Inr g"
    and conds: "ru_conditions r = add_kind (logsource_kind y (y_get y doc ''logsource'')) g"
    and rest: "prefix ''sigma-'' (ru_id r)" "ru_severity r \<in> {''low'', ''medium'', ''high'', ''critical''}"
      "ru_enabled r" "ru_actions r = [''alert'']"
    using assms map_level_range unfolding sels_def
    by (auto simp: translate_sigma_def Let_def det bind_sum_Inr_iff)
  from build_condition_group_sound [OF good g] show ?thesis
    using rest logsource_kind_sound [of y "y_get y doc ''logsource''"] iter_add_kind [of "logsource_kind y (y_get y doc ''logsource'')" g]
    by (auto simp: conds list_all_iff split: option.splits)
qed

subsection \<open>A bundled rule\<close>

text \<open>\<open>sigma/shell_from_netcat.yml\<close> as a YAML value (the keys the translation reads).\<close>

definition nc_shell_doc :: yval where
  "nc_shell_doc = Y_Map
     [(Y_Str ''title'', Y_Str ''Shell Spawned by Netcat''),
      (Y_Str ''id'', Y_Str ''sentinel-sigma-nc-shell''),
      (Y_Str ''status'', Y_Str ''experimental''),
      (Y_Str ''description'', Y_Str ''Interactive shell spawned by netcat, consistent with reverse shell activity.''),
      (Y_Str ''logsource'', Y_Map
        [(Y_Str ''category'', Y_Str ''process_creation''), (Y_Str ''product'', Y_Str ''linux'')]),
      (Y_Str ''detection'', Y_Map
        [(Y_Str ''selection'', Y_Map
           [(Y_Str ''ParentImage|endswith'', Y_Str ''/nc''), (Y_Str ''Image|endswith'', Y_Str ''bash'')]),
         (Y_Str ''condition'', Y_Str ''selection'')]),
      (Y_Str ''level'', Y_Str ''critical''),
      (Y_Str ''tags'', Y_Seq [Y_Str ''attack.t1059.004'', Y_Str ''attack.execution''])]"

definition nc_shell_rule :: "yval rule" where
  "nc_shell_rule =
     \<lparr>ru_id = ''sigma-sentinel-sigma-nc-shell'', ru_title = ''Shell Spawned by Netcat'',
      ru_description = ''Interactive shell spawned by netcat, consistent with reverse shell activity.'',
      ru_severity = ''critical'', ru_enabled = True,
      ru_tags = [''attack.t1059.004'', ''attack.execution''],
      ru_mitre = Some \<lparr>ma_tactic = [], ma_technique = ''T1059.004'', ma_subtechnique = None\<rparr>,
      ru_conditions = CG_All
        [\<lparr>cd_field = ''kind'', cd_op = Eq, cd_value = Y_Str ''exec''\<rparr>,
         \<lparr>cd_field = ''parent_comm'', cd_op = Suffix, cd_value = Y_Str ''nc''\<rparr>,
         \<lparr>cd_field = ''comm'', cd_op = Suffix, cd_value = Y_Str ''bash''\<rparr>],
      ru_actions = [''alert'']\<rparr>"

lemma translate_nc_shell: "translate_sigma lower upper yval_api nc_shell_doc = Inr nc_shell_rule"
  by code_simp

theorem translate_sigma_sound_witness:
  "prefix ''sigma-'' (ru_id nc_shell_rule) \<and>
   list_all sigma_condition (iter_conditions (ru_conditions nc_shell_rule))"
  using translate_sigma_sound [OF translate_nc_shell] by blast

lemma nc_shell_plain: "list_all (plain_condition yval_api) (iter_conditions (ru_conditions nc_shell_rule))"
  by (simp add: nc_shell_rule_def plain_condition_def)

lemma nc_shell_matches:
  assumes "compiled_rule_new yval_api rx nc_shell_rule = Inr c"
  shows "matches lower yval_api rx c event \<longleftrightarrow>
    eq_ignore_ascii_case (to_lowercase lower (ee_kind event)) ''exec'' \<and>
    suffix ''nc'' (ee_parent_comm event) \<and> suffix ''bash'' (ee_comm event)"
proof -
  have "matches lower yval_api rx c event \<longleftrightarrow> group_holds lower yval_api rx (ru_conditions nc_shell_rule) event"
    using matches_compiled [OF assms] nc_shell_plain by simp
  also have "\<dots> \<longleftrightarrow> eq_ignore_ascii_case (to_lowercase lower (ee_kind event)) ''exec'' \<and>
        suffix ''nc'' (ee_parent_comm event) \<and> suffix ''bash'' (ee_comm event)"
    by (simp add: nc_shell_rule_def cond_holds_def match_condition_def field_def values_equal_def
        value_as_str_def yval_api_def)
  finally show ?thesis .
qed

text \<open>The Sigma rule bundled with the agent, translated and compiled, raises its alert for an event
  exactly when the kind is \<open>exec\<close> in any case of letters, the parent's name ends with \<open>nc\<close> and the
  program's with \<open>bash\<close>. The translation drops the slash of \<open>'/nc'\<close>, so every parent whose name
  ends with \<open>nc\<close> will do, \<open>rsync\<close> for one.\<close>

theorem nc_shell_fires_iff:
  assumes "translate_sigma lower upper yval_api nc_shell_doc = Inr r" "compiled_rule_new yval_api rx r = Inr c"
  shows "map al_rule_id (evaluate lower yval_api rx [c] event) =
    (if eq_ignore_ascii_case (to_lowercase lower (ee_kind event)) ''exec'' \<and>
        suffix ''nc'' (ee_parent_comm event) \<and> suffix ''bash'' (ee_comm event)
     then [''sigma-sentinel-sigma-nc-shell''] else [])"
proof -
  have r: "r = nc_shell_rule" using assms(1) by (simp add: translate_nc_shell)
  have c: "cr_rule c = nc_shell_rule"
    using compiled_rule_newD [OF assms(2)] r by simp
  show ?thesis
    using c nc_shell_matches [OF assms(2) [unfolded r]] by (simp add: alert_of_def nc_shell_rule_def)
qed

theorem nc_shell_fires_iff_witness:
  "case compiled_rule_new yval_api literal_regex nc_shell_rule of
     Inr c \<Rightarrow> map al_rule_id (evaluate id yval_api literal_regex [c] (sample_enriched ''exec'' ''bash'' ''rsync'')) =
       [''sigma-sentinel-sigma-nc-shell'']
   | Inl _ \<Rightarrow> False"
proof -
  obtain c where c: "compiled_rule_new yval_api literal_regex nc_shell_rule = Inr c"
    by (simp add: compiled_rule_new_def nc_shell_rule_def)
  have "to_lowercase id ''exec'' = ''exec''" by code_simp
  with nc_shell_fires_iff [OF translate_nc_shell [of id id] c, of "sample_enriched ''exec'' ''bash'' ''rsync''"] c
  show ?thesis by (simp add: sample_enriched_def suffix_def)
qed

subsection \<open>Where the translation loses the meaning of a rule\<close>

text \<open>A field whose value is a list, which in Sigma means any of its elements, becomes a condition
  that no event satisfies.\<close>

theorem sigma_list_never_matches:
  assumes "map_sigma_field yval_api fld (Y_Seq vs) = Some c"
  shows "\<not> cond_holds tbl yval_api rx c event"
proof -
  have v: "cd_value c = Y_Seq vs"
    using assms by (auto simp: map_sigma_field_def normalize_sigma_value_def yval_api_def
        split: option.splits prod.splits)
  have op: "cd_op c \<in> {Eq, Suffix, Prefix, Contains, Regex}"
    using map_sigma_field_sound [OF assms] by (simp add: sigma_condition_def)
  show ?thesis
    using op v by (auto simp: cond_holds_def match_condition_def values_equal_def value_as_u64_def
        value_as_str_def yval_api_def split: option.split)
qed

theorem sigma_list_never_matches_witness:
  "\<exists>c. map_sigma_field yval_api ''Image|endswith'' (Y_Seq [Y_Str ''/bash'', Y_Str ''/sh'']) = Some c \<and>
     \<not> cond_holds id yval_api literal_regex c (sample_enriched ''exec'' ''bash'' ''nc'')"
proof -
  have "\<exists>c. map_sigma_field yval_api ''Image|endswith'' (Y_Seq [Y_Str ''/bash'', Y_Str ''/sh'']) = Some c"
    by (simp add: map_sigma_field_def map_field_name_def)
  then show ?thesis using sigma_list_never_matches by blast
qed

text \<open>\<open>1 of\<close> takes the selections it lists apart. Without a log source, one condition of one
  selection is enough; with one, every condition of every listed selection is required.\<close>

theorem one_of_selections:
  assumes "build_condition_group (''1 of '' @ inner) sels = Inr g"
    "trim (''1 of '' @ inner) = ''1 of '' @ inner"
  shows "(group_holds tbl y rx (add_kind None g) event \<longleftrightarrow>
      (\<exists>n \<in> set (parse_of_list inner). \<exists>cs. sels n = Some cs \<and> (\<exists>c \<in> set cs. cond_holds tbl y rx c event))) \<and>
    (group_holds tbl y rx (add_kind (Some k) g) event \<longleftrightarrow> cond_holds tbl y rx k event \<and>
      (\<forall>n \<in> set (parse_of_list inner). \<forall>cs. sels n = Some cs \<longrightarrow> (\<forall>c \<in> set cs. cond_holds tbl y rx c event)))"
proof -
  have "strip_prefix ''all of '' (''1 of '' @ inner) = None" "strip_prefix ''1 of '' (''1 of '' @ inner) = Some inner"
    by (simp_all add: strip_prefix_def)
  then have g: "g = CG_Any (selected sels (parse_of_list inner))"
    using assms by (auto simp: build_condition_group_def Let_def split: if_splits)
  have mem: "c \<in> set (selected sels ns) \<longleftrightarrow> (\<exists>n \<in> set ns. \<exists>cs. sels n = Some cs \<and> c \<in> set cs)" for c ns
  proof -
    have "c \<in> set (case sels n of Some cs \<Rightarrow> cs | None \<Rightarrow> []) \<longleftrightarrow> (\<exists>cs. sels n = Some cs \<and> c \<in> set cs)" for n
      by (cases "sels n") simp_all
    then show ?thesis by (simp add: selected_def)
  qed
  have any: "(\<exists>c \<in> set (selected sels ns). P c) \<longleftrightarrow> (\<exists>n \<in> set ns. \<exists>cs. sels n = Some cs \<and> (\<exists>c \<in> set cs. P c))"
    and all: "(\<forall>c \<in> set (selected sels ns). P c) \<longleftrightarrow> (\<forall>n \<in> set ns. \<forall>cs. sels n = Some cs \<longrightarrow> (\<forall>c \<in> set cs. P c))"
    for P ns
    using mem [of _ ns] by meson+
  show ?thesis
    by (simp add: g add_kind_def any all)
qed

theorem one_of_selections_witness:
  "let sels = [''a'' \<mapsto> [\<lparr>cd_field = ''comm'', cd_op = Eq, cd_value = Y_Str ''sh''\<rparr>,
                      \<lparr>cd_field = ''parent_comm'', cd_op = Eq, cd_value = Y_Str ''nc''\<rparr>]]
   in case build_condition_group ''1 of a'' sels of
        Inr g \<Rightarrow> group_holds id yval_api literal_regex (add_kind None g) (sample_enriched ''exec'' ''sh'' ''make'')
      | Inl _ \<Rightarrow> False"
proof -
  let ?shell = "\<lparr>cd_field = ''comm'', cd_op = Eq, cd_value = Y_Str ''sh''\<rparr>"
  let ?cs = "[?shell, \<lparr>cd_field = ''parent_comm'', cd_op = Eq, cd_value = Y_Str ''nc''\<rparr>]"
  let ?event = "sample_enriched ''exec'' ''sh'' ''make''"
  have names: "parse_of_list ''a'' = [''a'']" by code_simp
  have expr: "trim (''1 of '' @ ''a'') = ''1 of '' @ ''a''" by code_simp
  then have g: "build_condition_group (''1 of '' @ ''a'') [''a'' \<mapsto> ?cs] = Inr (CG_Any ?cs)"
    by (simp add: build_condition_group_def strip_prefix_def names selected_def)
  have "cond_holds id yval_api literal_regex ?shell ?event"
    by (simp add: cond_holds_def match_condition_def field_def values_equal_def yval_api_def sample_enriched_def)
  then have "group_holds id yval_api literal_regex (add_kind None (CG_Any ?cs)) ?event"
    by (intro one_of_selections [OF g expr, THEN conjunct1, THEN iffD2]) (auto simp: names)
  with g show ?thesis by (simp add: Let_def)
qed

subsection \<open>The whole rule set\<close>

lemma push_compiled_iff:
  "push_compiled y rx rs engine = Inr engine' \<longleftrightarrow>
     (\<exists>cs. list_all2 (\<lambda>r c. compiled_rule_new y rx r = Inr c) rs cs \<and> engine' = engine @ cs)"
  by (induction rs arbitrary: engine) (auto simp: bind_sum_Inr_iff list_all2_Cons1)

definition translated_rules ::
  "(string \<Rightarrow> string) \<Rightarrow> (string \<Rightarrow> string) \<Rightarrow> 'v yaml_api \<Rightarrow> 'v list \<Rightarrow> 'v rule list" where
  "translated_rules lower upper y docs =
     List.map_filter (\<lambda>doc. case translate_sigma lower upper y doc of Inr r \<Rightarrow> Some r | Inl _ \<Rightarrow> None) docs"

fun documents :: "'v rule_env \<Rightarrow> string list \<Rightarrow> 'v list option" where
  "documents env [] = Some []"
| "documents env (path # paths) =
     (case re_read env path of
        None \<Rightarrow> None
      | Some raw \<Rightarrow>
          (case (re_parse_yaml env raw, documents env paths) of
             (Some doc, Some docs) \<Rightarrow> Some (doc # docs)
           | _ \<Rightarrow> None))"

lemma translated_rules_append: "translated_rules lower upper y (ds @ es) = translated_rules lower upper y ds @ translated_rules lower upper y es"
  by (simp add: translated_rules_def map_filter_def)

lemma load_sigma_files_iff:
  "load_sigma_files lower upper y env entries acc = Inr rules \<longleftrightarrow>
     None \<notin> set entries \<and>
     (\<exists>docs. documents env (map the entries) = Some docs \<and> rules = acc @ translated_rules lower upper y docs)"
proof (induction entries arbitrary: acc)
  case Nil
  then show ?case by (auto simp: translated_rules_def map_filter_def)
next
  case (Cons entry entries)
  then show ?case
    by (cases entry)
      (auto simp: translated_rules_def map_filter_def split: option.splits sum.splits)
qed

text \<open>C34: The engine holds the native rules and, after them, the Sigma rules that can be translated:
  those of the \<open>.yaml\<close> files and then of the \<open>.yml\<close> files of the Sigma directory when it exists.
  Native ids are distinct; a Sigma rule may carry the id of a native rule or of another.\<close>

theorem load_from_config_iff:
  "load_from_config lower upper y rx env c = Inr engine \<longleftrightarrow>
     (\<exists>native. load_dir y rx env (cfg_rules_dir c) = Inr native \<and>
        (case cfg_sigma_dir c of
           None \<Rightarrow> engine = native
         | Some dir \<Rightarrow>
             if re_is_dir env dir
             then (\<exists>e1 e2 d1 d2 sigma.
               re_glob env (path_join dir ''**/*.yaml'') = Some e1 \<and> re_glob env (path_join dir ''**/*.yml'') = Some e2 \<and>
               None \<notin> set (e1 @ e2) \<and>
               documents env (map the e1) = Some d1 \<and> documents env (map the e2) = Some d2 \<and>
               list_all2 (\<lambda>r c. compiled_rule_new y rx r = Inr c) (translated_rules lower upper y (d1 @ d2)) sigma \<and>
               engine = native @ sigma)
             else engine = native))"
proof (cases "cfg_sigma_dir c")
  case None
  then show ?thesis by (simp add: load_from_config_def bind_sum_Inr_iff)
next
  case (Some dir)
  show ?thesis
  proof (cases "re_is_dir env dir")
    case False
    with Some show ?thesis
      by (auto simp: load_from_config_def bind_sum_Inr_iff load_sigma_dir_def push_compiled_iff)
  next
    case True
    have dir_rules: "load_sigma_dir lower upper y env dir = Inr rules \<longleftrightarrow>
        (\<exists>e1 e2 d1 d2. re_glob env (path_join dir ''**/*.yaml'') = Some e1 \<and>
          re_glob env (path_join dir ''**/*.yml'') = Some e2 \<and> None \<notin> set (e1 @ e2) \<and>
          documents env (map the e1) = Some d1 \<and> documents env (map the e2) = Some d2 \<and>
          rules = translated_rules lower upper y (d1 @ d2))" for rules
      by (auto simp: load_sigma_dir_def True bind_sum_Inr_iff load_sigma_files_iff translated_rules_append
          split: option.splits)
    show ?thesis
      unfolding load_from_config_def bind_sum_Inr_iff Some option.case dir_rules push_compiled_iff
      using True by auto
  qed
qed

end
