(* ===== verification/Suppress.thy ===== *)
theory Suppress
  imports Config
begin

text \<open>
  \<open>suppress.rs\<close>: the per-rule, per-process alert rate limit. Each pair of a rule and a process
  has a queue of the time stamps of the alerts let through; \<open>allow\<close> drops the stamps older than
  the window from its front and lets the alert through while the queue is shorter than the
  limit. The abstract specification counts, in the history of alerts let through, those inside
  the window; the two agree on every run whose time stamps do not go back.

  The mutexes of the source serialise the calls and are never poisoned (no code panics while
  holding one), so a call is a function of the state.
\<close>

record rate_limit =
  rl_max_alerts :: u32
  rl_window_ns :: u64

definition rate_limit_from :: "rate_limit_config \<Rightarrow> rate_limit" where
  "rate_limit_from cfg =
     \<lparr>rl_max_alerts = rlc_max_alerts cfg,
      rl_window_ns = saturating_mul (rlc_window_secs cfg) 1000000000\<rparr>"

type_synonym bucket_key = "string \<times> u32"

record suppressor =
  sp_default :: rate_limit
  sp_per_rule :: "string \<rightharpoonup> rate_limit"
  sp_buckets :: "bucket_key \<rightharpoonup> u64 list"
  sp_suppressed :: u64

definition new_suppressor :: "suppression_config \<Rightarrow> suppressor" where
  "new_suppressor cfg =
     \<lparr>sp_default = rate_limit_from (sup_default cfg),
      sp_per_rule = map_option rate_limit_from \<circ> sup_rules cfg,
      sp_buckets = Map.empty,
      sp_suppressed = 0\<rparr>"

definition limit_of :: "suppressor \<Rightarrow> string \<Rightarrow> rate_limit" where
  "limit_of s rule_id =
     (case sp_per_rule s rule_id of Some l \<Rightarrow> l | None \<Rightarrow> sp_default s)"

definition allow :: "suppressor \<Rightarrow> string \<Rightarrow> u32 \<Rightarrow> u64 \<Rightarrow> bool \<times> suppressor" where
  "allow s rule_id pid timestamp_ns =
     (let limit = limit_of s rule_id
      in if rl_max_alerts limit = 0 then (False, s)
         else
           (let bucket = (case sp_buckets s (rule_id, pid) of Some b \<Rightarrow> b | None \<Rightarrow> []);
                cutoff = saturating_sub timestamp_ns (rl_window_ns limit);
                bucket' = dropWhile (\<lambda>ts. ts < cutoff) bucket
            in if unat (rl_max_alerts limit) \<le> length bucket' then
                 (False, s\<lparr>sp_buckets := (sp_buckets s)((rule_id, pid) \<mapsto> bucket'),
                           sp_suppressed := sp_suppressed s + 1\<rparr>)
               else
                 (True, s\<lparr>sp_buckets :=
                           (sp_buckets s)((rule_id, pid) \<mapsto> bucket' @ [timestamp_ns])\<rparr>)))"

definition suppressed_total :: "suppressor \<Rightarrow> u64" where
  "suppressed_total s = sp_suppressed s"

subsection \<open>Single calls\<close>

definition bucket_of :: "suppressor \<Rightarrow> bucket_key \<Rightarrow> u64 list" where
  "bucket_of s k = (case sp_buckets s k of Some b \<Rightarrow> b | None \<Rightarrow> [])"

definition live_bucket :: "suppressor \<Rightarrow> string \<Rightarrow> u32 \<Rightarrow> u64 \<Rightarrow> u64 list" where
  "live_bucket s r p t =
     dropWhile (\<lambda>ts. ts < saturating_sub t (rl_window_ns (limit_of s r))) (bucket_of s (r, p))"

lemma fst_allow:
  "fst (allow s r p t) \<longleftrightarrow> length (live_bucket s r p t) < unat (rl_max_alerts (limit_of s r))"
  by (auto simp: allow_def Let_def live_bucket_def bucket_of_def unat_eq_0)

lemma limit_of_update [simp]:
  "limit_of (s\<lparr>sp_buckets := b\<rparr>) = limit_of s"
  "limit_of (s\<lparr>sp_suppressed := n\<rparr>) = limit_of s"
  by (simp_all add: fun_eq_iff limit_of_def split: option.split)

lemma limit_of_allow [simp]: "limit_of (snd (allow s r p t)) = limit_of s"
  by (simp add: allow_def Let_def)

lemma bucket_of_allow:
  "bucket_of (snd (allow s r p t)) k =
     (if k \<noteq> (r, p) \<or> rl_max_alerts (limit_of s r) = 0 then bucket_of s k
      else live_bucket s r p t @ (if fst (allow s r p t) then [t] else []))"
  by (auto simp: allow_def Let_def live_bucket_def bucket_of_def)

lemma suppressed_allow:
  "sp_suppressed (snd (allow s r p t)) =
     sp_suppressed s +
       (if fst (allow s r p t) \<or> rl_max_alerts (limit_of s r) = 0 then 0 else 1)"
  by (auto simp: allow_def Let_def)

text \<open>Queue lengths are bounded by the limit: the memory a key can take is bounded.\<close>

definition buckets_bounded :: "suppressor \<Rightarrow> bool" where
  "buckets_bounded s \<longleftrightarrow> (\<forall>r p. length (bucket_of s (r, p)) \<le> unat (rl_max_alerts (limit_of s r)))"

lemma length_live_bucket: "length (live_bucket s r p t) \<le> length (bucket_of s (r, p))"
  by (simp add: live_bucket_def length_dropWhile_le)

lemma allow_bounded:
  assumes "buckets_bounded s"
  shows "buckets_bounded (snd (allow s r p t))"
proof -
  have b: "length (bucket_of s (r', p')) \<le> unat (rl_max_alerts (limit_of s r'))" for r' p'
    using assms by (simp add: buckets_bounded_def)
  have "length (live_bucket s r p t) \<le> unat (rl_max_alerts (limit_of s r))"
    using length_live_bucket b by (rule order_trans)
  with b show ?thesis
    by (auto simp: buckets_bounded_def bucket_of_allow fst_allow)
qed

lemma new_suppressor_simps [simp]:
  "bucket_of (new_suppressor cfg) k = []" "sp_suppressed (new_suppressor cfg) = 0"
  by (simp_all add: new_suppressor_def bucket_of_def)

lemma new_suppressor_bounded: "buckets_bounded (new_suppressor cfg)"
  by (simp add: buckets_bounded_def)

lemma limit_of_new:
  "limit_of (new_suppressor cfg) r =
     rate_limit_from (case sup_rules cfg r of Some l \<Rightarrow> l | None \<Rightarrow> sup_default cfg)"
  by (simp add: limit_of_def new_suppressor_def split: option.split)

subsection \<open>Runs\<close>

text \<open>A request is a rule, a process and a time stamp.\<close>

type_synonym request = "string \<times> u32 \<times> u64"

definition allow_step :: "suppressor \<Rightarrow> request \<Rightarrow> bool \<times> suppressor" where
  "allow_step s q = (case q of (r, p, t) \<Rightarrow> allow s r p t)"

definition req_key :: "request \<Rightarrow> bucket_key" where
  "req_key q = (case q of (r, p, t) \<Rightarrow> (r, p))"

definition req_time :: "request \<Rightarrow> u64" where
  "req_time q = (case q of (r, p, t) \<Rightarrow> t)"

text \<open>The time stamps let through for a key, in order.\<close>

definition granted :: "bucket_key \<Rightarrow> request list \<Rightarrow> bool list \<Rightarrow> u64 list" where
  "granted k qs bs = map (req_time \<circ> fst) (filter (\<lambda>(q, b). req_key q = k \<and> b) (zip qs bs))"

lemma granted_Cons [simp]:
  "granted k (q # qs) (b # bs) = (if req_key q = k \<and> b then [req_time q] else []) @ granted k qs bs"
  by (simp add: granted_def)

lemma granted_Nil [simp]: "granted k [] bs = []"
  by (simp add: granted_def)

subsection \<open>The abstract rate limit\<close>

text \<open>
  The history of granted requests and the clock are all the state there is. A request is
  granted when fewer than the limit of the key's granted stamps lie in the window that ends
  at the request.
\<close>

record rate_spec =
  rs_now :: u64
  rs_history :: "bucket_key \<Rightarrow> u64 list"

definition in_window :: "rate_limit \<Rightarrow> u64 \<Rightarrow> u64 \<Rightarrow> bool" where
  "in_window l now ts \<longleftrightarrow> saturating_sub now (rl_window_ns l) \<le> ts"

definition spec_step :: "(string \<Rightarrow> rate_limit) \<Rightarrow> rate_spec \<Rightarrow> request \<Rightarrow> bool \<times> rate_spec" where
  "spec_step lim a q =
     (case q of (r, p, t) \<Rightarrow>
        let h = rs_history a (r, p);
            grant = length (filter (in_window (lim r) t) h) < unat (rl_max_alerts (lim r))
        in (grant, \<lparr>rs_now = t, rs_history =
              (if grant then (rs_history a)((r, p) := h @ [t]) else rs_history a)\<rparr>))"

definition spec_init :: rate_spec where
  "spec_init = \<lparr>rs_now = 0, rs_history = (\<lambda>_. [])\<rparr>"

definition not_before :: "rate_spec \<Rightarrow> request \<Rightarrow> bool" where
  "not_before a q \<longleftrightarrow> rs_now a \<le> req_time q"

text \<open>The window only moves forward.\<close>

lemma saturating_sub_mono: "a \<le> b \<Longrightarrow> saturating_sub a w \<le> saturating_sub b w"
  by (simp add: word_le_nat_alt unat_saturating_sub)

lemma in_window_mono: "now \<le> t \<Longrightarrow> in_window l t x \<Longrightarrow> in_window l now x"
  unfolding in_window_def using saturating_sub_mono [of now t "rl_window_ns l"] by auto

lemma filter_window_shrink:
  "now \<le> t \<Longrightarrow> filter (in_window l now) xs = filter (in_window l now) ys \<Longrightarrow>
   filter (in_window l t) xs = filter (in_window l t) ys"
proof -
  assume le: "now \<le> t" and eq: "filter (in_window l now) xs = filter (in_window l now) ys"
  have "filter (in_window l t) (filter (in_window l now) zs) = filter (in_window l t) zs" for zs
    using in_window_mono [OF le] by (auto intro: filter_cong)
  then show ?thesis using eq by metis
qed

text \<open>
  The simulation: a queue is sorted, ends at the clock, and agrees with the history on the
  stamps that are still inside the window.
\<close>

definition rate_rel :: "(string \<Rightarrow> rate_limit) \<Rightarrow> suppressor \<Rightarrow> rate_spec \<Rightarrow> bool" where
  "rate_rel lim s a \<longleftrightarrow> limit_of s = lim \<and>
     (\<forall>r p. sorted (bucket_of s (r, p)) \<and> (\<forall>x \<in> set (bucket_of s (r, p)). x \<le> rs_now a) \<and>
       filter (in_window (lim r) (rs_now a)) (bucket_of s (r, p)) =
       filter (in_window (lim r) (rs_now a)) (rs_history a (r, p)))"

lemma rate_relD:
  assumes "rate_rel lim s a"
  shows "limit_of s = lim" "sorted (bucket_of s (r, p))"
    "x \<in> set (bucket_of s (r, p)) \<Longrightarrow> x \<le> rs_now a"
    "filter (in_window (lim r) (rs_now a)) (bucket_of s (r, p)) =
     filter (in_window (lim r) (rs_now a)) (rs_history a (r, p))"
  using assms by (simp_all add: rate_rel_def)

lemma live_bucket_filter:
  assumes "rate_rel lim s a" "rs_now a \<le> t"
  shows "live_bucket s r p t = filter (in_window (lim r) t) (rs_history a (r, p))"
proof -
  have "live_bucket s r p t = filter (\<lambda>x. \<not> x < saturating_sub t (rl_window_ns (lim r))) (bucket_of s (r, p))"
    unfolding live_bucket_def rate_relD(1) [OF assms(1)]
    by (rule filter_takeWhile_sorted) (rule rate_relD(2) [OF assms(1)])
  also have "\<dots> = filter (in_window (lim r) t) (bucket_of s (r, p))"
    by (rule filter_cong) (auto simp: in_window_def)
  also have "\<dots> = filter (in_window (lim r) t) (rs_history a (r, p))"
    using assms(2) rate_relD(4) [OF assms(1)] by (rule filter_window_shrink)
  finally show ?thesis .
qed

lemma allow_answer:
  assumes rel: "rate_rel lim s a" and nb: "not_before a q"
  shows "fst (allow_step s q) = fst (spec_step lim a q)"
proof -
  obtain r p t where q: "q = (r, p, t)" by (cases q)
  with nb have "rs_now a \<le> t" by (simp add: not_before_def req_time_def)
  then show ?thesis
    by (simp add: q allow_step_def spec_step_def Let_def fst_allow live_bucket_filter [OF rel]
        rate_relD(1) [OF rel])
qed

lemma spec_step_now: "rs_now (snd (spec_step lim a q)) = req_time q"
  by (simp add: spec_step_def req_time_def Let_def split: prod.split)

lemma spec_step_history:
  "rs_history (snd (spec_step lim a q)) k =
     rs_history a k @ (if req_key q = k \<and> fst (spec_step lim a q) then [req_time q] else [])"
  by (auto simp: spec_step_def req_time_def req_key_def Let_def split: prod.split)

lemma live_bucket_sorted:
  "rate_rel lim s a \<Longrightarrow> sorted (live_bucket s r p t)"
  unfolding live_bucket_def by (rule sorted_dropWhile) (rule rate_relD(2))

lemma allow_related:
  assumes rel: "rate_rel lim s a" and nb: "not_before a q"
  shows "rate_rel lim (snd (allow_step s q)) (snd (spec_step lim a q))"
proof -
  obtain r p t where q: "q = (r, p, t)" by (cases q)
  let ?s' = "snd (allow s r p t)" and ?a' = "snd (spec_step lim a q)"
  have le: "rs_now a \<le> t" using nb by (simp add: q not_before_def req_time_def)
  have now: "rs_now ?a' = t" by (simp add: spec_step_now q req_time_def)
  have ans: "fst (spec_step lim a (r, p, t)) = fst (allow s r p t)"
    using allow_answer [OF rel nb] by (simp add: q allow_step_def)
  have inw: "in_window (lim r') t t" for r'
    by (simp add: in_window_def word_le_nat_alt unat_saturating_sub)
  have key: "sorted (bucket_of ?s' (r', p')) \<and> (\<forall>x \<in> set (bucket_of ?s' (r', p')). x \<le> t) \<and>
      filter (in_window (lim r') t) (bucket_of ?s' (r', p')) =
      filter (in_window (lim r') t) (rs_history ?a' (r', p'))" for r' p'
  proof (cases "(r', p') \<noteq> (r, p) \<or> rl_max_alerts (lim r) = 0")
    case True
    then have h: "rs_history ?a' (r', p') = rs_history a (r', p')"
      by (auto simp: spec_step_history q req_key_def ans fst_allow rate_relD(1) [OF rel])
    have b: "bucket_of ?s' (r', p') = bucket_of s (r', p')"
      using True by (auto simp: bucket_of_allow rate_relD(1) [OF rel])
    have "\<forall>x \<in> set (bucket_of s (r', p')). x \<le> t"
      using rate_relD(3) [OF rel] le order_trans by blast
    then show ?thesis
      using rate_relD(2) [OF rel] filter_window_shrink [OF le rate_relD(4) [OF rel]]
      by (simp add: h b)
  next
    case False
    then have k: "r' = r" "p' = p" and m: "rl_max_alerts (lim r) \<noteq> 0" by auto
    let ?new = "if fst (allow s r p t) then [t] else []"
    have b: "bucket_of ?s' (r, p) = live_bucket s r p t @ ?new"
      using m by (simp add: bucket_of_allow rate_relD(1) [OF rel])
    have h: "rs_history ?a' (r, p) = rs_history a (r, p) @ ?new"
      by (simp add: spec_step_history q req_key_def req_time_def ans)
    have lt: "x \<le> t" if "x \<in> set (live_bucket s r p t)" for x
      using that rate_relD(3) [OF rel] le unfolding live_bucket_def
      by (meson order_trans set_dropWhileD)
    have "filter (in_window (lim r) t) (live_bucket s r p t) = live_bucket s r p t"
      by (simp add: live_bucket_filter [OF rel le])
    moreover have "sorted (filter (in_window (lim r) t) (rs_history a (r, p)))"
      using live_bucket_sorted [OF rel, of r p t] by (simp add: live_bucket_filter [OF rel le])
    ultimately show ?thesis
      using lt by (auto simp: k b h sorted_append live_bucket_filter [OF rel le] inw)
  qed
  show ?thesis
    unfolding rate_rel_def using key now rate_relD(1) [OF rel] by (simp add: q allow_step_def)
qed

interpretation rate: forward_simulation allow_step "spec_step lim" not_before "rate_rel lim" for lim
  by unfold_locales (rule allow_answer allow_related; assumption)+

text \<open>Time stamps that do not go back are admissible.\<close>

lemma admissible_sorted:
  "sorted (map req_time qs) \<Longrightarrow> (\<forall>q \<in> set qs. rs_now a \<le> req_time q) \<Longrightarrow>
   admissible (spec_step lim) not_before a qs"
  by (induction qs arbitrary: a) (simp_all add: not_before_def spec_step_now)

lemma rate_rel_init: "rate_rel (limit_of (new_suppressor cfg)) (new_suppressor cfg) spec_init"
  by (simp add: rate_rel_def spec_init_def)

text \<open>C1: On requests whose time stamps do not go back, the queue-based suppressor gives exactly
  the answers of the abstract rate limit, which counts the key's earlier granted alerts inside
  the window: the eviction from the front of the queue loses nothing and keeps nothing stale.\<close>

theorem allow_refines_spec:
  assumes "sorted (map req_time qs)"
  shows "fst (run allow_step (new_suppressor cfg) qs) =
    fst (run (spec_step (limit_of (new_suppressor cfg))) spec_init qs)"
  using rate.run_refines [OF rate_rel_init] admissible_sorted [OF assms] by (simp add: spec_init_def)

theorem allow_refines_spec_witness:
  "fst (run allow_step (new_suppressor suppression_config_default) [(''R1'', 1, 5), (''R1'', 1, 9)]) =
   [True, True]"
  by (subst allow_refines_spec)
    (simp_all add: req_time_def spec_step_def spec_init_def Let_def limit_of_new
      suppression_config_default_def rate_limit_config_default_def rate_limit_from_def
      default_max_alerts_def)

subsection \<open>The rate bound\<close>

text \<open>
  The invariant of the abstract limit: histories are sorted and end at the clock, and no window
  of a key holds more granted stamps than the limit.
\<close>

definition window_count :: "rate_limit \<Rightarrow> u64 \<Rightarrow> u64 list \<Rightarrow> nat" where
  "window_count l t xs = length (filter (\<lambda>x. in_window l t x \<and> x \<le> t) xs)"

definition rate_ok :: "(string \<Rightarrow> rate_limit) \<Rightarrow> rate_spec \<Rightarrow> bool" where
  "rate_ok lim a \<longleftrightarrow>
     (\<forall>r p. (\<forall>x \<in> set (rs_history a (r, p)). x \<le> rs_now a) \<and>
       (\<forall>t. window_count (lim r) t (rs_history a (r, p)) \<le> unat (rl_max_alerts (lim r))))"

lemma window_count_snoc:
  assumes "\<forall>x \<in> set xs. x \<le> t0" "window_count l t xs \<le> m"
    "length (filter (in_window l t0) xs) < m"
  shows "window_count l t (xs @ [t0]) \<le> m"
proof (cases "t0 \<le> t")
  case True
  have "window_count l t xs \<le> length (filter (in_window l t0) xs)"
    unfolding window_count_def length_filter_conv_card
    by (rule card_mono) (auto intro: in_window_mono [OF True])
  with assms(3) show ?thesis by (simp add: window_count_def)
next
  case False
  with assms(2) show ?thesis by (simp add: window_count_def)
qed

lemma spec_step_rate_ok:
  assumes ok: "rate_ok lim a" and nb: "not_before a q"
  shows "rate_ok lim (snd (spec_step lim a q))"
proof -
  obtain r p t where q: "q = (r, p, t)" by (cases q)
  have le: "rs_now a \<le> t" using nb by (simp add: q not_before_def req_time_def)
  have old: "x \<le> t" if "x \<in> set (rs_history a (r', p'))" for x r' p'
    using ok that le unfolding rate_ok_def by (meson order_trans)
  have cnt: "window_count (lim r') t' (rs_history a (r', p')) \<le> unat (rl_max_alerts (lim r'))" for r' p' t'
    using ok by (simp add: rate_ok_def)
  have grant: "fst (spec_step lim a (r, p, t)) \<longleftrightarrow>
      length (filter (in_window (lim r) t) (rs_history a (r, p))) < unat (rl_max_alerts (lim r))"
    by (simp add: spec_step_def Let_def)
  show ?thesis
    using old cnt grant
    by (auto simp: rate_ok_def q spec_step_now spec_step_history req_key_def req_time_def
        intro: window_count_snoc)
qed

lemma spec_run_rate_ok:
  "rate_ok lim a \<Longrightarrow> admissible (spec_step lim) not_before a qs \<Longrightarrow>
   rate_ok lim (snd (run (spec_step lim) a qs))"
  by (induction qs arbitrary: a) (simp_all add: run_Cons spec_step_rate_ok del: run.simps(2))

lemma spec_run_history:
  "rs_history (snd (run (spec_step lim) a qs)) k =
   rs_history a k @ granted k qs (fst (run (spec_step lim) a qs))"
  by (induction qs arbitrary: a) (simp_all add: run_Cons spec_step_history del: run.simps(2))

text \<open>The rate limit holds. Over any run of requests whose time stamps do not go back, and for
  every rule, every process and every instant \<open>t\<close>, at most the rule's limit of the alerts let
  through have a time stamp in the window of the rule that ends at \<open>t\<close>.\<close>

theorem rate_limit_holds:
  assumes "sorted (map req_time qs)"
  shows "window_count (limit_of (new_suppressor cfg) r) t
      (granted (r, p) qs (fst (run allow_step (new_suppressor cfg) qs)))
    \<le> unat (rl_max_alerts (limit_of (new_suppressor cfg) r))"
proof -
  let ?s0 = "new_suppressor cfg"
  let ?lim = "limit_of ?s0"
  have adm: "admissible (spec_step ?lim) not_before spec_init qs"
    using assms(1) by (rule admissible_sorted) (simp add: spec_init_def)
  have "rate_ok ?lim spec_init"
    by (simp add: rate_ok_def spec_init_def window_count_def)
  then have "rate_ok ?lim (snd (run (spec_step ?lim) spec_init qs))"
    using adm by (rule spec_run_rate_ok)
  moreover have "fst (run allow_step ?s0 qs) = fst (run (spec_step ?lim) spec_init qs)"
    using rate.run_refines [OF rate_rel_init adm] by simp
  ultimately show ?thesis
    by (simp add: rate_ok_def spec_run_history spec_init_def)
qed

definition one_per_minute :: suppression_config where
  "one_per_minute =
     \<lparr>sup_default = \<lparr>rlc_max_alerts = 1, rlc_window_secs = 60\<rparr>, sup_rules = Map.empty\<rparr>"

theorem rate_limit_holds_witness:
  "fst (run allow_step (new_suppressor one_per_minute)
     [(''R1'', 1, 1000000000), (''R1'', 1, 2000000000)]) = [True, False] \<and>
   window_count (limit_of (new_suppressor one_per_minute) ''R1'') 2000000000
     (granted (''R1'', 1) [(''R1'', 1, 1000000000), (''R1'', 1, 2000000000)]
        (fst (run allow_step (new_suppressor one_per_minute)
           [(''R1'', 1, 1000000000), (''R1'', 1, 2000000000)]))) \<le> 1"
proof
  show "fst (run allow_step (new_suppressor one_per_minute)
     [(''R1'', 1, 1000000000), (''R1'', 1, 2000000000)]) = [True, False]"
    by (simp add: allow_step_def allow_def Let_def new_suppressor_def limit_of_def
        one_per_minute_def rate_limit_from_def saturating_mul_def saturating_sub_def)
  have lim: "rl_max_alerts (limit_of (new_suppressor one_per_minute) ''R1'') = 1"
    by (simp add: limit_of_new one_per_minute_def rate_limit_from_def)
  show "window_count (limit_of (new_suppressor one_per_minute) ''R1'') 2000000000
     (granted (''R1'', 1) [(''R1'', 1, 1000000000), (''R1'', 1, 2000000000)]
        (fst (run allow_step (new_suppressor one_per_minute)
           [(''R1'', 1, 1000000000), (''R1'', 1, 2000000000)]))) \<le> 1"
    using rate_limit_holds [of "[(''R1'', 1, 1000000000), (''R1'', 1, 2000000000)]"
        one_per_minute "''R1''" 2000000000 1] lim
    by (simp add: req_time_def)
qed

subsection \<open>Keys do not interfere\<close>

lemma allow_other_key:
  "bucket_of (snd (allow_step s q)) k = bucket_of s k" if "req_key q \<noteq> k"
  using that by (cases q) (auto simp: allow_step_def req_key_def bucket_of_allow)

lemma limit_of_allow_step [simp]: "limit_of (snd (allow_step s q)) = limit_of s"
  by (cases q) (simp add: allow_step_def)

lemma allow_same_key:
  assumes "req_key q = k" "limit_of s = limit_of s'" "bucket_of s k = bucket_of s' k"
  shows "fst (allow_step s q) = fst (allow_step s' q) \<and>
    bucket_of (snd (allow_step s q)) k = bucket_of (snd (allow_step s' q)) k"
  using assms
  by (cases q) (auto simp: allow_step_def req_key_def fst_allow bucket_of_allow live_bucket_def)

lemma granted_independent_aux:
  assumes "limit_of s = limit_of s'" "bucket_of s k = bucket_of s' k"
  shows "granted k qs (fst (run allow_step s qs)) =
    granted k (filter (\<lambda>q. req_key q = k) qs)
      (fst (run allow_step s' (filter (\<lambda>q. req_key q = k) qs)))"
  using assms
proof (induction qs arbitrary: s s')
  case Nil
  show ?case by simp
next
  case (Cons q qs)
  show ?case
  proof (cases "req_key q = k")
    case True
    from allow_same_key [OF True Cons.prems] Cons.prems True show ?thesis
      by (simp add: run_Cons Cons.IH [of "snd (allow_step s q)" "snd (allow_step s' q)"] del: run.simps(2))
  next
    case False
    with Cons.prems show ?thesis
      by (simp add: run_Cons allow_other_key Cons.IH [of "snd (allow_step s q)" s'] del: run.simps(2))
  qed
qed

text \<open>C37: The alerts let through for one rule and process depend on the requests of that rule and
  process only: in any interleaving with other keys, whatever the time stamps, they are those
  that the key's requests alone would get.\<close>

theorem keys_independent:
  "granted k qs (fst (run allow_step s qs)) =
   granted k (filter (\<lambda>q. req_key q = k) qs)
     (fst (run allow_step s (filter (\<lambda>q. req_key q = k) qs)))"
  by (rule granted_independent_aux) simp_all

subsection \<open>Bounded queues, and the suppression counter\<close>

lemma run_bounded: "buckets_bounded s \<Longrightarrow> buckets_bounded (snd (run allow_step s qs))"
  by (rule run_invariant) (auto simp: allow_step_def allow_bounded split: prod.split)

text \<open>Whatever the requests and their time stamps, no queue ever holds more entries than its
  rule's limit.\<close>

theorem bucket_length_bounded:
  "length (bucket_of (snd (run allow_step (new_suppressor cfg) qs)) (r, p))
   \<le> unat (rl_max_alerts (rate_limit_from (case sup_rules cfg r of Some l \<Rightarrow> l | None \<Rightarrow> sup_default cfg)))"
proof -
  have lim: "limit_of (snd (run allow_step s qs)) = limit_of s" for s
    by (rule run_invariant [of "\<lambda>s'. limit_of s' = limit_of s"]) simp_all
  show ?thesis
    using run_bounded [OF new_suppressor_bounded [of cfg], of qs]
    by (simp add: buckets_bounded_def lim limit_of_new)
qed

text \<open>The counter behind \<open>suppressed_total\<close> counts, modulo its 64 bits, the refused requests of
  the rules whose limit is not zero. A rule with \<open>max_alerts: 0\<close> has all its alerts refused and
  none of them counted: the early return of \<open>allow\<close> comes before the count.\<close>

theorem suppressed_total_counts:
  "suppressed_total (snd (run allow_step s qs)) =
     suppressed_total s +
     word_of_nat (length (filter (\<lambda>(q, b). \<not> b \<and> rl_max_alerts (limit_of s (fst q)) \<noteq> 0)
       (zip qs (fst (run allow_step s qs)))))"
proof (induction qs arbitrary: s)
  case Nil
  show ?case by simp
next
  case (Cons q qs)
  have "sp_suppressed (snd (allow_step s q)) = sp_suppressed s +
      (if fst (allow_step s q) \<or> rl_max_alerts (limit_of s (fst q)) = 0 then 0 else 1)"
    by (cases q) (simp add: allow_step_def suppressed_allow)
  with Cons.IH [of "snd (allow_step s q)"] show ?case
    by (simp add: suppressed_total_def run_Cons del: run.simps(2))
qed

text \<open>
  Time stamps come from the kernel, taken on several CPUs, and can arrive out of order. The
  rate bound needs the order: with a limit of two in ten nanoseconds, three alerts at 100, 101
  and 102 are all let through when one at 200 is processed before the last of them, because an
  old stamp behind a newer front is not evicted and an evicted one is forgotten.
\<close>

lemma out_of_order_exceeds:
  "fst (run allow_step
     \<lparr>sp_default = \<lparr>rl_max_alerts = 2, rl_window_ns = 10\<rparr>, sp_per_rule = Map.empty,
      sp_buckets = Map.empty, sp_suppressed = 0\<rparr>
     [(''R'', 1, 100), (''R'', 1, 101), (''R'', 1, 200), (''R'', 1, 102)]) = [True, True, True, True]"
  by (simp add: allow_step_def allow_def Let_def limit_of_def saturating_sub_def)

end
