(* ===== verification/Triage.thy ===== *)
theory Triage
  imports Config Event Rust_Utf8
begin

text \<open>
  \<open>triage.rs\<close>: asking a language model about an alert. The HTTP exchange, JSON encoding and
  decoding, and the debug form of a string that is not ASCII are parameters (\<open>triage_env\<close>); the
  prompt, the choice between the model's answer and the fallback, and the extraction of the JSON
  object from the answer are the code's.
\<close>

record triage_client =
  tr_config :: triage_config
  tr_api_key :: "string option"

definition new_triage :: "(string \<Rightarrow> string option) \<Rightarrow> triage_config \<Rightarrow> triage_client" where
  "new_triage env_var config = \<lparr>tr_config = config, tr_api_key = env_var (tc_api_key_env config)\<rparr>"

definition enabled :: "triage_client \<Rightarrow> bool" where
  "enabled t \<longleftrightarrow> tc_enabled (tr_config t) \<and> tr_api_key t \<noteq> None"

record messages_request =
  mr_model :: string
  mr_max_tokens :: u32
  mr_messages :: "(string \<times> string) list"

text \<open>
  What comes back: no connection, an error status with its text, a body that is not the expected
  JSON, or the texts of the content blocks.
\<close>

datatype reply = Send_Failed | Error_Status string | Bad_Body | Content "string list"

text \<open>The object the model is asked for, as it is read from the answer.\<close>

record triage_result =
  tq_severity :: string
  tq_summary :: string
  tq_reasoning :: string
  tq_mitre :: "string list"
  tq_remediation :: "string list"
  tq_false_positive_likelihood :: u64

record triage_env =
  te_event_json :: "enriched_event \<Rightarrow> string option"
  te_post :: "string \<Rightarrow> messages_request \<Rightarrow> reply"
  te_parse_result :: "string \<Rightarrow> triage_result option"
  te_debug_str :: "string \<Rightarrow> string"

datatype triage_error = Missing_Api_Key | Event_Not_Serialized | Request_Failed | Api_Error string
  | Body_Not_Parsed

subsection \<open>The prompt\<close>

abbreviation NL :: string where "NL \<equiv> [CHR 0x0A]"
abbreviation QT :: string where "QT \<equiv> [CHR 0x22]"

text \<open>\<open>{:?}\<close> of a string and of a list of strings.\<close>

definition hex_escape :: "nat \<Rightarrow> string" where
  "hex_escape n = CHR 0x5C # ''u{'' @ show_hex n @ ''}''"

definition debug_char :: "char \<Rightarrow> string" where
  "debug_char c =
     (if c = CHR 0x22 \<or> c = CHR 0x5C then [CHR 0x5C, c]
      else if c = CHR 0x0A then [CHR 0x5C, CHR ''n'']
      else if c = CHR 0x0D then [CHR 0x5C, CHR ''r'']
      else if c = CHR 0x09 then [CHR 0x5C, CHR ''t'']
      else if c = CHR 0x00 then [CHR 0x5C, CHR ''0'']
      else if code c < 32 \<or> code c = 127 then hex_escape (code c)
      else [c])"

definition debug_str :: "(string \<Rightarrow> string) \<Rightarrow> string \<Rightarrow> string" where
  "debug_str other s = (if is_ascii s then QT @ concat (map debug_char s) @ QT else other s)"

definition debug_list :: "(string \<Rightarrow> string) \<Rightarrow> string list \<Rightarrow> string" where
  "debug_list other ss = ''['' @ join_with '', '' (map (debug_str other) ss) @ '']''"

definition mitre_hint :: "mitre_attack option \<Rightarrow> string" where
  "mitre_hint mitre =
     (case mitre of
        Some m \<Rightarrow> ''Mapped MITRE ATT&CK: tactic='' @ ma_tactic m @ '', technique='' @ ma_technique m
      | None \<Rightarrow> [])"

definition prompt_text :: "(string \<Rightarrow> string) \<Rightarrow> alert \<Rightarrow> string \<Rightarrow> string" where
  "prompt_text other a event_json =
     ''You are a senior detection engineer triaging alerts on Linux nodes that run '' @
     ''AI/ML workloads (PyTorch distributed training, GPU inference, large Python '' @
     ''processes, checkpoint I/O, and outbound experiment telemetry).'' @ NL @
     ''Distinguish benign ML infrastructure behavior from true positives. Be precise.'' @ NL @ NL @
     ''Respond ONLY with valid JSON matching this schema:'' @ NL @
     ''{'' @ NL @
     QT @ ''severity'' @ QT @ '': string,'' @ NL @
     QT @ ''summary'' @ QT @ '': string,'' @ NL @
     QT @ ''reasoning'' @ QT @ '': string,'' @ NL @
     QT @ ''mitre'' @ QT @ '': [string],'' @ NL @
     QT @ ''remediation'' @ QT @ '': [string],'' @ NL @
     QT @ ''false_positive_likelihood'' @ QT @ '': number'' @ NL @
     ''}'' @ NL @ NL @
     ''Alert:'' @ NL @
     ''rule_id: '' @ al_rule_id a @ NL @
     ''title: '' @ al_title a @ NL @
     ''severity: '' @ al_severity a @ NL @
     ''description: '' @ al_description a @ NL @
     ''tags: '' @ debug_list other (al_tags a) @ NL @
     mitre_hint (al_mitre a) @ NL @
     ''event: '' @ event_json"

subsection \<open>The answer\<close>

definition extract_json :: "string \<Rightarrow> string outcome" where
  "extract_json txt =
     (case find_char (CHR ''{'') txt of
        Some start \<Rightarrow>
          (case rfind_char (CHR ''}'') txt of
             Some end_pos \<Rightarrow> slice txt start (Suc end_pos)
           | None \<Rightarrow> Inr txt)
      | None \<Rightarrow> Inr txt)"

text \<open>0.5 as a 64-bit float.\<close>

definition half_f64 :: u64 where "half_f64 = 0x3FE0000000000000"

definition fallback_result :: "alert \<Rightarrow> string \<Rightarrow> triage_result" where
  "fallback_result a txt =
     \<lparr>tq_severity = al_severity a, tq_summary = txt,
      tq_reasoning = ''Claude response was not valid JSON; manual review required.'',
      tq_mitre = [], tq_remediation = [''Review alert manually.''],
      tq_false_positive_likelihood = half_f64\<rparr>"

definition outcome_of :: "triage_result \<Rightarrow> triage_outcome" where
  "outcome_of triage =
     \<lparr>to_severity = tq_severity triage, to_summary = tq_summary triage, to_reasoning = tq_reasoning triage,
      to_mitre = tq_mitre triage, to_remediation = tq_remediation triage,
      to_false_positive_likelihood = tq_false_positive_likelihood triage\<rparr>"

definition triage_alert ::
  "triage_env \<Rightarrow> triage_client \<Rightarrow> alert \<Rightarrow> (triage_error + triage_outcome) outcome" where
  "triage_alert env t a =
     (case tr_api_key t of
        None \<Rightarrow> Inr (Inl Missing_Api_Key)
      | Some api_key \<Rightarrow>
          (case te_event_json env (al_event a) of
             None \<Rightarrow> Inr (Inl Event_Not_Serialized)
           | Some event_json \<Rightarrow>
               (let prompt = prompt_text (te_debug_str env) a event_json;
                    body = \<lparr>mr_model = tc_model (tr_config t), mr_max_tokens = tc_max_tokens (tr_config t),
                            mr_messages = [(''user'', prompt)]\<rparr>
                in case te_post env api_key body of
                     Send_Failed \<Rightarrow> Inr (Inl Request_Failed)
                   | Error_Status s \<Rightarrow> Inr (Inl (Api_Error s))
                   | Bad_Body \<Rightarrow> Inr (Inl Body_Not_Parsed)
                   | Content blocks \<Rightarrow>
                       (let txt = (case blocks of b # _ \<Rightarrow> b | [] \<Rightarrow> [])
                        in bind_sum (extract_json txt) (\<lambda>json.
                             Inr (Inr (outcome_of
                               (case te_parse_result env json of
                                  Some r \<Rightarrow> r
                                | None \<Rightarrow> fallback_result a txt))))))))"

subsection \<open>Which answers are safe\<close>

lemma boundary_at_ascii: "i < length s \<Longrightarrow> code (s ! i) < 128 \<Longrightarrow> is_char_boundary s i"
  by (simp add: is_char_boundary_def is_cont_ascii)

lemma boundary_after_ascii:
  "utf8_string s \<Longrightarrow> i < length s \<Longrightarrow> code (s ! i) < 128 \<Longrightarrow> is_char_boundary s (Suc i)"
  using utf8_string_after_ascii [of s i]
  by (cases "Suc i = length s") (auto simp: is_char_boundary_def is_cont_def)

text \<open>The extraction of the JSON object panics exactly on an answer that has both braces, the last
  closing one more than one place before the first opening one: a text such as \<open>} {\<close> from the
  model takes the agent down. On every other text it returns, and what it returns for a text
  with the braces in order starts with the first opening and ends with the last closing one.\<close>

theorem extract_json_cases:
  assumes "utf8_string txt"
  shows "(extract_json txt = Inl p \<longleftrightarrow> p = Slice_Out_Of_Range \<and>
      (\<exists>i j. rfind_char (CHR ''}'') txt = Some i \<and> find_char (CHR ''{'') txt = Some j \<and> Suc i < j)) \<and>
    (\<forall>a b c. txt = a @ CHR ''{'' # b @ CHR ''}'' # c \<and> CHR ''{'' \<notin> set a \<and> CHR ''}'' \<notin> set c \<longrightarrow>
      extract_json txt = Inr (CHR ''{'' # b @ ''}''))"
proof (intro conjI allI impI)
  have slice: "slice txt j (Suc i) = (if Suc i < j then Inl Slice_Out_Of_Range else Inr (drop j (take (Suc i) txt)))"
    if "rfind_char (CHR ''}'') txt = Some i" "find_char (CHR ''{'') txt = Some j" for i j
  proof -
    have i: "i < length txt" "txt ! i = CHR ''}''"
      using rfind_char_SomeD [OF that(1)] by simp_all
    have j: "j < length txt" "txt ! j = CHR ''{''"
      using find_char_SomeD [OF that(2)] by simp_all
    have "is_char_boundary txt j" using j by (intro boundary_at_ascii) simp_all
    moreover have "is_char_boundary txt (Suc i)" using assms i by (intro boundary_after_ascii) simp_all
    ultimately show ?thesis using i by (simp add: slice_def)
  qed
  show "extract_json txt = Inl p \<longleftrightarrow> p = Slice_Out_Of_Range \<and>
      (\<exists>i j. rfind_char (CHR ''}'') txt = Some i \<and> find_char (CHR ''{'') txt = Some j \<and> Suc i < j)"
    using slice
    by (cases "find_char (CHR ''{'') txt"; cases "rfind_char (CHR ''}'') txt")
      (auto simp: extract_json_def simp del: find_char_None rfind_char_None)
  fix a b c
  assume abc: "txt = a @ CHR ''{'' # b @ CHR ''}'' # c \<and> CHR ''{'' \<notin> set a \<and> CHR ''}'' \<notin> set c"
  then have "find_char (CHR ''{'') txt = Some (length a)" by (simp add: find_char_append_hit)
  moreover have "rfind_char (CHR ''}'') txt = Some (length (a @ CHR ''{'' # b))"
    using abc rfind_char_append_hit [of "CHR ''}''" c "a @ CHR ''{'' # b"] by simp
  ultimately show "extract_json txt = Inr (CHR ''{'' # b @ ''}'')"
    using slice abc by (simp add: extract_json_def)
qed

theorem extract_json_cases_witness:
  "extract_json ''} {'' = Inl Slice_Out_Of_Range"
proof -
  have "utf8_string ''} {''" by (rule utf8_string_ascii) simp
  moreover have "rfind_char (CHR ''}'') ''} {'' = Some 0" "find_char (CHR ''{'') ''} {'' = Some 2"
    by (simp_all add: rfind_char_def)
  ultimately show ?thesis using extract_json_cases by fastforce
qed

end
