(* ===== verification/Sinks.thy ===== *)
theory Sinks
  imports Config Event Common
begin

text \<open>
  \<open>sinks/\<close>: where events and alerts go. What a sink does to the outside is a list of outputs
  (lines printed, lines appended to a file, calls of the ingest service), each of which the
  outside may refuse; \<open>sn_ok\<close> says which, given what has happened so far. The contract of a sink
  is the locale \<open>event_sink\<close>: it is interpreted for events and for alerts, and \<open>MultiSink\<close> rests
  on it.
\<close>

subsection \<open>The messages of the ingest service\<close>

record pb_event =
  pb_kind :: string
  pb_pid :: u32
  pb_ppid :: u32
  pb_uid :: u32
  pb_gid :: u32
  pb_timestamp_ns :: u64
  pb_comm :: string
  pb_path :: string
  pb_dst_addr :: u32
  pb_dst_port :: u32
  pb_flags :: u32
  pb_lineage :: "string list"
  pb_host :: string
  pb_parent_comm :: string
  pb_addr_family :: u32
  pb_dst_addr_v6 :: string
  pb_container_id :: string
  pb_pod_name :: string
  pb_pod_namespace :: string
  pb_pod_image :: string

record pb_mitre =
  pm_tactic :: string
  pm_technique :: string
  pm_subtechnique :: string

record pb_triage =
  pt_severity :: string
  pt_summary :: string
  pt_reasoning :: string
  pt_mitre :: "string list"
  pt_remediation :: "string list"
  pt_false_positive_likelihood :: u64

record pb_alert =
  pa_rule_id :: string
  pa_title :: string
  pa_severity :: string
  pa_description :: string
  pa_tags :: "string list"
  pa_event :: "pb_event option"
  pa_timestamp_ns :: u64
  pa_host :: string
  pa_mitre :: "pb_mitre option"
  pa_triage :: "pb_triage option"

definition or_empty :: "string option \<Rightarrow> string" where
  "or_empty s = (case s of Some t \<Rightarrow> t | None \<Rightarrow> [])"

definition event_to_pb :: "enriched_event \<Rightarrow> pb_event" where
  "event_to_pb event =
     \<lparr>pb_kind = ee_kind event,
      pb_pid = ee_pid event,
      pb_ppid = ee_ppid event,
      pb_uid = ee_uid event,
      pb_gid = ee_gid event,
      pb_timestamp_ns = ee_timestamp_ns event,
      pb_comm = ee_comm event,
      pb_path = ee_path event,
      pb_dst_addr =
        (case ee_dst_addr event of
           None \<Rightarrow> 0
         | Some s \<Rightarrow> (case parse_ipv4 s of Some ip \<Rightarrow> u32_of_ipv4 ip | None \<Rightarrow> 0)),
      pb_dst_port = (case ee_dst_port event of Some p \<Rightarrow> ucast p | None \<Rightarrow> 0),
      pb_flags = ee_flags event,
      pb_lineage = ee_lineage event,
      pb_host = ee_host event,
      pb_parent_comm = ee_parent_comm event,
      pb_addr_family = (case ee_addr_family event of Some f \<Rightarrow> ucast f | None \<Rightarrow> 0),
      pb_dst_addr_v6 =
        (if ee_addr_family event = Some AF_INET6 then or_empty (ee_dst_addr event) else []),
      pb_container_id = or_empty (ee_container_id event),
      pb_pod_name = or_empty (ee_pod_name event),
      pb_pod_namespace = or_empty (ee_pod_namespace event),
      pb_pod_image = or_empty (ee_pod_image event)\<rparr>"

definition mitre_to_pb :: "mitre_attack \<Rightarrow> pb_mitre" where
  "mitre_to_pb m =
     \<lparr>pm_tactic = ma_tactic m, pm_technique = ma_technique m,
      pm_subtechnique = or_empty (ma_subtechnique m)\<rparr>"

definition triage_to_pb :: "triage_outcome \<Rightarrow> pb_triage" where
  "triage_to_pb t =
     \<lparr>pt_severity = to_severity t, pt_summary = to_summary t, pt_reasoning = to_reasoning t,
      pt_mitre = to_mitre t, pt_remediation = to_remediation t,
      pt_false_positive_likelihood = to_false_positive_likelihood t\<rparr>"

definition alert_to_pb :: "alert \<Rightarrow> pb_alert" where
  "alert_to_pb a =
     \<lparr>pa_rule_id = al_rule_id a, pa_title = al_title a, pa_severity = al_severity a,
      pa_description = al_description a, pa_tags = al_tags a,
      pa_event = Some (event_to_pb (al_event a)), pa_timestamp_ns = al_timestamp_ns a,
      pa_host = ee_host (al_event a), pa_mitre = map_option mitre_to_pb (al_mitre a),
      pa_triage = map_option triage_to_pb (al_triage a)\<rparr>"

subsection \<open>Outputs\<close>

datatype sink_output =
    Print_Line string
  | Eprint_Line string
  | Append_Line string string
  | Flush_File string
  | Connect_To string
  | Publish_Event string pb_event
  | Publish_Alert string pb_alert

datatype emission = Emitted | Emit_Error | Emit_Panic

text \<open>
  The JSON of a plain event or alert (\<open>serde_json::to_string\<close>) and of the tagged record an NDJSON
  file holds; \<open>sn_uri_ok\<close> is the check of \<open>Channel::from_shared\<close>.
\<close>

record sink_env =
  sn_ok :: "sink_output list \<Rightarrow> sink_output \<Rightarrow> bool"
  sn_event_json :: "enriched_event \<Rightarrow> string option"
  sn_alert_json :: "alert \<Rightarrow> string option"
  sn_event_record :: "enriched_event \<Rightarrow> string option"
  sn_alert_record :: "alert \<Rightarrow> string option"
  sn_uri_ok :: "string \<Rightarrow> bool"

text \<open>A sink; the flag of a gRPC sink tells whether its client exists.\<close>

datatype sink = Stdout_Sink | Ndjson_Sink string | Grpc_Sink string bool

type_synonym emit_result = "emission \<times> sink \<times> sink_output list"

text \<open>\<open>println!\<close> and \<open>eprintln!\<close> panic when the stream refuses the line.\<close>

definition print_line :: "sink_env \<Rightarrow> sink_output \<Rightarrow> sink_output list \<Rightarrow> emission \<times> sink_output list" where
  "print_line env out log = (if sn_ok env log out then (Emitted, log @ [out]) else (Emit_Panic, log))"

subsection \<open>The sinks\<close>

definition stdout_emit :: "sink_env \<Rightarrow> (string \<Rightarrow> sink_output) \<Rightarrow> string option \<Rightarrow> sink_output list \<Rightarrow> emit_result" where
  "stdout_emit env line json log =
     (case json of
        None \<Rightarrow> (Emit_Error, Stdout_Sink, log)
      | Some s \<Rightarrow> (case print_line env (line s) log of (r, log') \<Rightarrow> (r, Stdout_Sink, log')))"

text \<open>\<open>write_line\<close>: the line is appended and the file flushed.\<close>

definition write_line :: "sink_env \<Rightarrow> string \<Rightarrow> string option \<Rightarrow> sink_output list \<Rightarrow> emission \<times> sink_output list" where
  "write_line env path json log =
     (case json of
        None \<Rightarrow> (Emit_Error, log)
      | Some line \<Rightarrow>
          if \<not> sn_ok env log (Append_Line path line) then (Emit_Error, log)
          else
            (let log' = log @ [Append_Line path line]
             in if \<not> sn_ok env log' (Flush_File path) then (Emit_Error, log')
                else (Emitted, log' @ [Flush_File path])))"

definition ndjson_emit :: "sink_env \<Rightarrow> string \<Rightarrow> string option \<Rightarrow> sink_output list \<Rightarrow> emit_result" where
  "ndjson_emit env path json log =
     (case write_line env path json log of (r, log') \<Rightarrow> (r, Ndjson_Sink path, log'))"

text \<open>\<open>GrpcSink::client\<close>: connect unless there is a client already.\<close>

definition grpc_client :: "sink_env \<Rightarrow> string \<Rightarrow> bool \<Rightarrow> sink_output list \<Rightarrow> bool \<times> sink_output list" where
  "grpc_client env endpoint connected log =
     (if connected then (True, log)
      else if \<not> sn_uri_ok env endpoint then (False, log)
      else if \<not> sn_ok env log (Connect_To endpoint) then (False, log)
      else (True, log @ [Connect_To endpoint]))"

definition grpc_emit :: "sink_env \<Rightarrow> string \<Rightarrow> bool \<Rightarrow> sink_output \<Rightarrow> sink_output list \<Rightarrow> emit_result" where
  "grpc_emit env endpoint connected call log =
     (case grpc_client env endpoint connected log of
        (False, log') \<Rightarrow> (Emit_Error, Grpc_Sink endpoint connected, log')
      | (True, log') \<Rightarrow>
          if sn_ok env log' call then (Emitted, Grpc_Sink endpoint True, log' @ [call])
          else (Emit_Error, Grpc_Sink endpoint True, log'))"

fun emit_event :: "sink_env \<Rightarrow> sink \<Rightarrow> enriched_event \<Rightarrow> sink_output list \<Rightarrow> emit_result" where
  "emit_event env Stdout_Sink e log = stdout_emit env Print_Line (sn_event_json env e) log"
| "emit_event env (Ndjson_Sink path) e log = ndjson_emit env path (sn_event_record env e) log"
| "emit_event env (Grpc_Sink endpoint c) e log =
     grpc_emit env endpoint c (Publish_Event endpoint (event_to_pb e)) log"

fun emit_alert :: "sink_env \<Rightarrow> sink \<Rightarrow> alert \<Rightarrow> sink_output list \<Rightarrow> emit_result" where
  "emit_alert env Stdout_Sink a log =
     stdout_emit env (\<lambda>s. Eprint_Line (''ALERT '' @ s)) (sn_alert_json env a) log"
| "emit_alert env (Ndjson_Sink path) a log = ndjson_emit env path (sn_alert_record env a) log"
| "emit_alert env (Grpc_Sink endpoint c) a log =
     grpc_emit env endpoint c (Publish_Alert endpoint (alert_to_pb a)) log"

text \<open>Only the NDJSON sink has a \<open>flush\<close> of its own.\<close>

fun flush_sink :: "sink_env \<Rightarrow> sink \<Rightarrow> sink_output list \<Rightarrow> emit_result" where
  "flush_sink env (Ndjson_Sink path) log =
     (if sn_ok env log (Flush_File path) then (Emitted, Ndjson_Sink path, log @ [Flush_File path])
      else (Emit_Error, Ndjson_Sink path, log))"
| "flush_sink env s log = (Emitted, s, log)"

subsection \<open>\<open>MultiSink\<close>\<close>

text \<open>The loop of its three methods: the first failure ends it.\<close>

fun for_sinks :: "(sink \<Rightarrow> sink_output list \<Rightarrow> emit_result) \<Rightarrow> sink list \<Rightarrow> sink_output list \<Rightarrow> emission \<times> sink list \<times> sink_output list" where
  "for_sinks emit [] log = (Emitted, [], log)"
| "for_sinks emit (s # ss) log =
     (case emit s log of
        (Emitted, s', log') \<Rightarrow>
          (case for_sinks emit ss log' of (r, ss', log'') \<Rightarrow> (r, s' # ss', log''))
      | (r, s', log') \<Rightarrow> (r, s' # ss, log'))"

definition multi_emit_event ::
  "sink_env \<Rightarrow> sink list \<Rightarrow> enriched_event \<Rightarrow> sink_output list \<Rightarrow> emission \<times> sink list \<times> sink_output list" where
  "multi_emit_event env sinks e log = for_sinks (\<lambda>s. emit_event env s e) sinks log"

definition multi_emit_alert ::
  "sink_env \<Rightarrow> sink list \<Rightarrow> alert \<Rightarrow> sink_output list \<Rightarrow> emission \<times> sink list \<times> sink_output list" where
  "multi_emit_alert env sinks a log = for_sinks (\<lambda>s. emit_alert env s a) sinks log"

definition multi_flush :: "sink_env \<Rightarrow> sink list \<Rightarrow> sink_output list \<Rightarrow> emission \<times> sink list \<times> sink_output list" where
  "multi_flush env sinks log = for_sinks (flush_sink env) sinks log"

text \<open>
  \<open>build_sinks\<close>: an empty list of configurations means standard output; an NDJSON sink creates
  the parent directory of its file and opens the file.
\<close>

definition ndjson_new :: "'w fs_ops \<Rightarrow> ('w \<Rightarrow> string \<Rightarrow> bool) \<Rightarrow> 'w \<Rightarrow> string \<Rightarrow> sink option \<times> 'w" where
  "ndjson_new fs open_ok w path =
     (case (case path_parent path of
              Some parent \<Rightarrow> fs_create_dir_all fs w parent
            | None \<Rightarrow> (True, w)) of
        (False, w') \<Rightarrow> (None, w')
      | (True, w') \<Rightarrow> (if open_ok w' path then Some (Ndjson_Sink path) else None, w'))"

definition grpc_new :: "string \<Rightarrow> sink" where
  "grpc_new endpoint = Grpc_Sink endpoint False"

definition build_sink :: "'w fs_ops \<Rightarrow> ('w \<Rightarrow> string \<Rightarrow> bool) \<Rightarrow> 'w \<Rightarrow> sink_config \<Rightarrow> sink option \<times> 'w" where
  "build_sink fs open_ok w cfg =
     (case cfg of
        SC_Stdout \<Rightarrow> (Some Stdout_Sink, w)
      | SC_Ndjson path \<Rightarrow> ndjson_new fs open_ok w path
      | SC_Grpc endpoint \<Rightarrow> (Some (grpc_new endpoint), w))"

fun build_each :: "'w fs_ops \<Rightarrow> ('w \<Rightarrow> string \<Rightarrow> bool) \<Rightarrow> 'w \<Rightarrow> sink_config list \<Rightarrow> sink list option \<times> 'w" where
  "build_each fs open_ok w [] = (Some [], w)"
| "build_each fs open_ok w (c # cs) =
     (case build_sink fs open_ok w c of
        (None, w') \<Rightarrow> (None, w')
      | (Some s, w') \<Rightarrow>
          (case build_each fs open_ok w' cs of (ss, w'') \<Rightarrow> (map_option ((#) s) ss, w'')))"

definition build_sinks :: "'w fs_ops \<Rightarrow> ('w \<Rightarrow> string \<Rightarrow> bool) \<Rightarrow> 'w \<Rightarrow> sink_config list \<Rightarrow> sink list option \<times> 'w" where
  "build_sinks fs open_ok w configs =
     build_each fs open_ok w (if configs = [] then [SC_Stdout] else configs)"

subsection \<open>The contract of a sink\<close>

text \<open>
  \<open>delivery s x\<close> is the output that carries \<open>x\<close>; a sink never takes outputs back, it reports
  success only after that output, and it stays the sink it is.
\<close>

locale event_sink =
  fixes emit :: "sink \<Rightarrow> 'x \<Rightarrow> sink_output list \<Rightarrow> emit_result"
    and delivery :: "sink \<Rightarrow> 'x \<Rightarrow> sink_output option"
  assumes emit_prefix: "emit s x log = (r, s', log') \<Longrightarrow> prefix log log'"
    and emit_delivers: "emit s x log = (Emitted, s', log') \<Longrightarrow>
      \<exists>out. delivery s x = Some out \<and> out \<in> set (drop (length log) log')"
    and emit_same: "emit s x log = (r, s', log') \<Longrightarrow> delivery s' = delivery s"
begin

text \<open>
  The sinks before the first failing one deliver, those after it are not touched; without a
  failure all deliver.
\<close>

lemma for_sinks_prefix: "for_sinks (\<lambda>s. emit s x) ss log = (r, ss', log') \<Longrightarrow> prefix log log'"
  by (induction ss arbitrary: log ss')
    (auto split: prod.splits emission.splits dest: emit_prefix intro: prefix_order.trans)

lemma drop_prefix_mono: "prefix a b \<Longrightarrow> prefix b c \<Longrightarrow> x \<in> set (drop (length b) c) \<or> x \<in> set (drop (length a) b) \<Longrightarrow>
    x \<in> set (drop (length a) c)"
  by (auto simp: prefix_def)

lemma for_sinks_delivers:
  "for_sinks (\<lambda>s. emit s x) ss log = (Emitted, ss', log') \<Longrightarrow> s \<in> set ss \<Longrightarrow>
   \<exists>out. delivery s x = Some out \<and> out \<in> set (drop (length log) log')"
proof (induction ss arbitrary: log ss')
  case Nil
  then show ?case by simp
next
  case (Cons s0 ss)
  from Cons.prems(1) obtain s1 log1 ss1 where
    head: "emit s0 x log = (Emitted, s1, log1)" and tail: "for_sinks (\<lambda>s. emit s x) ss log1 = (Emitted, ss1, log')"
    by (auto split: prod.splits emission.splits)
  have p: "prefix log log1" "prefix log1 log'"
    using emit_prefix [OF head] for_sinks_prefix [OF tail] .
  from Cons.prems(2) consider "s = s0" | "s \<in> set ss" by auto
  then show ?case
  proof cases
    case 1
    then show ?thesis using emit_delivers [OF head] drop_prefix_mono [OF p] by blast
  next
    case 2
    then show ?thesis using Cons.IH [OF tail] drop_prefix_mono [OF p] by blast
  qed
qed

lemma for_sinks_fails:
  "for_sinks (\<lambda>s. emit s x) ss log = (r, ss', log') \<Longrightarrow> r \<noteq> Emitted \<Longrightarrow>
   \<exists>pre s post pre' s' log1. ss = pre @ s # post \<and> ss' = pre' @ s' # post \<and>
     for_sinks (\<lambda>s. emit s x) pre log = (Emitted, pre', log1) \<and> emit s x log1 = (r, s', log')"
proof (induction ss arbitrary: log ss')
  case Nil
  then show ?case by simp
next
  case (Cons s ss)
  obtain r1 s1 log1 where head: "emit s x log = (r1, s1, log1)" by (metis prod_cases3)
  show ?case
  proof (cases "r1 = Emitted")
    case True
    with Cons.prems head obtain ss1 where "for_sinks (\<lambda>s. emit s x) ss log1 = (r, ss1, log')"
      and ss': "ss' = s1 # ss1"
      by (auto split: prod.splits)
    from Cons.IH [OF this(1) Cons.prems(2)] obtain pre t post pre' t' log2 where
      *: "ss = pre @ t # post" "ss1 = pre' @ t' # post"
        "for_sinks (\<lambda>s. emit s x) pre log1 = (Emitted, pre', log2)" "emit t x log2 = (r, t', log')"
      by blast
    then have "for_sinks (\<lambda>s. emit s x) (s # pre) log = (Emitted, s1 # pre', log2)"
      using head True by simp
    moreover have "s # ss = (s # pre) @ t # post" "ss' = (s1 # pre') @ t' # post"
      using * ss' by simp_all
    ultimately show ?thesis using *(4) by blast
  next
    case False
    then have "for_sinks (\<lambda>s. emit s x) (s # ss) log = (r1, s1 # ss, log1)"
      using head by (cases r1) simp_all
    with Cons.prems head have "ss' = [] @ s1 # ss" "emit s x log = (r, s1, log')" by auto
    moreover have "s # ss = [] @ s # ss" "for_sinks (\<lambda>s. emit s x) [] log = (Emitted, [], log)"
      by simp_all
    ultimately show ?thesis by blast
  qed
qed

lemma for_sinks_same:
  "for_sinks (\<lambda>s. emit s x) ss log = (r, ss', log') \<Longrightarrow> map delivery ss' = map delivery ss"
  by (induction ss arbitrary: log ss')
    (auto split: prod.splits emission.splits dest: emit_same)

end

definition event_delivery :: "sink_env \<Rightarrow> sink \<Rightarrow> enriched_event \<Rightarrow> sink_output option" where
  "event_delivery env s e =
     (case s of
        Stdout_Sink \<Rightarrow> map_option Print_Line (sn_event_json env e)
      | Ndjson_Sink path \<Rightarrow> map_option (Append_Line path) (sn_event_record env e)
      | Grpc_Sink endpoint _ \<Rightarrow> Some (Publish_Event endpoint (event_to_pb e)))"

definition alert_delivery :: "sink_env \<Rightarrow> sink \<Rightarrow> alert \<Rightarrow> sink_output option" where
  "alert_delivery env s a =
     (case s of
        Stdout_Sink \<Rightarrow> map_option (\<lambda>j. Eprint_Line (''ALERT '' @ j)) (sn_alert_json env a)
      | Ndjson_Sink path \<Rightarrow> map_option (Append_Line path) (sn_alert_record env a)
      | Grpc_Sink endpoint _ \<Rightarrow> Some (Publish_Alert endpoint (alert_to_pb a)))"

lemmas emit_defs = stdout_emit_def print_line_def ndjson_emit_def write_line_def grpc_emit_def
  grpc_client_def Let_def

interpretation ev: event_sink "emit_event env" "event_delivery env" for env
proof unfold_locales
  fix s e log r s' log'
  show "emit_event env s e log = (r, s', log') \<Longrightarrow> prefix log log'"
    by (cases s) (auto simp: emit_defs split: option.splits if_splits)
  show "emit_event env s e log = (Emitted, s', log') \<Longrightarrow>
      \<exists>out. event_delivery env s e = Some out \<and> out \<in> set (drop (length log) log')"
    by (cases s) (auto simp: emit_defs event_delivery_def split: option.splits if_splits)
  show "emit_event env s e log = (r, s', log') \<Longrightarrow> event_delivery env s' = event_delivery env s"
    by (cases s) (auto simp: emit_defs event_delivery_def fun_eq_iff split: option.splits if_splits)
qed

interpretation al: event_sink "emit_alert env" "alert_delivery env" for env
proof unfold_locales
  fix s a log r s' log'
  show "emit_alert env s a log = (r, s', log') \<Longrightarrow> prefix log log'"
    by (cases s) (auto simp: emit_defs split: option.splits if_splits)
  show "emit_alert env s a log = (Emitted, s', log') \<Longrightarrow>
      \<exists>out. alert_delivery env s a = Some out \<and> out \<in> set (drop (length log) log')"
    by (cases s) (auto simp: emit_defs alert_delivery_def split: option.splits if_splits)
  show "emit_alert env s a log = (r, s', log') \<Longrightarrow> alert_delivery env s' = alert_delivery env s"
    by (cases s) (auto simp: emit_defs alert_delivery_def fun_eq_iff split: option.splits if_splits)
qed

text \<open>C28: An alert that \<open>MultiSink\<close> reports as emitted has been delivered by every sink; when it
  reports a failure, one sink failed, those before it delivered the alert, and those after it
  never saw it. In either case nothing that was output before is lost.\<close>

theorem multi_emit_alert_result:
  assumes "multi_emit_alert env sinks a log = (r, sinks', log')"
  shows "prefix log log' \<and>
    (r = Emitted \<longrightarrow> (\<forall>s \<in> set sinks. \<exists>out. alert_delivery env s a = Some out \<and> out \<in> set (drop (length log) log'))) \<and>
    (r \<noteq> Emitted \<longrightarrow> (\<exists>pre s post pre' s' log1. sinks = pre @ s # post \<and> sinks' = pre' @ s' # post \<and>
       (\<forall>t \<in> set pre. \<exists>out. alert_delivery env t a = Some out \<and> out \<in> set (drop (length log) log1)) \<and>
       emit_alert env s a log1 = (r, s', log')))"
proof (intro conjI impI)
  note run = assms [unfolded multi_emit_alert_def]
  show "prefix log log'" using run by (rule al.for_sinks_prefix)
  show "\<forall>s \<in> set sinks. \<exists>out. alert_delivery env s a = Some out \<and> out \<in> set (drop (length log) log')"
    if "r = Emitted"
    using al.for_sinks_delivers [OF run [unfolded that]] by blast
  show "\<exists>pre s post pre' s' log1. sinks = pre @ s # post \<and> sinks' = pre' @ s' # post \<and>
       (\<forall>t \<in> set pre. \<exists>out. alert_delivery env t a = Some out \<and> out \<in> set (drop (length log) log1)) \<and>
       emit_alert env s a log1 = (r, s', log')" if "r \<noteq> Emitted"
  proof -
    from al.for_sinks_fails [OF run that] obtain pre s post pre' s' log1 where
      *: "sinks = pre @ s # post" "sinks' = pre' @ s' # post"
        "for_sinks (\<lambda>s. emit_alert env s a) pre log = (Emitted, pre', log1)"
        "emit_alert env s a log1 = (r, s', log')"
      by blast
    moreover have "\<forall>t \<in> set pre. \<exists>out. alert_delivery env t a = Some out \<and> out \<in> set (drop (length log) log1)"
      using al.for_sinks_delivers [OF *(3)] by blast
    ultimately show ?thesis by blast
  qed
qed

text \<open>A quiet outside that refuses nothing, and a fixed rendering, for concrete inputs.\<close>

definition open_env :: sink_env where
  "open_env =
     \<lparr>sn_ok = (\<lambda>_ _. True), sn_event_json = (\<lambda>e. Some (ee_kind e)), sn_alert_json = (\<lambda>a. Some (al_rule_id a)),
      sn_event_record = (\<lambda>e. Some (ee_kind e)), sn_alert_record = (\<lambda>a. Some (al_rule_id a)),
      sn_uri_ok = (\<lambda>_. True)\<rparr>"

theorem multi_emit_alert_result_witness:
  "\<forall>a. \<exists>out. alert_delivery open_env (Grpc_Sink ''soar'' False) a = Some out \<and>
     out \<in> set (snd (snd (multi_emit_alert open_env [Stdout_Sink, Grpc_Sink ''soar'' False] a [])))"
proof
  fix a
  obtain sinks' log' where "multi_emit_alert open_env [Stdout_Sink, Grpc_Sink ''soar'' False] a [] = (Emitted, sinks', log')"
    by (simp add: multi_emit_alert_def emit_defs open_env_def)
  with multi_emit_alert_result [OF this] show "\<exists>out. alert_delivery open_env (Grpc_Sink ''soar'' False) a = Some out \<and>
     out \<in> set (snd (snd (multi_emit_alert open_env [Stdout_Sink, Grpc_Sink ''soar'' False] a [])))" by simp
qed

subsection \<open>Building the sinks\<close>

fun config_of_sink :: "sink \<Rightarrow> sink_config" where
  "config_of_sink Stdout_Sink = SC_Stdout"
| "config_of_sink (Ndjson_Sink path) = SC_Ndjson path"
| "config_of_sink (Grpc_Sink endpoint c) = SC_Grpc endpoint"

lemma build_sink_config: "build_sink fs open_ok w c = (Some s, w') \<Longrightarrow> config_of_sink s = c"
  by (auto simp: build_sink_def ndjson_new_def grpc_new_def split: sink_config.splits option.splits prod.splits bool.splits if_splits)

lemma build_each_config: "build_each fs open_ok w cs = (Some ss, w') \<Longrightarrow> map config_of_sink ss = cs"
  by (induction cs arbitrary: w ss) (auto split: prod.splits option.splits dest: build_sink_config)

text \<open>The agent has exactly the configured sinks, in order, or standard output when none is
  configured: it never runs without a sink.\<close>

theorem build_sinks_config:
  assumes "build_sinks fs open_ok w configs = (Some sinks, w')"
  shows "map config_of_sink sinks = (if configs = [] then [SC_Stdout] else configs) \<and> sinks \<noteq> []"
  using build_each_config [OF assms [unfolded build_sinks_def]] by (auto split: if_splits)

theorem build_sinks_config_witness:
  "case build_sinks dir_set_fs (\<lambda>_ _. True) {} [] of
     (Some sinks, _) \<Rightarrow> map config_of_sink sinks = [SC_Stdout]
   | (None, _) \<Rightarrow> False"
proof -
  have b: "build_sinks dir_set_fs (\<lambda>_ _. True) {} [] = (Some [Stdout_Sink], {})"
    by (simp add: build_sinks_def build_sink_def ndjson_new_def grpc_new_def)
  with build_sinks_config [OF b] show ?thesis by simp
qed

text \<open>Emitting changes a sink only in whether its client exists.\<close>

lemma emit_event_config: "emit_event env s e log = (r, s', log') \<Longrightarrow> config_of_sink s' = config_of_sink s"
  by (cases s) (auto simp: emit_defs split: option.splits if_splits)

lemma for_sinks_config:
  "for_sinks emit ss log = (r, ss', log') \<Longrightarrow>
   (\<And>s log r s' log'. emit s log = (r, s', log') \<Longrightarrow> config_of_sink s' = config_of_sink s) \<Longrightarrow>
   map config_of_sink ss' = map config_of_sink ss"
proof (induction ss arbitrary: log ss')
  case Nil
  then show ?case by simp
next
  case (Cons s ss)
  obtain r1 s1 log1 where head: "emit s log = (r1, s1, log1)" by (metis prod_cases3)
  with Cons.prems(2) have s1: "config_of_sink s1 = config_of_sink s" by blast
  show ?case
    using Cons.prems(1) head s1 Cons.IH [OF _ Cons.prems(2)]
    by (cases r1) (auto split: prod.splits)
qed

lemma alert_delivery_config:
  assumes "map config_of_sink ss' = map config_of_sink ss"
  shows "map (alert_delivery env) ss' = map (alert_delivery env) ss"
proof -
  have one: "config_of_sink s' = config_of_sink s \<Longrightarrow> alert_delivery env s' = alert_delivery env s" for s s'
    by (cases s; cases s') (auto simp: alert_delivery_def fun_eq_iff)
  from assms have "length ss' = length ss" by (rule map_eq_imp_length_eq)
  then show ?thesis
    using assms
  proof (induction ss' ss rule: list_induct2)
    case (Cons s' ss' s ss)
    then show ?case using one [of s' s] by simp
  qed simp
qed

subsection \<open>Addresses in messages\<close>

lemma event_to_pb_ipv4:
  "ee_dst_addr e = Some (ipv4_to_string ip) \<Longrightarrow> pb_dst_addr (event_to_pb e) = u32_of_ipv4 ip"
  by (simp add: event_to_pb_def parse_ipv4_to_string)

lemma parse_ipv4_colon: "CHR '':'' \<in> set s \<Longrightarrow> parse_ipv4 s = None"
proof -
  assume c: "CHR '':'' \<in> set s"
  have split: "\<exists>p \<in> set (split_on (CHR ''.'') s). CHR '':'' \<in> set p" if "CHR '':'' \<in> set s" for s
    using that by (induction s) (auto split: list.splits)
  have digits: "digits_val n p = None" if "CHR '':'' \<in> set p" for n p
    using that by (induction p arbitrary: n) auto
  from split [OF c] obtain p where p: "p \<in> set (split_on (CHR ''.'') s)" "parse_octet p = None"
    using digits by (auto simp: parse_octet_def)
  then have "None \<in> set (map parse_octet (split_on (CHR ''.'') s))" by force
  then show ?thesis
    by (auto simp: parse_ipv4_def split: list.split option.split)
qed

end
