(* ===== verification/Metrics.thy ===== *)
theory Metrics
  imports Prelude
begin

text \<open>
  \<open>metrics.rs\<close>: the four counters and their increments. A counter vector maps its label values
  to a count; the registry and the text encoding are library code and are not modelled; the HTTP
  endpoint is in \<open>Endpoints\<close>. (The library counts in 64-bit floats, which are exact up to 2^53.)
\<close>

record metrics =
  mt_events :: "string \<times> string \<Rightarrow> nat"
  mt_alerts :: "string \<times> string \<times> string \<Rightarrow> nat"
  mt_suppressed :: "string \<Rightarrow> nat"
  mt_parse_errors :: nat

definition new_metrics :: metrics where
  "new_metrics =
     \<lparr>mt_events = (\<lambda>_. 0), mt_alerts = (\<lambda>_. 0), mt_suppressed = (\<lambda>_. 0), mt_parse_errors = 0\<rparr>"

definition bump :: "('k \<Rightarrow> nat) \<Rightarrow> 'k \<Rightarrow> 'k \<Rightarrow> nat" where
  "bump f k = f(k := Suc (f k))"

definition inc_event :: "string \<Rightarrow> string \<Rightarrow> metrics \<Rightarrow> metrics" where
  "inc_event kind host m = m\<lparr>mt_events := bump (mt_events m) (kind, host)\<rparr>"

definition inc_alert :: "string \<Rightarrow> string \<Rightarrow> string \<Rightarrow> metrics \<Rightarrow> metrics" where
  "inc_alert rule_id severity host m = m\<lparr>mt_alerts := bump (mt_alerts m) (rule_id, severity, host)\<rparr>"

definition inc_suppressed :: "string \<Rightarrow> metrics \<Rightarrow> metrics" where
  "inc_suppressed rule_id m = m\<lparr>mt_suppressed := bump (mt_suppressed m) rule_id\<rparr>"

definition inc_ring_parse_error :: "metrics \<Rightarrow> metrics" where
  "inc_ring_parse_error m = m\<lparr>mt_parse_errors := Suc (mt_parse_errors m)\<rparr>"

definition metric_names :: "string list" where
  "metric_names =
     [''sentinel_events_total'', ''sentinel_alerts_total'', ''sentinel_alerts_suppressed_total'',
      ''sentinel_ring_parse_errors_total'']"

text \<open>
  A counter after a sequence of increments is the number of increments with its labels: counting
  by folding is the same as counting occurrences.
\<close>

lemma bump_apply: "bump f k x = (if x = k then Suc (f x) else f x)"
  by (simp add: bump_def)

lemma fold_bump: "fold (\<lambda>k f. bump f k) ks f x = f x + length (filter ((=) x) ks)"
  by (induction ks arbitrary: f) (simp_all add: bump_apply)

end
