(* ===== verification/Agent.thy ===== *)
theory Agent
  imports Enricher Sigma Suppress Triage Sinks Metrics Pipeline
begin

text \<open>
  \<open>main.rs\<close>: what the daemon does with one event (\<open>process_event\<close>), and the loop over the events.
  An event ends in one of four ways: handled, an error that is logged, a panic that takes the
  daemon down, or an enrichment that never returns.
\<close>

record ('v, 're) agent_env =
  ag_enrich :: enrich_env
  ag_lower :: "string \<Rightarrow> string"
  ag_yaml :: "'v yaml_api"
  ag_regex :: "'re regex_api"
  ag_rules :: "('v, 're) rule_engine"
  ag_triage_env :: triage_env
  ag_triage :: triage_client
  ag_sink :: sink_env
  ag_emit_events :: bool
  ag_triage_enabled :: bool

record agent_state =
  as_enricher :: enricher
  as_suppressor :: suppressor
  as_sinks :: "sink list"
  as_log :: "sink_output list"
  as_metrics :: metrics

datatype ending = Handled | Failed | Panicked | Hangs

text \<open>The two switches that \<open>main\<close> computes from the options.\<close>

definition triage_switch :: "triage_client \<Rightarrow> bool \<Rightarrow> bool" where
  "triage_switch t no_triage \<longleftrightarrow> enabled t \<and> \<not> no_triage"

definition emit_switch :: "bool \<Rightarrow> bool" where
  "emit_switch no_emit_events \<longleftrightarrow> \<not> no_emit_events"

subsection \<open>One alert\<close>

text \<open>The alert after triage: with an outcome, as it was after a logged failure, or a panic.\<close>

definition triage_step :: "('v, 're) agent_env \<Rightarrow> bool \<Rightarrow> alert \<Rightarrow> alert outcome" where
  "triage_step env wants_triage a =
     (if ag_triage_enabled env \<and> wants_triage then
        bind_sum (triage_alert (ag_triage_env env) (ag_triage env) a) (\<lambda>r.
          Inr (case r of Inr result \<Rightarrow> a\<lparr>al_triage := Some result\<rparr> | Inl _ \<Rightarrow> a))
      else Inr a)"

definition export_alert :: "('v, 're) agent_env \<Rightarrow> alert \<Rightarrow> agent_state \<Rightarrow> ending \<times> agent_state" where
  "export_alert env a st =
     (let m = inc_alert (al_rule_id a) (al_severity a) (ee_host (al_event a)) (as_metrics st)
      in case multi_emit_alert (ag_sink env) (as_sinks st) a (as_log st) of
           (r, sinks', log') \<Rightarrow>
             ((case r of Emitted \<Rightarrow> Handled | Emit_Error \<Rightarrow> Failed | Emit_Panic \<Rightarrow> Panicked),
              st\<lparr>as_metrics := m, as_sinks := sinks', as_log := log'\<rparr>))"

definition process_alert :: "('v, 're) agent_env \<Rightarrow> alert \<Rightarrow> agent_state \<Rightarrow> ending \<times> agent_state" where
  "process_alert env a st =
     (let wants_alert = should_alert (ag_rules env) (al_rule_id a);
          wants_triage = should_triage (ag_rules env) (al_rule_id a)
      in if \<not> wants_alert \<and> \<not> wants_triage then (Handled, st)
         else
           (let (admitted, lim) =
              (if wants_alert
               then allow (as_suppressor st) (al_rule_id a) (ee_pid (al_event a)) (al_timestamp_ns a)
               else (True, as_suppressor st));
                st1 = st\<lparr>as_suppressor := lim\<rparr>
            in if \<not> admitted
               then (Handled, st1\<lparr>as_metrics := inc_suppressed (al_rule_id a) (as_metrics st1)\<rparr>)
               else
                 (case triage_step env wants_triage a of
                    Inl _ \<Rightarrow> (Panicked, st1)
                  | Inr a' \<Rightarrow>
                      if wants_alert \<or> al_triage a' \<noteq> None then export_alert env a' st1
                      else (Handled, st1))))"

text \<open>The loop over the alerts of an event; an error leaves the rest undone.\<close>

fun process_alerts :: "('v, 're) agent_env \<Rightarrow> alert list \<Rightarrow> agent_state \<Rightarrow> ending \<times> agent_state" where
  "process_alerts env [] st = (Handled, st)"
| "process_alerts env (a # as) st =
     (case process_alert env a st of
        (Handled, st') \<Rightarrow> process_alerts env as st'
      | (r, st') \<Rightarrow> (r, st'))"

subsection \<open>One event\<close>

definition process_event :: "('v, 're) agent_env \<Rightarrow> sentinel_event \<Rightarrow> agent_state \<Rightarrow> ending \<times> agent_state" where
  "process_event env raw st =
     (case enrich (ag_enrich env) (as_enricher st) raw of
        None \<Rightarrow> (Hangs, st)
      | Some (event, en) \<Rightarrow>
          (let st1 = st\<lparr>as_enricher := en,
                        as_metrics := inc_event (ee_kind event) (ee_host event) (as_metrics st)\<rparr>;
               alerts = evaluate (ag_lower env) (ag_yaml env) (ag_regex env) (ag_rules env) event
           in if ag_emit_events env then
                (case multi_emit_event (ag_sink env) (as_sinks st1) event (as_log st1) of
                   (r, sinks', log') \<Rightarrow>
                     (let st2 = st1\<lparr>as_sinks := sinks', as_log := log'\<rparr>
                      in case r of
                           Emitted \<Rightarrow> process_alerts env alerts st2
                         | Emit_Error \<Rightarrow> (Failed, st2)
                         | Emit_Panic \<Rightarrow> (Panicked, st2)))
              else process_alerts env alerts st1))"

text \<open>The loop of \<open>main\<close> over the events it receives: an error is logged and the loop goes on.\<close>

fun event_loop :: "('v, 're) agent_env \<Rightarrow> sentinel_event list \<Rightarrow> agent_state \<Rightarrow> ending \<times> agent_state" where
  "event_loop env [] st = (Handled, st)"
| "event_loop env (raw # raws) st =
     (case process_event env raw st of
        (Panicked, st') \<Rightarrow> (Panicked, st')
      | (Hangs, st') \<Rightarrow> (Hangs, st')
      | (_, st') \<Rightarrow> event_loop env raws st')"

subsection \<open>What the alerts of an event lead to\<close>

text \<open>
  The requests the limiter sees, in order, and the selection of the alerts that are exported,
  given its answers: an alert whose rule asks for alerting needs a positive answer, one whose
  rule only asks for triage needs a triage outcome, and an alert without either is dropped.
\<close>

definition requests_of :: "('v, 're) agent_env \<Rightarrow> alert list \<Rightarrow> request list" where
  "requests_of env alerts =
     map (\<lambda>a. (al_rule_id a, ee_pid (al_event a), al_timestamp_ns a))
       (filter (\<lambda>a. should_alert (ag_rules env) (al_rule_id a)) alerts)"

definition triaged :: "('v, 're) agent_env \<Rightarrow> alert \<Rightarrow> alert" where
  "triaged env a =
     (case triage_step env (should_triage (ag_rules env) (al_rule_id a)) a of Inr a' \<Rightarrow> a' | Inl _ \<Rightarrow> a)"

fun exported :: "('v, 're) agent_env \<Rightarrow> bool list \<Rightarrow> alert list \<Rightarrow> alert list" where
  "exported env answers [] = []"
| "exported env answers (a # as) =
     (if should_alert (ag_rules env) (al_rule_id a)
      then (if hd answers then [triaged env a] else []) @ exported env (tl answers) as
      else (if al_triage (triaged env a) \<noteq> None \<and> should_triage (ag_rules env) (al_rule_id a)
            then [triaged env a] else []) @ exported env answers as)"

fun denied :: "bool list \<Rightarrow> request list \<Rightarrow> string list" where
  "denied (b # bs) ((rule_id, _) # qs) = (if b then [] else [rule_id]) @ denied bs qs"
| "denied _ _ = []"

definition alert_labels :: "alert \<Rightarrow> string \<times> string \<times> string" where
  "alert_labels a = (al_rule_id a, al_severity a, ee_host (al_event a))"

lemma run_allow_Cons:
  "fst (run allow_step s ((r, p, t) # qs)) = fst (allow s r p t) # fst (run allow_step (snd (allow s r p t)) qs)"
  "snd (run allow_step s ((r, p, t) # qs)) = snd (run allow_step (snd (allow s r p t)) qs)"
  by (simp_all add: run_Cons allow_step_def del: run.simps(2))

text \<open>An export that is handled has delivered to every sink.\<close>

lemma export_alert_handled:
  assumes "export_alert env a st = (Handled, st')"
  shows "as_suppressor st' = as_suppressor st \<and> as_enricher st' = as_enricher st \<and>
    map (alert_delivery (ag_sink env)) (as_sinks st') = map (alert_delivery (ag_sink env)) (as_sinks st) \<and>
    prefix (as_log st) (as_log st') \<and>
    as_metrics st' = inc_alert (al_rule_id a) (al_severity a) (ee_host (al_event a)) (as_metrics st) \<and>
    (\<forall>s \<in> set (as_sinks st). \<exists>out. alert_delivery (ag_sink env) s a = Some out \<and>
       out \<in> set (drop (length (as_log st)) (as_log st')))"
proof -
  obtain r sinks' log' where run: "multi_emit_alert (ag_sink env) (as_sinks st) a (as_log st) = (r, sinks', log')"
    by (metis prod_cases3)
  then have r: "r = Emitted" and st': "as_sinks st' = sinks'" "as_log st' = log'"
    "as_suppressor st' = as_suppressor st" "as_enricher st' = as_enricher st"
    "as_metrics st' = inc_alert (al_rule_id a) (al_severity a) (ee_host (al_event a)) (as_metrics st)"
    using assms by (auto simp: export_alert_def Let_def split: emission.splits)
  note run' = run [unfolded r multi_emit_alert_def]
  show ?thesis
    using al.for_sinks_prefix [OF run'] al.for_sinks_same [OF run'] al.for_sinks_delivers [OF run']
    by (simp add: st')
qed

text \<open>Every sink has put out the alert between the two logs.\<close>

definition delivered :: "sink_env \<Rightarrow> sink list \<Rightarrow> sink_output list \<Rightarrow> sink_output list \<Rightarrow> alert \<Rightarrow> bool" where
  "delivered env sinks log log' a \<longleftrightarrow>
     (\<forall>d \<in> set (map (alert_delivery env) sinks). \<exists>out. d a = Some out \<and> out \<in> set (drop (length log) log'))"

lemma delivered_later:
  "prefix log log1 \<Longrightarrow> prefix log1 log2 \<Longrightarrow>
   delivered env sinks log log1 a \<or> delivered env sinks log1 log2 a \<Longrightarrow> delivered env sinks log log2 a"
  unfolding delivered_def using al.drop_prefix_mono by meson

lemma delivered_sinks:
  "map (alert_delivery env) sinks = map (alert_delivery env) sinks' \<Longrightarrow>
   delivered env sinks log log' a = delivered env sinks' log log' a"
  by (simp only: delivered_def)

text \<open>What a stretch of handling leaves behind, relative to the answers and the exports.\<close>

definition handled_as ::
  "('v, 're) agent_env \<Rightarrow> agent_state \<Rightarrow> agent_state \<Rightarrow> suppressor \<Rightarrow> alert list \<Rightarrow> string list \<Rightarrow> bool" where
  "handled_as env st st' lim exps refused \<longleftrightarrow>
     as_suppressor st' = lim \<and> as_enricher st' = as_enricher st \<and>
     map (alert_delivery (ag_sink env)) (as_sinks st') = map (alert_delivery (ag_sink env)) (as_sinks st) \<and>
     prefix (as_log st) (as_log st') \<and>
     mt_events (as_metrics st') = mt_events (as_metrics st) \<and>
     (\<forall>k. mt_alerts (as_metrics st') k =
        mt_alerts (as_metrics st) k + length (filter ((=) k) (map alert_labels exps))) \<and>
     (\<forall>r. mt_suppressed (as_metrics st') r = mt_suppressed (as_metrics st) r + length (filter ((=) r) refused)) \<and>
     (\<forall>a \<in> set exps. delivered (ag_sink env) (as_sinks st) (as_log st) (as_log st') a)"

lemma handled_as_trans:
  assumes "handled_as env st st1 lim1 e1 r1" "handled_as env st1 st2 lim2 e2 r2"
  shows "handled_as env st st2 lim2 (e1 @ e2) (r1 @ r2)"
proof -
  have p: "prefix (as_log st) (as_log st1)" "prefix (as_log st1) (as_log st2)"
    using assms by (simp_all add: handled_as_def)
  have "delivered (ag_sink env) (as_sinks st) (as_log st) (as_log st2) a" if "a \<in> set (e1 @ e2)" for a
  proof (cases "a \<in> set e1")
    case True
    then have "delivered (ag_sink env) (as_sinks st) (as_log st) (as_log st1) a"
      using assms(1) by (simp add: handled_as_def)
    then show ?thesis using delivered_later [OF p] by blast
  next
    case False
    with that assms(2) have "delivered (ag_sink env) (as_sinks st1) (as_log st1) (as_log st2) a"
      by (simp add: handled_as_def)
    moreover have "map (alert_delivery (ag_sink env)) (as_sinks st1) = map (alert_delivery (ag_sink env)) (as_sinks st)"
      using assms(1) by (simp add: handled_as_def)
    ultimately have "delivered (ag_sink env) (as_sinks st) (as_log st1) (as_log st2) a"
      by (simp only: delivered_def)
    then show ?thesis using delivered_later [OF p] by blast
  qed
  then show ?thesis
    using assms prefix_order.trans [OF p] by (simp add: handled_as_def)
qed

lemma triaged_same: "(triaged env a)\<lparr>al_triage := t\<rparr> = a\<lparr>al_triage := t\<rparr>"
proof (cases "triage_alert (ag_triage_env env) (ag_triage env) a")
  case (Inr r)
  then show ?thesis by (cases r) (simp_all add: triaged_def triage_step_def)
qed (simp add: triaged_def triage_step_def)

lemma export_handled_as:
  assumes "export_alert env a st = (Handled, st')"
  shows "handled_as env st st' (as_suppressor st) [a] []"
  using export_alert_handled [OF assms]
  by (auto simp: handled_as_def delivered_def inc_alert_def bump_apply alert_labels_def)

lemma handled_as_sup: "handled_as env (st\<lparr>as_suppressor := s\<rparr>) st' lim e r \<Longrightarrow> handled_as env st st' lim e r"
  by (simp add: handled_as_def)

lemma process_alert_handled:
  assumes "process_alert env a st = (Handled, st')"
  shows "handled_as env st st'
    (snd (run allow_step (as_suppressor st) (requests_of env [a])))
    (exported env (fst (run allow_step (as_suppressor st) (requests_of env [a]))) [a])
    (denied (fst (run allow_step (as_suppressor st) (requests_of env [a]))) (requests_of env [a]))"
proof (cases "should_alert (ag_rules env) (al_rule_id a)")
  case True
  obtain ok lim where allow: "allow (as_suppressor st) (al_rule_id a) (ee_pid (al_event a)) (al_timestamp_ns a) = (ok, lim)"
    by fastforce
  have run: "run allow_step (as_suppressor st) (requests_of env [a]) = ([ok], lim)"
    by (simp add: requests_of_def True allow_step_def allow)
  let ?st1 = "st\<lparr>as_suppressor := lim\<rparr>"
  show ?thesis
  proof (cases ok)
    case False
    with assms True allow have "st' = ?st1\<lparr>as_metrics := inc_suppressed (al_rule_id a) (as_metrics st)\<rparr>"
      by (simp add: process_alert_def Let_def)
    with True False show ?thesis
      unfolding run by (simp add: handled_as_def inc_suppressed_def bump_apply requests_of_def)
  next
    case ok: True
    with assms True allow obtain a' where a': "triage_step env (should_triage (ag_rules env) (al_rule_id a)) a = Inr a'"
      and "export_alert env a' ?st1 = (Handled, st')"
      by (auto simp: process_alert_def Let_def split: sum.splits)
    from handled_as_sup [OF export_handled_as [OF this(2)]] have "handled_as env st st' lim [a'] []"
      by simp
    with True ok a' show ?thesis
      unfolding run by (simp add: triaged_def requests_of_def)
  qed
next
  case False
  have run: "run allow_step (as_suppressor st) (requests_of env [a]) = ([], as_suppressor st)"
    "requests_of env [a] = []"
    by (simp_all add: requests_of_def False)
  have same: "handled_as env st st (as_suppressor st) [] []" by (simp add: handled_as_def)
  show ?thesis
  proof (cases "should_triage (ag_rules env) (al_rule_id a)")
    case no: False
    with assms False have "st' = st" by (simp add: process_alert_def Let_def)
    with same no False show ?thesis unfolding run by simp
  next
    case yes: True
    have st: "st\<lparr>as_suppressor := as_suppressor st\<rparr> = st" by simp
    from yes obtain a' where a': "triage_step env True a = Inr a'"
      and out: "(if al_triage a' \<noteq> None then export_alert env a' st else (Handled, st)) = (Handled, st')"
      using assms False by (auto simp: process_alert_def Let_def st split: sum.splits if_splits)
    have t: "triaged env a = a'" using a' yes by (simp add: triaged_def)
    show ?thesis
    proof (cases "al_triage a' = None")
      case True
      with out same t False yes show ?thesis unfolding run by simp
    next
      case outcome: False
      with out have "export_alert env a' st = (Handled, st')" by simp
      from export_handled_as [OF this] outcome t False yes show ?thesis unfolding run by simp
    qed
  qed
qed

lemma requests_of_Cons:
  "requests_of env (a # as) = requests_of env [a] @ requests_of env as"
  by (simp add: requests_of_def)

lemma run_append:
  "run step s (xs @ ys) =
     (fst (run step s xs) @ fst (run step (snd (run step s xs)) ys), snd (run step (snd (run step s xs)) ys))"
  by (induction xs arbitrary: s) (auto split: prod.splits)

text \<open>The answers and exports of a list of alerts are those of its first alert and of the rest.\<close>

lemma exports_Cons:
  assumes "run allow_step s (requests_of env [a]) = (bs, s1)"
  shows "exported env (bs @ cs) (a # as) = exported env bs [a] @ exported env cs as"
    "denied (bs @ cs) (requests_of env (a # as)) = denied bs (requests_of env [a]) @ denied cs (requests_of env as)"
  using assms
  by (auto simp: requests_of_def split: if_splits prod.splits)

lemma process_alerts_handled:
  "process_alerts env alerts st = (Handled, st') \<Longrightarrow>
   handled_as env st st'
     (snd (run allow_step (as_suppressor st) (requests_of env alerts)))
     (exported env (fst (run allow_step (as_suppressor st) (requests_of env alerts))) alerts)
     (denied (fst (run allow_step (as_suppressor st) (requests_of env alerts))) (requests_of env alerts))"
proof (induction alerts arbitrary: st)
  case Nil
  then show ?case by (simp add: handled_as_def requests_of_def)
next
  case (Cons a as)
  then obtain st1 where one: "process_alert env a st = (Handled, st1)"
    and rest: "process_alerts env as st1 = (Handled, st')"
    by (auto split: prod.splits ending.splits)
  obtain bs lim where run1: "run allow_step (as_suppressor st) (requests_of env [a]) = (bs, lim)" by fastforce
  have h1: "handled_as env st st1 lim (exported env bs [a]) (denied bs (requests_of env [a]))"
    using process_alert_handled [OF one] by (simp only: run1 fst_conv snd_conv)
  then have lim: "as_suppressor st1 = lim" by (simp add: handled_as_def)
  obtain cs lim2 where run2: "run allow_step lim (requests_of env as) = (cs, lim2)" by fastforce
  have h2: "handled_as env st1 st' lim2 (exported env cs as) (denied cs (requests_of env as))"
    using Cons.IH [OF rest] by (simp only: lim run2 fst_conv snd_conv)
  have run: "run allow_step (as_suppressor st) (requests_of env (a # as)) = (bs @ cs, lim2)"
    by (simp only: requests_of_Cons [of env a as] run_append run1 run2 fst_conv snd_conv)
  show ?case
    using handled_as_trans [OF h1 h2]
    by (simp only: run fst_conv snd_conv exports_Cons [OF run1])
qed

lemma handled_event:
  assumes "process_event env raw st = (Handled, st')" "enrich (ag_enrich env) (as_enricher st) raw = Some (event, en)"
    "alerts = evaluate (ag_lower env) (ag_yaml env) (ag_regex env) (ag_rules env) event"
    "run allow_step (as_suppressor st) (requests_of env alerts) = (answers, lim)"
  shows "as_suppressor st' = lim \<and> as_enricher st' = en \<and> prefix (as_log st) (as_log st') \<and>
    mt_events (as_metrics st') = bump (mt_events (as_metrics st)) (ee_kind event, ee_host event) \<and>
    (\<forall>k. mt_alerts (as_metrics st') k =
       mt_alerts (as_metrics st) k + length (filter ((=) k) (map alert_labels (exported env answers alerts)))) \<and>
    (\<forall>r. mt_suppressed (as_metrics st') r =
       mt_suppressed (as_metrics st) r + length (filter ((=) r) (denied answers (requests_of env alerts)))) \<and>
    (\<forall>a \<in> set (exported env answers alerts).
       delivered (ag_sink env) (as_sinks st) (as_log st) (as_log st') a)"
proof -
  let ?st1 = "st\<lparr>as_enricher := en,
      as_metrics := inc_event (ee_kind event) (ee_host event) (as_metrics st)\<rparr>"
  have handled: ?thesis
    if run: "process_alerts env alerts st2 = (Handled, st')"
      and same: "as_suppressor st2 = as_suppressor st" "as_enricher st2 = en"
        "as_metrics st2 = inc_event (ee_kind event) (ee_host event) (as_metrics st)"
        "prefix (as_log st) (as_log st2)"
        "map (alert_delivery (ag_sink env)) (as_sinks st2) = map (alert_delivery (ag_sink env)) (as_sinks st)"
    for st2
  proof -
    have h: "handled_as env st2 st' lim (exported env answers alerts) (denied answers (requests_of env alerts))"
      using process_alerts_handled [OF run] by (simp only: same(1) assms(4) fst_conv snd_conv)
    then have p: "prefix (as_log st2) (as_log st')" by (simp add: handled_as_def)
    have "delivered (ag_sink env) (as_sinks st) (as_log st) (as_log st') a"
      if "a \<in> set (exported env answers alerts)" for a
    proof -
      have "delivered (ag_sink env) (as_sinks st2) (as_log st2) (as_log st') a"
        using h that by (simp add: handled_as_def)
      then have "delivered (ag_sink env) (as_sinks st) (as_log st2) (as_log st') a"
        using delivered_sinks [OF same(5)] by blast
      then show ?thesis using delivered_later [OF same(4) p] by blast
    qed
    with h same(2-4) prefix_order.trans [OF same(4) p] show ?thesis
      by (simp add: handled_as_def inc_event_def)
  qed
  show ?thesis
  proof (cases "ag_emit_events env")
    case False
    with assms(1-3) have "process_alerts env alerts ?st1 = (Handled, st')"
      by (simp add: process_event_def Let_def)
    then show ?thesis by (rule handled) simp_all
  next
    case True
    obtain r sinks' log' where emit: "multi_emit_event (ag_sink env) (as_sinks st) event (as_log st) = (r, sinks', log')"
      by (metis prod_cases3)
    with True assms(1-3) have r: "r = Emitted"
      and run: "process_alerts env alerts (?st1\<lparr>as_sinks := sinks', as_log := log'\<rparr>) = (Handled, st')"
      by (auto simp: process_event_def Let_def split: emission.splits)
    note emit' = emit [unfolded multi_emit_event_def]
    have "map config_of_sink sinks' = map config_of_sink (as_sinks st)"
      using emit' by (rule for_sinks_config) (rule emit_event_config)
    then have "map (alert_delivery (ag_sink env)) sinks' = map (alert_delivery (ag_sink env)) (as_sinks st)"
      by (rule alert_delivery_config)
    with run ev.for_sinks_prefix [OF emit'] show ?thesis by (intro handled [OF run]) simp_all
  qed
qed

text \<open>C9: An event that is handled without an error leads to exactly this: the alerts are those of the
  rules; the limiter is asked, in order, about the alerts whose rules want alerting; what it
  refuses is counted as suppressed; the alerts it lets through, and the triage-only alerts that
  triage has an outcome for, are counted and delivered by every sink, whatever else is output;
  and the event is counted under its kind.\<close>

theorem process_event_handled:
  assumes "process_event env raw st = (Handled, st')" "enrich (ag_enrich env) (as_enricher st) raw = Some (event, en)"
    "alerts = evaluate (ag_lower env) (ag_yaml env) (ag_regex env) (ag_rules env) event"
    "run allow_step (as_suppressor st) (requests_of env alerts) = (answers, lim)"
  shows "as_suppressor st' = lim \<and> as_enricher st' = en \<and> prefix (as_log st) (as_log st') \<and>
    mt_events (as_metrics st') = bump (mt_events (as_metrics st)) (ee_kind event, ee_host event) \<and>
    (\<forall>k. mt_alerts (as_metrics st') k =
       mt_alerts (as_metrics st) k + length (filter ((=) k) (map alert_labels (exported env answers alerts)))) \<and>
    (\<forall>r. mt_suppressed (as_metrics st') r =
       mt_suppressed (as_metrics st) r + length (filter ((=) r) (denied answers (requests_of env alerts)))) \<and>
    (\<forall>a \<in> set (exported env answers alerts).
       delivered (ag_sink env) (as_sinks st) (as_log st) (as_log st') a)"
  using assms by (rule handled_event)

text \<open>An agent with one rule and one sink, for concrete inputs.\<close>

definition sample_env :: "sink_env \<Rightarrow> (yval, string) agent_env" where
  "sample_env senv =
     \<lparr>ag_enrich = quiet_enrich_env,
      ag_lower = id, ag_yaml = yval_api, ag_regex = literal_regex,
      ag_rules = [\<lparr>cr_rule = sample_rule ''r'' (CG_Single \<lparr>cd_field = ''comm'', cd_op = Eq, cd_value = Y_Str ''sh''\<rparr>) [],
        cr_regexes = Map.empty\<rparr>],
      ag_triage_env = \<lparr>te_event_json = (\<lambda>_. None), te_post = (\<lambda>_ _. Send_Failed),
        te_parse_result = (\<lambda>_. None), te_debug_str = id\<rparr>,
      ag_triage = new_triage (\<lambda>_. None) triage_config_default,
      ag_sink = senv, ag_emit_events = True, ag_triage_enabled = False\<rparr>"

definition sample_state :: agent_state where
  "sample_state =
     \<lparr>as_enricher = bare_enricher Map.empty, as_suppressor = new_suppressor suppression_config_default,
      as_sinks = [Stdout_Sink], as_log = [], as_metrics = new_metrics\<rparr>"

abbreviation sample_raw :: sentinel_event where
  "sample_raw \<equiv> sample_event Exec 42 0 ''nc'' ''/bin/sh''"

lemma sample_enrich:
  "\<exists>e en. enrich (ag_enrich (sample_env senv)) (as_enricher sample_state) sample_raw = Some (e, en) \<and>
     ee_comm e = ''sh'' \<and> ee_host e = ''h'' \<and> ee_kind e = ''exec''"
proof -
  have comm: "event_comm sample_raw = ''sh''"
  proof -
    have "file_name ''/bin/sh'' = Some ''sh''" by code_simp
    then show ?thesis by (simp add: event_comm_def path_basename_def del: kind_as_u32.simps)
  qed
  have "lineage (update_tree (bare_enricher Map.empty) sample_raw) 0 = Some []"
    by (simp add: lineage_def lineage_loop.simps)
  then show ?thesis
    by (simp add: enrich_def sample_state_def enriched_of_def comm Let_def del: kind_as_u32.simps)
qed

lemma sample_alerts:
  "ee_comm e = ''sh'' \<Longrightarrow>
   evaluate (ag_lower (sample_env senv)) (ag_yaml (sample_env senv)) (ag_regex (sample_env senv))
     (ag_rules (sample_env senv)) e =
   [alert_of (sample_rule ''r'' (CG_Single \<lparr>cd_field = ''comm'', cd_op = Eq, cd_value = Y_Str ''sh''\<rparr>) []) e]"
  by (simp add: sample_env_def sample_rule_def default_true_def matches_def match_condition_def
      values_equal_def yval_api_def field_def)

lemma sample_allow: "fst (allow (new_suppressor suppression_config_default) r p t)"
  by (simp add: fst_allow live_bucket_def limit_of_new rate_limit_from_def suppression_config_default_def
      rate_limit_config_default_def default_max_alerts_def)

theorem process_event_handled_witness:
  "\<exists>st'. process_event (sample_env open_env) sample_raw sample_state = (Handled, st') \<and>
     mt_alerts (as_metrics st') (''r'', ''medium'', ''h'') = 1"
proof -
  obtain e en where e: "enrich (ag_enrich (sample_env open_env)) (as_enricher sample_state) sample_raw = Some (e, en)"
    and comm: "ee_comm e = ''sh''" "ee_host e = ''h''"
    using sample_enrich by blast
  let ?a = "alert_of (sample_rule ''r'' (CG_Single \<lparr>cd_field = ''comm'', cd_op = Eq, cd_value = Y_Str ''sh''\<rparr>) []) e"
  obtain lim where allow: "allow (new_suppressor suppression_config_default) (al_rule_id ?a) (ee_pid (al_event ?a))
      (al_timestamp_ns ?a) = (True, lim)"
    using sample_allow [of "al_rule_id ?a" "ee_pid (al_event ?a)" "al_timestamp_ns ?a"]
    by (cases "allow (new_suppressor suppression_config_default) (al_rule_id ?a) (ee_pid (al_event ?a))
      (al_timestamp_ns ?a)") simp
  have rid: "al_rule_id ?a = ''r''" by (simp add: alert_of_def sample_rule_def)
  have wants: "should_alert (ag_rules (sample_env open_env)) ''r''" "\<not> should_triage (ag_rules (sample_env open_env)) ''r''"
    by (simp_all add: sample_env_def should_alert_def should_triage_def find_rule_def sample_rule_def)
  have senv: "ag_sink (sample_env open_env) = open_env" "ag_emit_events (sample_env open_env)"
    "\<not> ag_triage_enabled (sample_env open_env)" by (simp_all add: sample_env_def)
  have state: "as_sinks sample_state = [Stdout_Sink]" "as_log sample_state = []"
    "as_suppressor sample_state = new_suppressor suppression_config_default"
    "as_metrics sample_state = new_metrics"
    by (simp_all add: sample_state_def)
  have sinks: "multi_emit_event open_env [Stdout_Sink] e log = (Emitted, [Stdout_Sink], log @ [Print_Line (ee_kind e)])"
    "multi_emit_alert open_env [Stdout_Sink] a log = (Emitted, [Stdout_Sink], log @ [Eprint_Line (''ALERT '' @ al_rule_id a)])"
    for a log
    by (simp_all add: multi_emit_event_def multi_emit_alert_def emit_defs open_env_def)
  obtain st' where st': "process_event (sample_env open_env) sample_raw sample_state = (Handled, st')"
    using e allow
    by (simp add: process_event_def process_alert_def export_alert_def triage_step_def senv wants rid state
        sinks sample_alerts [OF comm(1)])
  have run: "run allow_step (as_suppressor sample_state) (requests_of (sample_env open_env) [?a]) = ([True], lim)"
    using allow by (simp add: requests_of_def rid wants allow_step_def state)
  have "mt_alerts (as_metrics st') (''r'', ''medium'', ''h'') = 1"
    using process_event_handled [OF st' e sample_alerts [OF comm(1), symmetric] run]
    by (simp add: rid wants triaged_def triage_step_def senv state new_metrics_def alert_labels_def)
      (simp add: alert_of_def sample_rule_def comm default_severity_def)
  with st' show ?thesis by blast
qed

end
