(* ===== verification/Agent_Loop.thy ===== *)
theory Agent_Loop
  imports Agent
begin

text \<open>
  The event loop of \<open>main.rs\<close> over many events: what an event leaves unchanged however it ends,
  the event counter, and what a telemetry sink that fails does to detection.
\<close>

subsection \<open>What the handling of alerts leaves unchanged\<close>

definition keeps :: "agent_state \<Rightarrow> agent_state \<Rightarrow> bool" where
  "keeps st st' \<longleftrightarrow>
     as_enricher st' = as_enricher st \<and> mt_events (as_metrics st') = mt_events (as_metrics st) \<and>
     mt_parse_errors (as_metrics st') = mt_parse_errors (as_metrics st)"

lemma keeps_refl [simp, intro]: "keeps st st"
  by (simp add: keeps_def)

lemma keeps_trans: "keeps st st1 \<Longrightarrow> keeps st1 st2 \<Longrightarrow> keeps st st2"
  by (simp add: keeps_def)

lemma keeps_suppressor [simp]: "keeps (st\<lparr>as_suppressor := s\<rparr>) st' = keeps st st'"
  by (simp add: keeps_def)

lemma export_alert_keeps: "export_alert env a st = (r, st') \<Longrightarrow> keeps st st'"
  by (auto simp: export_alert_def keeps_def inc_alert_def Let_def split: prod.splits)

lemma process_alert_keeps: "process_alert env a st = (r, st') \<Longrightarrow> keeps st st'"
  by (auto simp: process_alert_def Let_def inc_suppressed_def
      split: if_splits prod.splits sum.splits dest!: export_alert_keeps)
    (auto simp: keeps_def)

lemma process_alerts_keeps: "process_alerts env as st = (r, st') \<Longrightarrow> keeps st st'"
proof (induction "as" arbitrary: st)
  case (Cons a "as")
  obtain r1 st1 where one: "process_alert env a st = (r1, st1)" by fastforce
  with Cons show ?case
    by (cases r1) (auto intro: keeps_trans [OF process_alert_keeps [OF one]])
qed simp

subsection \<open>The event counter\<close>

lemma update_tree_host [simp]: "en_host (update_tree en raw) = en_host en"
  by (simp add: update_tree_def Let_def)

lemma enrich_labels:
  "enrich env en raw = Some (e, en') \<Longrightarrow>
   ee_kind e = kind_name (se_kind raw) \<and> ee_host e = en_host en \<and> en_host en' = en_host en"
  by (auto simp: enrich_def enriched_of_def Let_def split: option.splits)

text \<open>Every event that enrichment returns from is counted, whether it is handled, fails or panics.\<close>

lemma process_event_counts:
  assumes "process_event env raw st = (r, st')" "r \<noteq> Hangs"
  shows "mt_events (as_metrics st') =
      bump (mt_events (as_metrics st)) (kind_name (se_kind raw), en_host (as_enricher st)) \<and>
    en_host (as_enricher st') = en_host (as_enricher st) \<and>
    mt_parse_errors (as_metrics st') = mt_parse_errors (as_metrics st)"
proof -
  obtain e en where enrich: "enrich (ag_enrich env) (as_enricher st) raw = Some (e, en)"
    using assms by (cases "enrich (ag_enrich env) (as_enricher st) raw") (auto simp: process_event_def)
  let ?st1 = "st\<lparr>as_enricher := en, as_metrics := inc_event (ee_kind e) (ee_host e) (as_metrics st)\<rparr>"
  have "keeps ?st1 st'"
    using assms(1) enrich
    by (auto simp: process_event_def Let_def keeps_def split: if_splits prod.splits emission.splits
        dest!: process_alerts_keeps)
  with enrich_labels [OF enrich] show ?thesis by (simp add: keeps_def inc_event_def)
qed

lemma process_event_endings:
  "process_event env raw st = (r, st') \<Longrightarrow> r = Hangs \<Longrightarrow> st' = st"
proof -
  assume "process_event env raw st = (r, st')" "r = Hangs"
  moreover have "fst (process_alerts env as st1) \<noteq> Hangs" for "as" st1
  proof (induction "as" arbitrary: st1)
    case (Cons a "as")
    have "fst (process_alert env a st1) \<noteq> Hangs"
      by (auto simp: process_alert_def export_alert_def Let_def
          split: if_splits prod.splits sum.splits emission.splits)
    with Cons show ?case by (auto split: prod.splits ending.splits)
  qed simp
  then have "process_alerts env as st1 \<noteq> (Hangs, st2)" for "as" st1 st2
    by (metis fst_conv)
  ultimately show ?thesis
    by (auto simp: process_event_def Let_def split: option.splits prod.splits if_splits emission.splits)
qed

text \<open>After the loop has gone over a list of events, the counter of every kind and host has grown
  by the number of events of that kind: no event is left out or counted twice, also when its
  handling failed.\<close>

theorem events_counted:
  assumes "event_loop env raws st = (Handled, st')"
  shows "mt_events (as_metrics st') (k, h) = mt_events (as_metrics st) (k, h) +
    (if h = en_host (as_enricher st) then length (filter (\<lambda>raw. kind_name (se_kind raw) = k) raws) else 0)"
  using assms
proof (induction raws arbitrary: st)
  case (Cons raw raws)
  obtain r st1 where one: "process_event env raw st = (r, st1)" by fastforce
  with Cons.prems have r: "r \<noteq> Hangs" and rest: "event_loop env raws st1 = (Handled, st')"
    by (cases r; simp)+
  from process_event_counts [OF one r] Cons.IH [OF rest] show ?case
    by (auto simp: bump_apply)
qed simp

text \<open>The agent without rules handles the sample event.\<close>

lemma sample_handled:
  "\<exists>st'. event_loop ((sample_env open_env)\<lparr>ag_rules := []\<rparr>) [sample_raw] sample_state = (Handled, st')"
proof -
  obtain e en where "enrich (ag_enrich (sample_env open_env)) (as_enricher sample_state) sample_raw = Some (e, en)"
    using sample_enrich by blast
  moreover have "multi_emit_event open_env [Stdout_Sink] e log = (Emitted, [Stdout_Sink], log @ [Print_Line (ee_kind e)])"
    for log
    by (simp add: multi_emit_event_def emit_defs open_env_def)
  moreover have "as_sinks sample_state = [Stdout_Sink]" "ag_sink (sample_env open_env) = open_env"
    "ag_emit_events (sample_env open_env)"
    by (simp_all add: sample_state_def sample_env_def)
  ultimately show ?thesis by (simp add: process_event_def Let_def)
qed

theorem events_counted_witness:
  "\<exists>st'. event_loop ((sample_env open_env)\<lparr>ag_rules := []\<rparr>) [sample_raw] sample_state = (Handled, st') \<and>
     mt_events (as_metrics st') (''exec'', ''h'') = 1"
proof -
  obtain st' where st': "event_loop ((sample_env open_env)\<lparr>ag_rules := []\<rparr>) [sample_raw] sample_state = (Handled, st')"
    using sample_handled by blast
  from events_counted [OF this, of "''exec''" "''h''"] have "mt_events (as_metrics st') (''exec'', ''h'') = 1"
    by (simp add: sample_state_def new_metrics_def del: kind_as_u32.simps)
  with st' show ?thesis by blast
qed

subsection \<open>A telemetry sink that cannot be reached\<close>

definition unreachable :: "sink_env \<Rightarrow> string \<Rightarrow> bool" where
  "unreachable senv endpoint \<longleftrightarrow> (\<forall>log. \<not> sn_ok senv log (Connect_To endpoint))"

text \<open>The outputs that only alerts cause.\<close>

fun alert_output :: "sink_output \<Rightarrow> bool" where
  "alert_output (Eprint_Line _) = True"
| "alert_output (Publish_Alert _ _) = True"
| "alert_output _ = False"

lemma emit_event_unreachable:
  "unreachable senv ep \<Longrightarrow> emit_event senv (Grpc_Sink ep False) e log = (Emit_Error, Grpc_Sink ep False, log)"
  by (simp add: unreachable_def emit_defs)

lemma for_sinks_unreachable:
  "for_sinks (\<lambda>s. emit_event senv s e) ss log = (r, ss', log') \<Longrightarrow> unreachable senv ep \<Longrightarrow>
   Grpc_Sink ep False \<in> set ss \<Longrightarrow> r \<noteq> Emitted \<and> Grpc_Sink ep False \<in> set ss'"
proof (induction ss arbitrary: log ss')
  case (Cons s ss)
  show ?case
  proof (cases "s = Grpc_Sink ep False")
    case True
    with Cons.prems show ?thesis by (auto simp: emit_event_unreachable simp del: emit_event.simps)
  next
    case False
    with Cons show ?thesis
      by (auto split: prod.splits emission.splits simp del: emit_event.simps)
  qed
qed simp

lemma emit_event_outputs:
  "emit_event senv s e log = (r, s', log') \<Longrightarrow> set (filter alert_output log') = set (filter alert_output log)"
  by (cases s) (auto simp: emit_defs split: option.splits if_splits)

lemma for_sinks_outputs:
  "for_sinks (\<lambda>s. emit_event senv s e) ss log = (r, ss', log') \<Longrightarrow>
   set (filter alert_output log') = set (filter alert_output log)"
proof (induction ss arbitrary: log ss')
  case (Cons s ss)
  obtain r1 s1 log1 where one: "emit_event senv s e log = (r1, s1, log1)" by (metis prod_cases3)
  from emit_event_outputs [OF this] Cons show ?case
    by (auto simp: one split: prod.splits emission.splits simp del: emit_event.simps)
qed simp

text \<open>C36: One gRPC endpoint that cannot be reached switches detection off while telemetry is on: an
  event whose telemetry fails is given up before its rules are evaluated, so whatever the events
  and the rules, the rate limiter is never asked, no alert is counted, and none is printed or
  published, by the sinks that work neither.\<close>

theorem unreachable_sink_silences:
  assumes "event_loop env raws st = (r, st')" "ag_emit_events env"
    "unreachable (ag_sink env) ep" "Grpc_Sink ep False \<in> set (as_sinks st)"
  shows "as_suppressor st' = as_suppressor st \<and>
    mt_alerts (as_metrics st') = mt_alerts (as_metrics st) \<and>
    mt_suppressed (as_metrics st') = mt_suppressed (as_metrics st) \<and>
    set (filter alert_output (as_log st')) = set (filter alert_output (as_log st))"
  using assms(1,4)
proof (induction raws arbitrary: st)
  case (Cons raw raws)
  show ?case
  proof (cases "enrich (ag_enrich env) (as_enricher st) raw")
    case None
    with Cons.prems show ?thesis by (simp add: process_event_def)
  next
    case (Some p)
    then obtain e en where enrich: "enrich (ag_enrich env) (as_enricher st) raw = Some (e, en)"
      by (cases p) auto
    obtain q sinks' log' where emit:
      "for_sinks (\<lambda>s. emit_event (ag_sink env) s e) (as_sinks st) (as_log st) = (q, sinks', log')"
      by (metis prod_cases3)
    from for_sinks_unreachable [OF this assms(3) Cons.prems(2)] have q: "q \<noteq> Emitted"
      and still: "Grpc_Sink ep False \<in> set sinks'" by auto
    let ?st1 = "st\<lparr>as_enricher := en, as_metrics := inc_event (ee_kind e) (ee_host e) (as_metrics st),
      as_sinks := sinks', as_log := log'\<rparr>"
    have one: "process_event env raw st = (if q = Emit_Error then Failed else Panicked, ?st1)"
      using q by (cases q) (simp_all add: process_event_def enrich multi_emit_event_def emit assms(2) Let_def)
    from Cons.prems(1) one still for_sinks_outputs [OF emit] Cons.IH [of ?st1] show ?thesis
      by (cases "q = Emit_Error") (auto simp: inc_event_def)
  qed
qed simp

text \<open>An agent with standard output and a gRPC sink that nobody listens to.\<close>

definition deaf_env :: sink_env where
  "deaf_env = open_env\<lparr>sn_ok := (\<lambda>_ out. case out of Connect_To _ \<Rightarrow> False | _ \<Rightarrow> True)\<rparr>"

theorem unreachable_sink_silences_witness:
  "mt_alerts (as_metrics (snd (event_loop (sample_env deaf_env) [sample_raw]
     (sample_state\<lparr>as_sinks := [Stdout_Sink, Grpc_Sink ''soar'' False]\<rparr>)))) (''r'', ''medium'', ''h'') = 0"
proof -
  let ?st = "sample_state\<lparr>as_sinks := [Stdout_Sink, Grpc_Sink ''soar'' False]\<rparr>"
  obtain r st' where run: "event_loop (sample_env deaf_env) [sample_raw] ?st = (r, st')" by fastforce
  have "ag_emit_events (sample_env deaf_env)" "unreachable (ag_sink (sample_env deaf_env)) ''soar''"
    by (simp_all add: sample_env_def unreachable_def deaf_env_def)
  from unreachable_sink_silences [OF run this] have "mt_alerts (as_metrics st') (''r'', ''medium'', ''h'') = 0"
    by (simp add: sample_state_def new_metrics_def)
  then show ?thesis by (simp only: run snd_conv)
qed

end
