(* ===== verification/Daemon.thy ===== *)
theory Daemon
  imports Agent_Loop
begin

text \<open>
  The running daemon as a transition system: the kernel writes records into the ring buffer, the
  reader thread of \<open>main.rs\<close> parses them and sends the events into a channel that holds 4096, the
  loop of \<open>main\<close> receives and processes them, the container cache is refreshed, and an interrupt
  ends the loop. Steps of the three threads interleave in any order. The lemmas show that the
  pipeline loses, duplicates and reorders nothing, that it always drains, and that the daemon
  does what the sequential loop does.
\<close>

subsection \<open>States and steps\<close>

text \<open>The loop of \<open>main\<close>: at work, left by an interrupt, dead of a panic, or stuck in an event.\<close>

datatype main_loop = Looping | Stopped | Died | Wedged

record daemon =
  dm_ring :: "bytes list"
  dm_hand :: "sentinel_event option"
  dm_chan :: "sentinel_event list"
  dm_reader :: bool
  dm_loop :: main_loop
  dm_agent :: agent_state

definition CHANNEL :: nat where "CHANNEL = 4096"

datatype label =
    Kernel bytes
  | Take
  | Skip
  | Send
  | Quit
  | Recv sentinel_event
  | Refresh "cri_client option"
  | Ctrl_C

definition after_event :: "ending \<Rightarrow> main_loop" where
  "after_event r = (case r of Panicked \<Rightarrow> Died | Hangs \<Rightarrow> Wedged | _ \<Rightarrow> Looping)"

text \<open>The receiving half of the channel lives as long as the future of \<open>main\<close>.\<close>

definition receiver :: "daemon \<Rightarrow> bool" where
  "receiver d \<longleftrightarrow> dm_loop d = Looping \<or> dm_loop d = Wedged"

definition count_parse_error :: "agent_state \<Rightarrow> agent_state" where
  "count_parse_error st = st\<lparr>as_metrics := inc_ring_parse_error (as_metrics st)\<rparr>"

definition set_cache :: "k8s_cache \<Rightarrow> agent_state \<Rightarrow> agent_state" where
  "set_cache cache st = st\<lparr>as_enricher := (as_enricher st)\<lparr>en_k8s := Some cache\<rparr>\<rparr>"

inductive step :: "('v, 're) agent_env \<Rightarrow> daemon \<Rightarrow> label \<Rightarrow> daemon \<Rightarrow> bool" for env where
  kernel: "step env d (Kernel item) (d\<lparr>dm_ring := dm_ring d @ [item]\<rparr>)"
| take: "dm_reader d \<Longrightarrow> dm_hand d = None \<Longrightarrow> dm_ring d = item # rest \<Longrightarrow> parse_ring_event item = Some e \<Longrightarrow>
    step env d Take (d\<lparr>dm_ring := rest, dm_hand := Some e\<rparr>)"
| skip: "dm_reader d \<Longrightarrow> dm_hand d = None \<Longrightarrow> dm_ring d = item # rest \<Longrightarrow> parse_ring_event item = None \<Longrightarrow>
    step env d Skip (d\<lparr>dm_ring := rest, dm_agent := count_parse_error (dm_agent d)\<rparr>)"
| send: "dm_reader d \<Longrightarrow> dm_hand d = Some e \<Longrightarrow> receiver d \<Longrightarrow> length (dm_chan d) < CHANNEL \<Longrightarrow>
    step env d Send (d\<lparr>dm_hand := None, dm_chan := dm_chan d @ [e]\<rparr>)"
| quit: "dm_reader d \<Longrightarrow> dm_hand d = Some e \<Longrightarrow> \<not> receiver d \<Longrightarrow>
    step env d Quit (d\<lparr>dm_hand := None, dm_reader := False\<rparr>)"
| recv: "dm_loop d = Looping \<Longrightarrow> dm_chan d = e # rest \<Longrightarrow> process_event env e (dm_agent d) = (r, st) \<Longrightarrow>
    step env d (Recv e) (d\<lparr>dm_chan := rest, dm_agent := st, dm_loop := after_event r\<rparr>)"
| refresh: "receiver d \<Longrightarrow> en_k8s (as_enricher (dm_agent d)) = Some cache \<Longrightarrow>
    step env d (Refresh connect) (d\<lparr>dm_agent := set_cache (refresh_round cache connect) (dm_agent d)\<rparr>)"
| ctrl_c: "dm_loop d = Looping \<Longrightarrow>
    multi_flush (ag_sink env) (as_sinks (dm_agent d)) (as_log (dm_agent d)) = (r, sinks', log') \<Longrightarrow>
    step env d Ctrl_C (d\<lparr>dm_loop := Stopped, dm_chan := [],
      dm_agent := (dm_agent d)\<lparr>as_sinks := sinks', as_log := log'\<rparr>\<rparr>)"

inductive_cases stepE [elim!]:
  "step env d (Kernel item) d'"
  "step env d Take d'"
  "step env d Skip d'"
  "step env d Send d'"
  "step env d Quit d'"
  "step env d (Recv e) d'"
  "step env d (Refresh c) d'"
  "step env d Ctrl_C d'"

inductive daemon_run :: "('v, 're) agent_env \<Rightarrow> daemon \<Rightarrow> label list \<Rightarrow> daemon \<Rightarrow> bool" for env where
  start: "daemon_run env d [] d"
| more: "daemon_run env d ls d1 \<Longrightarrow> step env d1 l d2 \<Longrightarrow> daemon_run env d (ls @ [l]) d2"

text \<open>
  The labels leave no choice: they are the schedule, and the schedule determines the run. This is
  the executable form of the relations.
\<close>

fun exec_step :: "('v, 're) agent_env \<Rightarrow> daemon \<Rightarrow> label \<Rightarrow> daemon option" where
  "exec_step env d (Kernel item) = Some (d\<lparr>dm_ring := dm_ring d @ [item]\<rparr>)"
| "exec_step env d Take =
     (case (dm_hand d, dm_ring d) of
        (None, item # rest) \<Rightarrow>
          (case parse_ring_event item of
             Some e \<Rightarrow> if dm_reader d then Some (d\<lparr>dm_ring := rest, dm_hand := Some e\<rparr>) else None
           | None \<Rightarrow> None)
      | _ \<Rightarrow> None)"
| "exec_step env d Skip =
     (case (dm_hand d, dm_ring d) of
        (None, item # rest) \<Rightarrow>
          if dm_reader d \<and> parse_ring_event item = None
          then Some (d\<lparr>dm_ring := rest, dm_agent := count_parse_error (dm_agent d)\<rparr>) else None
      | _ \<Rightarrow> None)"
| "exec_step env d Send =
     (case dm_hand d of
        Some e \<Rightarrow> if dm_reader d \<and> receiver d \<and> length (dm_chan d) < CHANNEL
                  then Some (d\<lparr>dm_hand := None, dm_chan := dm_chan d @ [e]\<rparr>) else None
      | None \<Rightarrow> None)"
| "exec_step env d Quit =
     (if dm_reader d \<and> dm_hand d \<noteq> None \<and> \<not> receiver d
      then Some (d\<lparr>dm_hand := None, dm_reader := False\<rparr>) else None)"
| "exec_step env d (Recv e) =
     (case dm_chan d of
        e' # rest \<Rightarrow>
          if dm_loop d = Looping \<and> e' = e
          then (case process_event env e (dm_agent d) of
                  (r, st) \<Rightarrow> Some (d\<lparr>dm_chan := rest, dm_agent := st, dm_loop := after_event r\<rparr>))
          else None
      | [] \<Rightarrow> None)"
| "exec_step env d (Refresh connect) =
     (case en_k8s (as_enricher (dm_agent d)) of
        Some cache \<Rightarrow> if receiver d
          then Some (d\<lparr>dm_agent := set_cache (refresh_round cache connect) (dm_agent d)\<rparr>) else None
      | None \<Rightarrow> None)"
| "exec_step env d Ctrl_C =
     (if dm_loop d = Looping
      then (case multi_flush (ag_sink env) (as_sinks (dm_agent d)) (as_log (dm_agent d)) of
              (r, sinks', log') \<Rightarrow> Some (d\<lparr>dm_loop := Stopped, dm_chan := [],
                dm_agent := (dm_agent d)\<lparr>as_sinks := sinks', as_log := log'\<rparr>\<rparr>))
      else None)"

lemma step_exec: "step env d l d' \<longleftrightarrow> exec_step env d l = Some d'"
proof
  show "step env d l d' \<Longrightarrow> exec_step env d l = Some d'"
    by (cases l) auto
  show "exec_step env d l = Some d' \<Longrightarrow> step env d l d'"
    by (cases l) (auto intro: step.intros split: option.splits list.splits prod.splits if_splits)
qed

fun exec_run :: "('v, 're) agent_env \<Rightarrow> daemon \<Rightarrow> label list \<Rightarrow> daemon option" where
  "exec_run env d [] = Some d"
| "exec_run env d (l # ls) = (case exec_step env d l of Some d1 \<Rightarrow> exec_run env d1 ls | None \<Rightarrow> None)"

lemma exec_run_append:
  "exec_run env d (ls @ ms) = (case exec_run env d ls of Some d1 \<Rightarrow> exec_run env d1 ms | None \<Rightarrow> None)"
  by (induction ls arbitrary: d) (auto split: option.split)

lemma daemon_run_exec: "daemon_run env d ls d' \<longleftrightarrow> exec_run env d ls = Some d'"
proof
  show "daemon_run env d ls d' \<Longrightarrow> exec_run env d ls = Some d'"
    by (induction rule: daemon_run.induct) (auto simp: exec_run_append step_exec)
  show "exec_run env d ls = Some d' \<Longrightarrow> daemon_run env d ls d'"
    by (induction ls arbitrary: d' rule: rev_induct)
      (auto simp: exec_run_append step_exec intro: daemon_run.intros split: option.splits)
qed

definition start_daemon :: "agent_state \<Rightarrow> daemon" where
  "start_daemon st =
     \<lparr>dm_ring = [], dm_hand = None, dm_chan = [], dm_reader = True, dm_loop = Looping, dm_agent = st\<rparr>"

text \<open>What the kernel wrote and what the loop received, from the labels of a run.\<close>

definition written :: "label list \<Rightarrow> bytes list" where
  "written ls = List.map_filter (\<lambda>l. case l of Kernel item \<Rightarrow> Some item | _ \<Rightarrow> None) ls"

definition received :: "label list \<Rightarrow> sentinel_event list" where
  "received ls = List.map_filter (\<lambda>l. case l of Recv e \<Rightarrow> Some e | _ \<Rightarrow> None) ls"

definition parsed :: "bytes list \<Rightarrow> sentinel_event list" where
  "parsed items = List.map_filter parse_ring_event items"

definition rejected :: "bytes list \<Rightarrow> nat" where
  "rejected items = length (filter (\<lambda>item. parse_ring_event item = None) items)"

lemma trace_simps [simp]:
  "written [] = []" "written (ls @ [Kernel item]) = written ls @ [item]"
  "(\<And>item. l \<noteq> Kernel item) \<Longrightarrow> written (ls @ [l]) = written ls"
  "received [] = []" "received (ls @ [Recv e]) = received ls @ [e]"
  "(\<And>e. l \<noteq> Recv e) \<Longrightarrow> received (ls @ [l]) = received ls"
  by (auto simp: written_def received_def List.map_filter_def split: label.splits)

lemma parsed_simps [simp]:
  "parsed [] = []" "parsed (xs @ ys) = parsed xs @ parsed ys"
  "parse_ring_event item = Some e \<Longrightarrow> parsed (item # xs) = e # parsed xs"
  "parse_ring_event item = None \<Longrightarrow> parsed (item # xs) = parsed xs"
  by (simp_all add: parsed_def List.map_filter_def)

lemma rejected_simps [simp]:
  "rejected [] = 0" "rejected (xs @ ys) = rejected xs + rejected ys"
  "parse_ring_event item = Some e \<Longrightarrow> rejected (item # xs) = rejected xs"
  "parse_ring_event item = None \<Longrightarrow> rejected (item # xs) = Suc (rejected xs)"
  by (simp_all add: rejected_def)

subsection \<open>Nothing is lost on the way\<close>

definition in_flight :: "daemon \<Rightarrow> sentinel_event list" where
  "in_flight d = dm_chan d @ (case dm_hand d of Some e \<Rightarrow> [e] | None \<Rightarrow> []) @ parsed (dm_ring d)"

lemma receiver_simps [simp]:
  "dm_loop d = Looping \<Longrightarrow> receiver d" "dm_loop d = Stopped \<Longrightarrow> \<not> receiver d"
  by (simp_all add: receiver_def)

lemma receiver_cong: "dm_loop d = dm_loop d' \<Longrightarrow> receiver d = receiver d'"
  by (simp add: receiver_def)

lemma fifo_step:
  assumes "step env d l d'"
    "prefix (received ls) (parsed (written ls))"
    "receiver d \<longrightarrow> parsed (written ls) = received ls @ in_flight d"
  shows "prefix (received (ls @ [l])) (parsed (written (ls @ [l]))) \<and>
    (receiver d' \<longrightarrow> parsed (written (ls @ [l])) = received (ls @ [l]) @ in_flight d')"
  using assms
proof (cases l)
  case (Kernel item)
  with assms show ?thesis
    by (cases "parse_ring_event item")
      (auto simp: in_flight_def receiver_def prefix_def elim!: stepE)
next
  case (Recv e)
  with assms show ?thesis by (auto simp: in_flight_def receiver_def)
qed (auto simp: in_flight_def receiver_def)

lemma chan_step: "step env d l d' \<Longrightarrow> length (dm_chan d) \<le> CHANNEL \<Longrightarrow> length (dm_chan d') \<le> CHANNEL"
  by (cases l) auto

text \<open>However the kernel, the reader thread, the loop and the other steps interleave: the events
  that the loop has received are, in order, the first of those whose records the kernel wrote; as
  long as the receiver lives, the others are, in order, in the channel, in the reader's hand or in
  the ring buffer; and the channel never holds more than 4096 events.\<close>

theorem pipeline_fifo:
  assumes "daemon_run env (start_daemon st) ls d"
  shows "prefix (received ls) (parsed (written ls)) \<and>
    (receiver d \<longrightarrow> parsed (written ls) = received ls @ in_flight d) \<and> length (dm_chan d) \<le> 4096"
  using assms
proof (induction "start_daemon st" ls d rule: daemon_run.induct)
  case start
  then show ?case by (simp add: in_flight_def start_daemon_def)
next
  case (more ls d1 l d2)
  with fifo_step [OF more(3)] chan_step [OF more(3)] show ?case by (simp add: CHANNEL_def)
qed

subsection \<open>Parse errors\<close>

lemma process_event_parse_errors:
  "process_event env raw st = (r, st') \<Longrightarrow> mt_parse_errors (as_metrics st') = mt_parse_errors (as_metrics st)"
  using process_event_counts process_event_endings by (cases "r = Hangs") blast+

lemma parse_errors_step:
  "step env d l d' \<Longrightarrow>
   mt_parse_errors (as_metrics (dm_agent d')) + rejected (dm_ring d') + rejected (written ls) =
   mt_parse_errors (as_metrics (dm_agent d)) + rejected (dm_ring d) + rejected (written (ls @ [l]))"
  by (cases l)
    (auto simp: count_parse_error_def inc_ring_parse_error_def set_cache_def dest: process_event_parse_errors)

text \<open>The counter of ring-buffer parse errors is the number of records of the wrong size that the
  reader has taken from the ring buffer: those the kernel wrote but for those still in the buffer.\<close>

theorem parse_errors_counted:
  assumes "daemon_run env (start_daemon st) ls d"
  shows "mt_parse_errors (as_metrics (dm_agent d)) + rejected (dm_ring d) =
    mt_parse_errors (as_metrics st) + rejected (written ls)"
  using assms
proof (induction "start_daemon st" ls d rule: daemon_run.induct)
  case start
  then show ?case by (simp add: start_daemon_def)
next
  case (more ls d1 l d2)
  with parse_errors_step [OF more(3), of ls] show ?case by simp
qed

subsection \<open>The pipeline drains\<close>

text \<open>The steps the daemon takes by itself, and the work that is left.\<close>

fun internal :: "label \<Rightarrow> bool" where
  "internal Take = True"
| "internal Skip = True"
| "internal Send = True"
| "internal (Recv _) = True"
| "internal _ = False"

definition backlog :: "daemon \<Rightarrow> nat" where
  "backlog d =
     3 * length (dm_ring d) + (case dm_hand d of Some _ \<Rightarrow> 2 | None \<Rightarrow> 0) + length (dm_chan d)"

lemma internal_decreases: "step env d l d' \<Longrightarrow> internal l \<Longrightarrow> backlog d' < backlog d"
  by (cases l) (auto simp: backlog_def)

lemma idle_is_empty:
  assumes "dm_loop d = Looping" "dm_reader d" "\<nexists>l d'. internal l \<and> step env d l d'"
  shows "dm_ring d = [] \<and> in_flight d = []"
proof -
  have chan: "dm_chan d = []"
  proof (rule ccontr)
    assume "dm_chan d \<noteq> []"
    then obtain e rest where "dm_chan d = e # rest" by (auto simp: neq_Nil_conv)
    moreover obtain r st where "process_event env e (dm_agent d) = (r, st)" by fastforce
    ultimately show False using step.recv [OF assms(1)] assms(3) by (metis internal.simps(4))
  qed
  have hand: "dm_hand d = None"
  proof (rule ccontr)
    assume "dm_hand d \<noteq> None"
    then obtain e where "dm_hand d = Some e" by auto
    with chan assms(1) show False
      using step.send [OF assms(2), of e env] assms(3) by (force simp: CHANNEL_def)
  qed
  have "dm_ring d = []"
  proof (rule ccontr)
    assume "dm_ring d \<noteq> []"
    then obtain item rest where ring: "dm_ring d = item # rest" by (auto simp: neq_Nil_conv)
    show False
    proof (cases "parse_ring_event item")
      case None
      from step.skip [OF assms(2) hand ring this, of env] assms(3) show False by (metis internal.simps(2))
    next
      case (Some e)
      from step.take [OF assms(2) hand ring this, of env] assms(3) show False by (metis internal.simps(1))
    qed
  qed
  with chan hand show ?thesis by (simp add: in_flight_def)
qed

text \<open>C13: The pipeline always drains: there is no endless sequence of internal steps, and a daemon that
  is at work and has none to take has nothing left in the ring buffer, in the reader's hand or in
  the channel. So once the kernel stops writing, every schedule of the threads ends with every
  event received, unless one of them kills or blocks the loop.\<close>

theorem pipeline_drains:
  "wf {(d', d). \<exists>l. internal l \<and> step env d l d'} \<and>
   (\<forall>d. dm_loop d = Looping \<and> dm_reader d \<and> (\<nexists>l d'. internal l \<and> step env d l d') \<longrightarrow>
      dm_ring d = [] \<and> in_flight d = [])"
proof
  have "{(d', d). \<exists>l. internal l \<and> step env d l d'} \<subseteq> measure backlog"
    using internal_decreases by auto
  then show "wf {(d', d). \<exists>l. internal l \<and> step env d l d'}"
    by (rule wf_subset [OF wf_measure])
qed (use idle_is_empty in blast)

subsection \<open>Leaving the loop\<close>



subsection \<open>The daemon and the sequential loop\<close>

text \<open>The counter of parse errors, which the reader thread changes, has no influence on the loop.\<close>

definition with_errors :: "nat \<Rightarrow> agent_state \<Rightarrow> agent_state" where
  "with_errors n st = st\<lparr>as_metrics := (as_metrics st)\<lparr>mt_parse_errors := n\<rparr>\<rparr>"

lemma with_errors_sel [simp]:
  "as_enricher (with_errors n st) = as_enricher st" "as_suppressor (with_errors n st) = as_suppressor st"
  "as_sinks (with_errors n st) = as_sinks st" "as_log (with_errors n st) = as_log st"
  "mt_parse_errors (as_metrics (with_errors n st)) = n"
  by (simp_all add: with_errors_def)

lemma with_errors_same [simp]: "with_errors (mt_parse_errors (as_metrics st)) st = st"
  by (simp add: with_errors_def)

lemma with_errors_twice [simp]: "with_errors n (with_errors m st) = with_errors n st"
  by (simp add: with_errors_def)

lemma export_alert_errors:
  "export_alert env a (with_errors n st) = apsnd (with_errors n) (export_alert env a st)"
  by (simp add: export_alert_def with_errors_def inc_alert_def Let_def split: prod.split)

lemma process_alert_errors:
  "process_alert env a (with_errors n st) = apsnd (with_errors n) (process_alert env a st)"
proof -
  have "(with_errors n st)\<lparr>as_suppressor := s\<rparr> = with_errors n (st\<lparr>as_suppressor := s\<rparr>)" for s
    by (simp add: with_errors_def)
  moreover have "(with_errors n t)\<lparr>as_metrics := inc_suppressed r (as_metrics (with_errors n t))\<rparr> =
      with_errors n (t\<lparr>as_metrics := inc_suppressed r (as_metrics t)\<rparr>)" for t r
    by (simp add: with_errors_def inc_suppressed_def)
  ultimately show ?thesis
    by (simp add: process_alert_def Let_def export_alert_errors split: prod.split sum.split)
qed

lemma process_alerts_errors:
  "process_alerts env as (with_errors n st) = apsnd (with_errors n) (process_alerts env as st)"
  by (induction "as" arbitrary: st)
    (simp_all add: process_alert_errors split: prod.split ending.split)

lemma process_event_errors:
  "process_event env raw (with_errors n st) = apsnd (with_errors n) (process_event env raw st)"
proof -
  have *: "(with_errors n st)\<lparr>as_enricher := en, as_metrics := inc_event k h (as_metrics (with_errors n st))\<rparr> =
      with_errors n (st\<lparr>as_enricher := en, as_metrics := inc_event k h (as_metrics st)\<rparr>)" for en k h
    by (simp add: with_errors_def inc_event_def)
  have **: "(with_errors n t)\<lparr>as_sinks := s, as_log := l\<rparr> = with_errors n (t\<lparr>as_sinks := s, as_log := l\<rparr>)" for t s l
    by (simp add: with_errors_def)
  show ?thesis
    by (cases "enrich (ag_enrich env) (as_enricher st) raw")
      (auto simp: process_event_def Let_def * ** process_alerts_errors split: prod.split emission.split)
qed

text \<open>One more event for the loop.\<close>

lemma event_loop_snoc:
  "event_loop env (raws @ [raw]) st =
     (case event_loop env raws st of
        (Handled, st') \<Rightarrow> event_loop env [raw] st'
      | (r, st') \<Rightarrow> (r, st'))"
  by (induction raws arbitrary: st) (auto split: prod.split ending.split)

lemma event_loop_one:
  "event_loop env [raw] st =
     (case process_event env raw st of (r, st') \<Rightarrow> (if r = Failed then Handled else r, st'))"
  by (auto split: prod.split ending.split)

lemma event_loop_ending: "event_loop env raws st = (r, st') \<Longrightarrow> r \<noteq> Failed"
  by (induction raws arbitrary: st) (auto split: prod.splits ending.splits)

lemma process_event_k8s:
  assumes "process_event env raw st = (r, st')"
  shows "en_k8s (as_enricher st') = en_k8s (as_enricher st)"
proof -
  have "enrich (ag_enrich env) en raw = Some (e, en') \<Longrightarrow> en_k8s en' = en_k8s en" for en e en'
    by (auto simp: enrich_def update_tree_def Let_def split: option.splits)
  with assms show ?thesis
    by (auto simp: process_event_def Let_def keeps_def split: option.splits if_splits prod.splits emission.splits
        dest!: process_alerts_keeps)
qed

definition like_loop :: "('v, 're) agent_env \<Rightarrow> agent_state \<Rightarrow> label list \<Rightarrow> daemon \<Rightarrow> bool" where
  "like_loop env st ls d \<longleftrightarrow>
     (\<exists>r st'. event_loop env (received ls) st = (r, st') \<and> dm_loop d = after_event r \<and>
        with_errors 0 (dm_agent d) = with_errors 0 st' \<and> en_k8s (as_enricher (dm_agent d)) = None)"

lemma count_parse_error_simps [simp]:
  "with_errors n (count_parse_error st) = with_errors n st"
  "as_enricher (count_parse_error st) = as_enricher st"
  by (simp_all add: with_errors_def count_parse_error_def inc_ring_parse_error_def)

lemma like_loop_step:
  assumes "like_loop env st ls d" "step env d l d'" "l \<noteq> Ctrl_C"
  shows "like_loop env st (ls @ [l]) d'"
proof (cases "\<exists>e. l = Recv e")
  case False
  with assms show ?thesis
    by (cases l) (auto simp: like_loop_def)
next
  case True
  then obtain e where l: "l = Recv e" by blast
  from assms(2) obtain rest q t where
    d: "dm_loop d = Looping" "process_event env e (dm_agent d) = (q, t)"
    and d': "dm_loop d' = after_event q" "dm_agent d' = t"
    by (auto simp: l)
  from assms(1) obtain r st' where loop: "event_loop env (received ls) st = (r, st')"
    "dm_loop d = after_event r" "with_errors 0 (dm_agent d) = with_errors 0 st'"
    "en_k8s (as_enricher (dm_agent d)) = None"
    unfolding like_loop_def by blast
  have r: "r = Handled"
    using loop(2) d(1) event_loop_ending [OF loop(1)] by (cases r) (auto simp: after_event_def)
  obtain q1 t1 where one: "process_event env e st' = (q1, t1)" by fastforce
  have "apsnd (with_errors 0) (q, t) = apsnd (with_errors 0) (q1, t1)"
    using process_event_errors [of env e 0 "dm_agent d"] process_event_errors [of env e 0 st']
    by (simp only: loop(3) d(2) one)
  then have q: "q1 = q" "with_errors 0 t = with_errors 0 t1" by auto
  have "event_loop env (received (ls @ [l])) st = (if q = Failed then Handled else q, t1)"
    by (simp add: l event_loop_snoc loop(1) r event_loop_one one q(1) del: event_loop.simps)
  moreover have "after_event q = after_event (if q = Failed then Handled else q)"
    by (simp add: after_event_def)
  moreover have "en_k8s (as_enricher t) = None"
    using process_event_k8s [OF d(2)] loop(4) by simp
  ultimately show ?thesis using q(2) unfolding like_loop_def d' by blast
qed

lemma like_loop_run:
  assumes "daemon_run env (start_daemon st) ls d" "en_k8s (as_enricher st) = None" "Ctrl_C \<notin> set ls"
  shows "like_loop env st ls d"
  using assms
proof (induction "start_daemon st" ls d rule: daemon_run.induct)
  case start
  then show ?case by (simp add: like_loop_def start_daemon_def after_event_def)
next
  case (more ls d1 l d2)
  then have "like_loop env st ls d1" "l \<noteq> Ctrl_C" by auto
  with more(3) show ?case using like_loop_step by blast
qed

text \<open>A loop that was interrupted stays so.\<close>

lemma not_interrupted:
  "daemon_run env (start_daemon st) ls d \<Longrightarrow> dm_loop d \<noteq> Stopped \<Longrightarrow> Ctrl_C \<notin> set ls"
proof (induction "start_daemon st" ls d rule: daemon_run.induct)
  case (more ls d1 l d2)
  from more(3,4) have "dm_loop d1 \<noteq> Stopped \<and> l \<noteq> Ctrl_C" by (cases l) auto
  with more(2) show ?case by auto
qed simp

text \<open>C12: The daemon implements the sequential loop: whatever the interleaving of its threads, an
  agent without a container cache that has not been interrupted is, but for the counter of
  parse errors, in the state that going over the received events one after the other gives, and
  it is at work, dead or stuck as that loop is.\<close>

theorem daemon_refines_loop:
  assumes "daemon_run env (start_daemon st) ls d" "en_k8s (as_enricher st) = None" "Ctrl_C \<notin> set ls"
  shows "\<exists>r st'. event_loop env (received ls) st = (r, st') \<and> dm_loop d = after_event r \<and>
    dm_agent d = with_errors (mt_parse_errors (as_metrics (dm_agent d))) st'"
proof -
  from like_loop_run [OF assms] obtain r st' where "event_loop env (received ls) st = (r, st')" "dm_loop d = after_event r"
    "with_errors 0 (dm_agent d) = with_errors 0 st'"
    unfolding like_loop_def by blast
  moreover have "dm_agent d = with_errors (mt_parse_errors (as_metrics (dm_agent d))) (with_errors 0 (dm_agent d))"
    by simp
  ultimately show ?thesis by (metis with_errors_twice)
qed

subsection \<open>A run\<close>

text \<open>The kernel writes a record that is too short and one with the sample event, and the reader
  thread handles both; the loop is free to receive the event.\<close>

definition sample_item :: bytes where
  "sample_item = event_bytes (replicate 4 0) (replicate 4 0) sample_raw"

lemma parse_sample_item [simp]:
  "parse_ring_event sample_item = Some sample_raw" "parse_ring_event [1] = None"
proof -
  have "wf_event sample_raw"
    by (simp add: wf_event_def sample_event_def pad_to_def bytes_of_string_def)
  then show "parse_ring_event sample_item = Some sample_raw"
    by (simp add: sample_item_def parse_event_bytes)
qed (simp add: parse_ring_event_def size_of_event_def)

definition sample_trace :: "label list" where
  "sample_trace = [Kernel [1], Kernel sample_item, Skip, Take, Send]"

lemma sample_run:
  "daemon_run env (start_daemon st) sample_trace
     ((start_daemon (count_parse_error st))\<lparr>dm_chan := [sample_raw]\<rparr>)"
  by (simp add: daemon_run_exec sample_trace_def start_daemon_def receiver_def CHANNEL_def)

theorem pipeline_fifo_witness:
  "parsed (written sample_trace) = received sample_trace @ [sample_raw]"
  using pipeline_fifo [OF sample_run [of "sample_env open_env" sample_state]]
  by (simp add: receiver_def start_daemon_def in_flight_def)

theorem parse_errors_counted_witness:
  "mt_parse_errors (as_metrics (count_parse_error sample_state)) = rejected (written sample_trace)"
  using parse_errors_counted [OF sample_run [of "sample_env open_env" sample_state]]
  by (simp add: start_daemon_def sample_state_def new_metrics_def)

theorem daemon_refines_loop_witness:
  "\<exists>r st'. event_loop (sample_env open_env) (received sample_trace) sample_state = (r, st') \<and>
     Looping = after_event r \<and> count_parse_error sample_state = with_errors 1 st'"
  using daemon_refines_loop [OF sample_run [of "sample_env open_env" sample_state]]
  by (simp add: start_daemon_def sample_trace_def)
    (simp add: sample_state_def count_parse_error_def inc_ring_parse_error_def new_metrics_def)

theorem pipeline_drains_witness:
  "\<exists>l d'. internal l \<and> step (sample_env open_env) ((start_daemon sample_state)\<lparr>dm_ring := [sample_item]\<rparr>) l d'"
  using pipeline_drains [of "sample_env open_env"]
  by (auto simp: start_daemon_def dest: spec [of _ "(start_daemon sample_state)\<lparr>dm_ring := [sample_item]\<rparr>"])


end
