(* ===== verification/Startup.thy ===== *)
theory Startup
  imports Loader Daemon
begin

text \<open>
  \<open>main\<close> of \<open>main.rs\<close> up to the event loop: the configuration is read, normalised and validated,
  the probes are loaded and their tables filled, the rules, sinks, triage client, enricher, rate
  limiter and counters are made. The first step that fails ends the program with its error.
\<close>

record options =
  opt_config :: string
  opt_no_emit_events :: bool
  opt_no_triage :: bool

text \<open>
  What the host answers: its file system and files, the YAML parser, the environment variables,
  the kernel, the two listings of \<open>/proc\<close> (the loader's and, later, the enricher's), the rule
  files, and the libraries the agent runs with.
\<close>

record ('v, 're, 'w) host =
  ho_fs :: "'w fs_ops"
  ho_open_ok :: "'w \<Rightarrow> string \<Rightarrow> bool"
  ho_read_file :: "string \<Rightarrow> string option"
  ho_from_yaml :: "string \<Rightarrow> config option"
  ho_etc_hostname :: "string option"
  ho_env_var :: "string \<Rightarrow> string option"
  ho_load :: load_env
  ho_map_found :: "string \<Rightarrow> bool"
  ho_set_ok :: "nat \<Rightarrow> bool"
  ho_proc_loader :: "proc_entry option list option"
  ho_proc_enricher :: "proc_entry option list option"
  ho_upper :: "string \<Rightarrow> string"
  ho_rule_env :: "'v rule_env"
  ho_runtime :: "('v, 're) agent_env"

datatype start_error =
    SE_Config config_error
  | SE_Load load_error
  | SE_Rules rule_error
  | SE_Sinks
  | SE_Panic panic

text \<open>A started agent: what the kernel side holds, and the environment and state of the loop.\<close>

record ('v, 're) started =
  sd_config :: config
  sd_attached :: "attachment list"
  sd_slots :: "nat \<Rightarrow> bytes option"
  sd_tree :: tree
  sd_env :: "('v, 're) agent_env"
  sd_state :: agent_state

definition map_error :: "('e \<Rightarrow> 'f) \<Rightarrow> 'e + 'a \<Rightarrow> 'f + 'a" where
  "map_error f r = (case r of Inl e \<Rightarrow> Inl (f e) | Inr a \<Rightarrow> Inr a)"

lemma map_error_Inr_iff [simp]: "map_error f r = Inr a \<longleftrightarrow> r = Inr a"
  by (simp add: map_error_def split: sum.split)

definition read_config :: "('v, 're, 'w) host \<Rightarrow> options \<Rightarrow> 'w \<Rightarrow> config_error + config" where
  "read_config h opt w =
     bind_sum
       (if fs_exists (ho_fs h) w (opt_config opt)
        then load_config (ho_read_file h) (ho_from_yaml h) (ho_etc_hostname h) (opt_config opt)
        else Inr (config_default (ho_etc_hostname h)))
       (\<lambda>c. Inr (normalize (ho_etc_hostname h) c))"

text \<open>\<open>ProbeLoader::ring_buf\<close>.\<close>

definition ring_buf :: "('v, 're, 'w) host \<Rightarrow> load_error + unit" where
  "ring_buf h = (if ho_map_found h ''EVENTS'' then Inr () else Inl (Map_Not_Found ''EVENTS''))"

text \<open>Loading the probes and filling their tables.\<close>

definition start_probes ::
  "('v, 're, 'w) host \<Rightarrow> config \<Rightarrow> start_error + (attachment list \<times> (nat \<Rightarrow> bytes option) \<times> tree)" where
  "start_probes h c =
     bind_sum (map_error SE_Load (load (ho_load h))) (\<lambda>attached.
       case populate_monitored_paths (ho_map_found h ''MONITORED_PATHS'') (ho_set_ok h) (cfg_monitored_paths c) empty_slots of
         (set_all, slots) \<Rightarrow>
           bind_sum (map_error SE_Load set_all) (\<lambda>_.
           bind_sum (map_error SE_Panic (seed_process_tree tree_insert (ho_map_found h ''PROCESS_TREE'') (ho_proc_loader h) []))
             (\<lambda>(ok, tree).
               if ok then bind_sum (map_error SE_Load (ring_buf h)) (\<lambda>_. Inr (attached, slots, tree))
               else Inl (SE_Load Proc_Not_Listed))))"

definition start_enricher :: "('v, 're, 'w) host \<Rightarrow> config \<Rightarrow> enricher outcome" where
  "start_enricher h c =
     bind_sum (new_enricher (cfg_host c) (ho_proc_enricher h)) (\<lambda>en.
       Inr (if kc_enabled (cfg_k8s c) then with_k8s en (new_k8s_cache (cfg_k8s c)) else en))"

definition start_agent ::
  "('v, 're, 'w) host \<Rightarrow> options \<Rightarrow> 'w \<Rightarrow> (start_error + ('v, 're) started) \<times> 'w" where
  "start_agent h opt w =
     (case read_config h opt w of
        Inl e \<Rightarrow> (Inl (SE_Config e), w)
      | Inr c \<Rightarrow>
          (case validate (ho_fs h) w c of
             (Some e, w1) \<Rightarrow> (Inl (SE_Config e), w1)
           | (None, w1) \<Rightarrow>
               (case bind_sum (start_probes h c) (\<lambda>k.
                       map_error SE_Rules (bind_sum
                         (load_from_config (ag_lower (ho_runtime h)) (ho_upper h) (ag_yaml (ho_runtime h))
                            (ag_regex (ho_runtime h)) (ho_rule_env h) c) (\<lambda>rules. Inr (k, rules)))) of
                  Inl e \<Rightarrow> (Inl e, w1)
                | Inr ((attached, slots, tree), rules) \<Rightarrow>
                    (case build_sinks (ho_fs h) (ho_open_ok h) w1 (cfg_sinks c) of
                       (None, w2) \<Rightarrow> (Inl SE_Sinks, w2)
                     | (Some sinks, w2) \<Rightarrow>
                         (let client = new_triage (ho_env_var h) (cfg_triage c)
                          in (bind_sum (map_error SE_Panic (start_enricher h c)) (\<lambda>en.
                                Inr \<lparr>sd_config = c, sd_attached = attached, sd_slots = slots, sd_tree = tree,
                                     sd_env = (ho_runtime h)\<lparr>ag_rules := rules, ag_triage := client,
                                       ag_emit_events := emit_switch (opt_no_emit_events opt),
                                       ag_triage_enabled := triage_switch client (opt_no_triage opt)\<rparr>,
                                     sd_state = \<lparr>as_enricher = en,
                                       as_suppressor = new_suppressor (cfg_suppression c), as_sinks = sinks,
                                       as_log = [], as_metrics = new_metrics\<rparr>\<rparr>), w2))))))"

subsection \<open>What a started agent has\<close>

text \<open>The steps a successful start has taken.\<close>

definition start_steps ::
  "('v, 're, 'w) host \<Rightarrow> options \<Rightarrow> 'w \<Rightarrow> ('v, 're) started \<Rightarrow> bool" where
  "start_steps h opt w s \<longleftrightarrow>
     read_config h opt w = Inr (sd_config s) \<and>
     (\<exists>w1. validate (ho_fs h) w (sd_config s) = (None, w1)) \<and>
     load (ho_load h) = Inr (sd_attached s) \<and>
     populate_monitored_paths True (ho_set_ok h) (cfg_monitored_paths (sd_config s)) empty_slots = (Inr (), sd_slots s) \<and>
     seed_process_tree tree_insert True (ho_proc_loader h) [] = Inr (True, sd_tree s) \<and>
     load_from_config (ag_lower (ho_runtime h)) (ho_upper h) (ag_yaml (ho_runtime h)) (ag_regex (ho_runtime h))
       (ho_rule_env h) (sd_config s) = Inr (ag_rules (sd_env s)) \<and>
     (\<exists>w1 w2. build_sinks (ho_fs h) (ho_open_ok h) w1 (cfg_sinks (sd_config s)) = (Some (as_sinks (sd_state s)), w2)) \<and>
     start_enricher h (sd_config s) = Inr (as_enricher (sd_state s)) \<and>
     as_suppressor (sd_state s) = new_suppressor (cfg_suppression (sd_config s)) \<and>
     as_metrics (sd_state s) = new_metrics \<and>
     ag_triage (sd_env s) = new_triage (ho_env_var h) (cfg_triage (sd_config s)) \<and>
     ag_triage_enabled (sd_env s) = triage_switch (ag_triage (sd_env s)) (opt_no_triage opt) \<and>
     ag_emit_events (sd_env s) = emit_switch (opt_no_emit_events opt)"

lemma populate_found:
  "populate_monitored_paths found ok paths slots = (Inr u, slots') \<Longrightarrow> found"
  by (simp add: populate_monitored_paths_def split: if_splits)

lemma seed_found: "seed_process_tree ins found dir t = Inr (True, t') \<Longrightarrow> found"
  by (simp add: seed_process_tree_def split: if_splits)

lemma start_probesD:
  assumes "start_probes h c = Inr (attached, slots, tree)"
  shows "load (ho_load h) = Inr attached \<and>
    populate_monitored_paths True (ho_set_ok h) (cfg_monitored_paths c) empty_slots = (Inr (), slots) \<and>
    seed_process_tree tree_insert True (ho_proc_loader h) [] = Inr (True, tree)"
proof -
  obtain r slots0 where pop: "populate_monitored_paths (ho_map_found h ''MONITORED_PATHS'') (ho_set_ok h)
      (cfg_monitored_paths c) empty_slots = (r, slots0)" by fastforce
  from assms have l: "load (ho_load h) = Inr attached" and r: "r = Inr ()" "slots0 = slots"
    and t: "seed_process_tree tree_insert (ho_map_found h ''PROCESS_TREE'') (ho_proc_loader h) [] = Inr (True, tree)"
    by (auto simp: start_probes_def pop bind_sum_Inr_iff split: if_splits)
  note p = pop [unfolded r]
  from l p t populate_found [OF p] seed_found [OF t] show ?thesis by simp
qed

lemma start_agentD:
  assumes "start_agent h opt w = (Inr s, w')"
  shows "start_steps h opt w s"
proof -
  from assms obtain c w1 where c: "read_config h opt w = Inr c" "validate (ho_fs h) w c = (None, w1)"
    by (auto simp: start_agent_def split: sum.splits prod.splits option.splits)
  with assms obtain attached slots tree rules where k: "start_probes h c = Inr (attached, slots, tree)"
    "load_from_config (ag_lower (ho_runtime h)) (ho_upper h) (ag_yaml (ho_runtime h)) (ag_regex (ho_runtime h))
       (ho_rule_env h) c = Inr rules"
    by (auto simp: start_agent_def bind_sum_Inr_iff split: sum.splits)
  with assms c obtain sinks en where "build_sinks (ho_fs h) (ho_open_ok h) w1 (cfg_sinks c) = (Some sinks, w')"
    "start_enricher h c = Inr en"
    "s = \<lparr>sd_config = c, sd_attached = attached, sd_slots = slots, sd_tree = tree,
       sd_env = (ho_runtime h)\<lparr>ag_rules := rules, ag_triage := new_triage (ho_env_var h) (cfg_triage c),
         ag_emit_events := emit_switch (opt_no_emit_events opt),
         ag_triage_enabled := triage_switch (new_triage (ho_env_var h) (cfg_triage c)) (opt_no_triage opt)\<rparr>,
       sd_state = \<lparr>as_enricher = en, as_suppressor = new_suppressor (cfg_suppression c), as_sinks = sinks,
         as_log = [], as_metrics = new_metrics\<rparr>\<rparr>"
    by (auto simp: start_agent_def bind_sum_Inr_iff Let_def map_error_def split: prod.splits option.splits sum.splits)
  with c k start_probesD [OF k(1)] show ?thesis
    by (simp add: start_steps_def) blast
qed

lemma read_config_nonempty:
  "read_config h opt w = Inr c \<Longrightarrow> cfg_sinks c \<noteq> [] \<and> cfg_monitored_paths c \<noteq> []"
  by (auto simp: read_config_def bind_sum_Inr_iff normalize_nonempty)

text \<open>C23: An agent that starts is complete: all five probes are attached; there are monitored paths, and
  the probes take a path for monitored exactly when the first 127 bytes of one of the first 64
  configured paths are a prefix of it; its sinks are those configured, at least one; the rules
  directory exists and no gRPC endpoint is empty; and alerts go to triage only if it is enabled,
  there is an API key and the option does not forbid it.\<close>

theorem startup_complete:
  assumes "start_agent h opt w = (Inr s, w')"
    "\<And>m. m \<in> set (cfg_monitored_paths (sd_config s)) \<Longrightarrow> 0 \<notin> set (bytes_of_string m)" "0 \<notin> set p"
  shows "sd_attached s = all_attachments \<and>
    (path_matches_monitored (sd_slots s) (pad_to 128 p) \<longleftrightarrow>
      (\<exists>m \<in> set (take 64 (cfg_monitored_paths (sd_config s))). m \<noteq> [] \<and> prefix (take 127 (bytes_of_string m)) p)) \<and>
    cfg_monitored_paths (sd_config s) \<noteq> [] \<and>
    map config_of_sink (as_sinks (sd_state s)) = cfg_sinks (sd_config s) \<and> cfg_sinks (sd_config s) \<noteq> [] \<and>
    fs_is_dir (ho_fs h) w (cfg_rules_dir (sd_config s)) \<and> SC_Grpc [] \<notin> set (cfg_sinks (sd_config s)) \<and>
    (ag_triage_enabled (sd_env s) \<longleftrightarrow> tc_enabled (cfg_triage (sd_config s)) \<and>
       ho_env_var h (tc_api_key_env (cfg_triage (sd_config s))) \<noteq> None \<and> \<not> opt_no_triage opt)"
proof -
  note steps = start_agentD [OF assms(1), unfolded start_steps_def]
  from steps obtain w1 w2 w3 where v: "validate (ho_fs h) w (sd_config s) = (None, w1)"
    and b: "build_sinks (ho_fs h) (ho_open_ok h) w2 (cfg_sinks (sd_config s)) = (Some (as_sinks (sd_state s)), w3)"
    by blast
  have "read_config h opt w = Inr (sd_config s)" using steps by simp
  note c = read_config_nonempty [OF this]
  have valid: "validate_sinks (ho_fs h) w (cfg_sinks (sd_config s)) = (None, w1)"
    "fs_is_dir (ho_fs h) w (cfg_rules_dir (sd_config s))"
    using v by (auto simp: validate_def split: if_splits)
  have attached: "sd_attached s = all_attachments" using steps by (simp add: load_iff)
  have triage: "ag_triage_enabled (sd_env s) \<longleftrightarrow> tc_enabled (cfg_triage (sd_config s)) \<and>
      ho_env_var h (tc_api_key_env (cfg_triage (sd_config s))) \<noteq> None \<and> \<not> opt_no_triage opt"
    using steps by (simp add: triage_switch_def enabled_def new_triage_def)
  have pop: "populate_monitored_paths True (ho_set_ok h) (cfg_monitored_paths (sd_config s)) empty_slots = (Inr (), sd_slots s)"
    using steps by simp
  note paths = monitored_paths_loaded [OF pop assms(2,3)]
  have sinks: "map config_of_sink (as_sinks (sd_state s)) = cfg_sinks (sd_config s)"
    using build_sinks_config [OF b] c by simp
  show ?thesis
    using attached paths c sinks valid(2) validate_sinks_Ok [OF valid(1)] triage
    by (simp only: simp_thms)
qed

text \<open>When the loader and the enricher see the same processes in \<open>/proc\<close>, not more than the
  kernel's tree holds, a started agent begins with the same process tree on both sides: the same
  pids, with the same parents and names.\<close>

theorem startup_tables_agree:
  assumes "start_agent h opt w = (Inr s, w')" "ho_proc_loader h = Some entries"
    "ho_proc_enricher h = Some entries" "length entries \<le> MAX_TREE"
  shows "same_processes (en_processes (as_enricher (sd_state s))) (sd_tree s)"
proof -
  note steps = start_agentD [OF assms(1), unfolded start_steps_def]
  then have start: "start_enricher h (sd_config s) = Inr (as_enricher (sd_state s))"
    and tree: "seed_process_tree tree_insert True (Some entries) [] = Inr (True, sd_tree s)"
    by (simp_all add: assms(2))
  obtain ok en where seed: "seed_from_proc (Some entries)
      \<lparr>en_host = cfg_host (sd_config s), en_processes = Map.empty, en_max_lineage = 8, en_k8s = None\<rparr> = Inr (ok, en)"
    and "as_enricher (sd_state s) =
      (if kc_enabled (cfg_k8s (sd_config s)) then with_k8s en (new_k8s_cache (cfg_k8s (sd_config s))) else en)"
    using assms(3) start
    by (auto simp: start_enricher_def new_enricher_def bind_sum_Inr_iff split: prod.splits)
  then have en: "en_processes (as_enricher (sd_state s)) = en_processes en"
    by (simp add: with_k8s_def)
  from seeds_agree [OF assms(4) seed] show ?thesis by (auto simp: en tree)
qed

subsection \<open>A start\<close>

text \<open>A host on which everything works, without a configuration file and without rules.\<close>

definition sample_host :: "(yval, string, string set) host" where
  "sample_host =
     \<lparr>ho_fs = dir_set_fs, ho_open_ok = (\<lambda>_ _. True), ho_read_file = (\<lambda>_. None), ho_from_yaml = (\<lambda>_. None),
      ho_etc_hostname = None, ho_env_var = (\<lambda>_. None),
      ho_load = \<lparr>le_vmlinux_exists = True, le_object_loads = True, le_btf_parses = True,
        le_program = (\<lambda>p. Some (expected_kind p)), le_program_loads = (\<lambda>_. True), le_attaches = (\<lambda>_ _. True)\<rparr>,
      ho_map_found = (\<lambda>_. True), ho_set_ok = (\<lambda>_. True), ho_proc_loader = Some sample_proc,
      ho_proc_enricher = Some sample_proc, ho_upper = id,
      ho_rule_env = \<lparr>re_glob = (\<lambda>_. Some []), re_read = (\<lambda>_. None), re_parse_rules = (\<lambda>_. None),
        re_parse_yaml = (\<lambda>_. None), re_is_dir = (\<lambda>_. False)\<rparr>,
      ho_runtime = sample_env open_env\<rparr>"

definition sample_options :: options where
  "sample_options = \<lparr>opt_config = ''sentinel.yaml'', opt_no_emit_events = False, opt_no_triage = False\<rparr>"

text \<open>The host with another listing of \<open>/proc\<close>.\<close>

definition listing_host :: "proc_entry option list \<Rightarrow> (yval, string, string set) host" where
  "listing_host entries = sample_host\<lparr>ho_proc_loader := Some entries, ho_proc_enricher := Some entries\<rparr>"

lemma listing_start:
  assumes room: "length entries \<le> MAX_TREE" and entries: "seed_entries entries Map.empty = Inr (True, procs)"
  shows "\<exists>s w'. start_agent (listing_host entries) sample_options {''rules''} = (Inr s, w') \<and>
     cfg_monitored_paths (sd_config s) = [''/etc/passwd'', ''/etc/shadow'', ''/etc/sudoers''] \<and>
     en_processes (as_enricher (sd_state s)) = procs"
proof -
  let ?h = "listing_host entries"
  have h: "ho_proc_loader ?h = Some entries" "ho_proc_enricher ?h = Some entries"
    by (simp_all add: listing_host_def)
  have c: "read_config ?h sample_options {''rules''} = Inr (config_default None)"
    by (simp add: read_config_def listing_host_def sample_host_def sample_options_def dir_set_fs_def normalize_def
        config_default_def)
  have v: "validate (ho_fs ?h) {''rules''} (config_default None) = (None, {''rules''})"
    by (simp add: validate_def listing_host_def sample_host_def dir_set_fs_def config_default_def
        default_rules_dir_def validate_sink_def)
  have seed: "seed_from_proc (Some entries)
      \<lparr>en_host = host, en_processes = Map.empty, en_max_lineage = 8, en_k8s = None\<rparr> =
    Inr (True, \<lparr>en_host = host, en_processes = procs, en_max_lineage = 8, en_k8s = None\<rparr>)" for host
    by (simp add: seed_from_proc_def entries)
  from seeds_agree [OF room seed] obtain t where
    t: "seed_process_tree tree_insert True (Some entries) [] = Inr (True, t)" by blast
  have "load (ho_load ?h) = Inr all_attachments"
    by (auto simp: load_iff listing_host_def sample_host_def attachable_def list_all_iff)
  moreover have "\<exists>slots. populate_monitored_paths True (\<lambda>_. True) (cfg_monitored_paths (config_default None)) empty_slots = (Inr (), slots)"
    by (simp add: populate_monitored_paths_def config_default_def)
  ultimately obtain slots where k: "start_probes ?h (config_default None) = Inr (all_attachments, slots, t)"
    using t by (auto simp: start_probes_def ring_buf_def map_error_def listing_host_def sample_host_def)
  have rules: "load_from_config (ag_lower (ho_runtime ?h)) (ho_upper ?h) (ag_yaml (ho_runtime ?h))
      (ag_regex (ho_runtime ?h)) (ho_rule_env ?h) (config_default None) = Inr []"
    by (simp add: load_from_config_def load_dir_def load_sigma_dir_def listing_host_def sample_host_def
        config_default_def)
  have sinks: "build_sinks (ho_fs ?h) (ho_open_ok ?h) {''rules''} (cfg_sinks (config_default None)) =
      (Some [Stdout_Sink], {''rules''})"
    by (simp add: build_sinks_def build_sink_def config_default_def)
  obtain en where en: "start_enricher ?h (config_default None) = Inr en" "en_processes en = procs"
    by (simp add: start_enricher_def new_enricher_def h seed with_k8s_def)
  have "cfg_monitored_paths (config_default None) = [''/etc/passwd'', ''/etc/shadow'', ''/etc/sudoers'']"
    by (simp add: config_default_def)
  then show ?thesis
    by (simp add: start_agent_def c v k rules sinks en map_error_def Let_def)
qed

lemma sample_start:
  "\<exists>s w'. start_agent sample_host sample_options {''rules''} = (Inr s, w') \<and>
     cfg_monitored_paths (sd_config s) = [''/etc/passwd'', ''/etc/shadow'', ''/etc/sudoers''] \<and>
     en_processes (as_enricher (sd_state s)) = [42 \<mapsto> \<lparr>pi_ppid = 0, pi_comm = ''sh''\<rparr>]"
proof -
  have "length sample_proc \<le> MAX_TREE" by (simp add: sample_proc_def MAX_TREE_def)
  from listing_start [OF this sample_proc_seed] show ?thesis
    by (simp add: listing_host_def sample_host_def)
qed

theorem startup_complete_witness:
  "\<exists>s w'. start_agent sample_host sample_options {''rules''} = (Inr s, w') \<and>
     path_matches_monitored (sd_slots s) (pad_to 128 (bytes_of_string ''/etc/passwd''))"
proof -
  obtain s w' where s: "start_agent sample_host sample_options {''rules''} = (Inr s, w')"
    and paths: "cfg_monitored_paths (sd_config s) = [''/etc/passwd'', ''/etc/shadow'', ''/etc/sudoers'']"
    using sample_start by blast
  have z: "0 \<notin> set (bytes_of_string m)" if "m \<in> {''/etc/passwd'', ''/etc/shadow'', ''/etc/sudoers''}" for m
    by (rule zero_notin_bytes) (use that in auto)
  have "path_matches_monitored (sd_slots s) (pad_to 128 (bytes_of_string ''/etc/passwd'')) \<longleftrightarrow>
      (\<exists>m \<in> set (take 64 (cfg_monitored_paths (sd_config s))).
         m \<noteq> [] \<and> prefix (take 127 (bytes_of_string m)) (bytes_of_string ''/etc/passwd''))"
    using startup_complete [OF s _ z [of "''/etc/passwd''"]] z by (simp add: paths)
  with s show ?thesis by (auto simp: paths bytes_of_string_def)
qed

theorem startup_tables_agree_witness:
  "\<exists>s w'. start_agent sample_host sample_options {''rules''} = (Inr s, w') \<and>
     same_processes (en_processes (as_enricher (sd_state s))) (sd_tree s)"
proof -
  obtain s w' where s: "start_agent sample_host sample_options {''rules''} = (Inr s, w')"
    using sample_start by blast
  have "length sample_proc \<le> MAX_TREE" by (simp add: sample_proc_def MAX_TREE_def)
  with startup_tables_agree [OF s, of sample_proc] s show ?thesis by (simp add: sample_host_def)
qed

end
