(* ===== verification/System.thy ===== *)
theory System
  imports Startup
begin

text \<open>
  The whole monitor: the probes of the kernel side and the daemon of the user side, joined by the
  ring buffer \<open>EVENTS\<close>. A step is a run of a probe on behalf of some process, or a step of the
  daemon; they interleave in any order. (A probe runs as one step. The model begins when the event
  loop does, with the tables the start-up has filled.) The lemmas project a run of the system to a
  run of the daemon, so that what holds of the daemon's pipeline holds from the probe that emits an
  event to the loop that handles it; and they relate the two process tables.
\<close>

subsection \<open>What a probe emits\<close>

text \<open>The events of one run of a probe, in order, read off from its context and the process tree.\<close>

definition probe_events :: "('t, 'r) map_ops \<Rightarrow> program \<Rightarrow> kctx \<Rightarrow> ('t, 'r) bpf_state \<Rightarrow> sentinel_event list" where
  "probe_events ops prog k s =
     (let pid = current_pid k; comm = read_comm k; ppid = current_ppid ops k (bs_tree (snd (probe ops prog k s)));
          event = (\<lambda>n kind. event_of k (bs_ticks s + n) kind)
      in if bs_scratch s = None then []
         else case prog of
           Sys_Enter_Execve \<Rightarrow>
             (case kc_read_at k 16 8 of
                Some b \<Rightarrow> [event 0 Exec pid ppid comm (read_user_path k (from_ne_bytes b) (replicate 128 0)) 0 0 0 0 (replicate 16 0)]
              | None \<Rightarrow> [])
         | Sys_Enter_Connect \<Rightarrow>
             (case kc_read_at k 24 8 of
                Some b \<Rightarrow>
                  (let ptr = from_ne_bytes b; (fam4, port4, addr) = read_sockaddr_in k ptr;
                       (fam, port, v6) = (if fam4 = 0 then read_sockaddr_in6 k ptr else (fam4, port4, replicate 16 0))
                   in if ptr = 0 then []
                      else [event 0 Connect pid ppid comm (replicate 128 0) 0 fam addr port v6])
              | None \<Rightarrow> [])
         | Sys_Enter_Openat \<Rightarrow>
             (case (kc_read_at k 24 8, kc_read_at k 32 4) of
                (Some fb, Some gb) \<Rightarrow>
                  (let path = read_user_path k (from_ne_bytes fb) (replicate 128 0); flags = from_ne_bytes gb;
                       opened = (\<lambda>n kind. event n kind pid ppid comm path flags 0 0 0 (replicate 16 0))
                   in if write_access flags \<and> path_matches_monitored (bs_monitored s) path
                      then [opened 0 Open, opened 1 FileIntegrity] else [opened 0 Open])
              | _ \<Rightarrow> [])
         | Sched_Process_Fork \<Rightarrow>
             [event 0 ProcessFork (ucast (kc_arg k 3)) (ucast (kc_arg k 1))
                (read_kernel_comm k (kc_arg k 0) (replicate 16 0)) (replicate 128 0) 0 0 0 0 (replicate 16 0)]
         | Sched_Process_Exec \<Rightarrow> [])"

lemmas probe_defs =
  try_execve_def try_connect_def try_openat_def try_fork_def try_exec_def emit_event_def
  emit_event_with_pid_eq upsert_process_def read_at_def Let_def

lemma probe_emits:
  "bs_events (snd (probe ops prog k s)) = foldl (mo_output ops) (bs_events s) (probe_events ops prog k s)"
proof (cases prog)
  case Sys_Enter_Execve
  then show ?thesis
    by (auto simp: probe_events_def probe_defs SYS_ENTER_EXECVE_FILENAME_def current_ppid_def
        split: option.splits prod.splits)
next
  case Sys_Enter_Connect
  then show ?thesis
    by (auto simp: probe_events_def probe_defs SYS_ENTER_CONNECT_ADDR_def current_ppid_def
        split: option.splits prod.splits if_splits)
next
  case Sys_Enter_Openat
  then show ?thesis
    by (auto simp: probe_events_def probe_defs write_access_def SYS_ENTER_OPENAT_FILENAME_def
        SYS_ENTER_OPENAT_FLAGS_def O_ACCMODE_def O_WRONLY_def O_RDWR_def split: option.splits)
next
  case Sched_Process_Fork
  then show ?thesis
    by (auto simp: probe_events_def probe_defs split: option.splits prod.splits)
next
  case Sched_Process_Exec
  then show ?thesis
    by (auto simp: probe_events_def probe_defs split: option.splits prod.splits)
qed

text \<open>The kernel fills buffers and answers reads with as many bytes as it was asked for.\<close>

definition wf_kctx :: "kctx \<Rightarrow> bool" where
  "wf_kctx k \<longleftrightarrow>
     (\<forall>c. kc_comm k = Some c \<longrightarrow> length c = 16) \<and>
     (\<forall>ptr buf. length (kc_read_user_str k ptr buf) = length buf) \<and>
     (\<forall>ptr buf. length (kc_read_kernel_buf k ptr buf) = length buf) \<and>
     (\<forall>ptr n b. kc_read_user k ptr n = Some b \<longrightarrow> length b = n) \<and>
     (\<forall>off n b. kc_read_at k off n = Some b \<longrightarrow> length b = n)"

lemma wf_kctx_lengths:
  assumes "wf_kctx k"
  shows "length (read_comm k) = 16" "length (read_user_path k ptr (replicate n 0)) = n"
    "length (read_kernel_comm k ptr (replicate n 0)) = n" "length (snd (snd (read_sockaddr_in6 k ptr))) = 16"
  using assms
  by (auto simp: wf_kctx_def read_comm_def MAX_COMM_LEN_def read_user_path_def read_kernel_comm_def
      read_sockaddr_in6_def split: option.splits)

lemma wf_probe_events: "wf_kctx k \<Longrightarrow> e \<in> set (probe_events ops prog k s) \<Longrightarrow> wf_event e"
  using wf_kctx_lengths
  by (auto simp: probe_events_def event_of_def wf_event_def Let_def
      split: program.splits option.splits prod.splits if_splits) (metis snd_conv)+

subsection \<open>The ring buffer between them\<close>

text \<open>
  The records that wait in the buffer, and a history of what was put: every event with the number
  of records that were waiting. What the two gaps of the record's layout hold is left open (\<open>pad\<close>).
\<close>

record ring =
  rg_items :: "bytes list"
  rg_log :: "(sentinel_event \<times> nat) list"

definition fits :: "nat \<Rightarrow> bool" where
  "fits n \<longleftrightarrow> Suc n * (8 + size_of_event) \<le> RING_BYTES"

definition ring_put :: "(nat \<Rightarrow> bytes \<times> bytes) \<Rightarrow> ring \<Rightarrow> sentinel_event \<Rightarrow> ring" where
  "ring_put pad r e =
     (let n = length (rg_items r); (p, q) = pad (length (rg_log r))
      in \<lparr>rg_items = rg_items r @ (if fits n then [event_bytes p q e] else []),
          rg_log = rg_log r @ [(e, n)]\<rparr>)"

definition accepted :: "(sentinel_event \<times> nat) list \<Rightarrow> sentinel_event list" where
  "accepted log = map fst (filter (\<lambda>(_, n). fits n) log)"

definition sys_ops :: "(nat \<Rightarrow> bytes \<times> bytes) \<Rightarrow> (tree, ring) map_ops" where
  "sys_ops pad = \<lparr>mo_get = map_of, mo_insert = tree_insert, mo_output = ring_put pad\<rparr>"

lemma accepted_simps [simp]:
  "accepted [] = []" "accepted (xs @ ys) = accepted xs @ accepted ys"
  "accepted [(e, n)] = (if fits n then [e] else [])"
  by (simp_all add: accepted_def)

interpretation sk: kernel_maps map_of tree_insert "ring_put pad" "\<lambda>r. accepted (rg_log r)"
proof unfold_locales
  show "map_of (tree_insert t p n) p = Some n \<or> map_of (tree_insert t p n) p = map_of t p" for t p n
    by (rule km.insert_same)
qed (simp_all add: km.insert_other ring_put_def Let_def split: prod.split)

text \<open>Records of well-formed events are parsed to the events, whatever the gaps hold.\<close>

definition gaps :: "(nat \<Rightarrow> bytes \<times> bytes) \<Rightarrow> bool" where
  "gaps pad \<longleftrightarrow> (\<forall>i. length (fst (pad i)) = 4 \<and> length (snd (pad i)) = 4)"

lemma ring_puts:
  assumes "gaps pad" "\<forall>e \<in> set es. wf_event e"
  shows "\<exists>items log. foldl (ring_put pad) r es = \<lparr>rg_items = rg_items r @ items, rg_log = rg_log r @ log\<rparr> \<and>
    map fst log = es \<and> parsed items = accepted log \<and> rejected items = 0"
  using assms(2)
proof (induction es arbitrary: r)
  case Nil
  show ?case by (rule exI [of _ "[]"], rule exI [of _ "[]"]) simp
next
  case (Cons e es)
  obtain p q where pq: "pad (length (rg_log r)) = (p, q)" by fastforce
  with assms(1) have "length p = 4" "length q = 4" by (auto simp: gaps_def dest: spec [of _ "length (rg_log r)"])
  with Cons.prems have e: "parse_ring_event (event_bytes p q e) = Some e" by (simp add: parse_event_bytes)
  let ?new = "if fits (length (rg_items r)) then [event_bytes p q e] else []"
  have put: "ring_put pad r e = \<lparr>rg_items = rg_items r @ ?new, rg_log = rg_log r @ [(e, length (rg_items r))]\<rparr>"
    by (simp add: ring_put_def pq Let_def)
  from Cons.IH [of "ring_put pad r e"] Cons.prems obtain items log where
    rest: "foldl (ring_put pad) (ring_put pad r e) es =
      \<lparr>rg_items = rg_items (ring_put pad r e) @ items, rg_log = rg_log (ring_put pad r e) @ log\<rparr>"
    "map fst log = es" "parsed items = accepted log" "rejected items = 0" by auto
  with e show ?case
    by (intro exI [of _ "?new @ items"] exI [of _ "(e, length (rg_items r)) # log"])
      (simp add: put accepted_def)
qed

subsection \<open>The system\<close>

record system =
  sy_bpf :: "(tree, ring) bpf_state"
  sy_daemon :: daemon

datatype sys_label = Probe program kctx | Agent label

text \<open>A step of the daemon is one of those of \<open>Daemon\<close>, but that only probes write into the ring buffer.\<close>

definition ring_of :: "system \<Rightarrow> ring" where
  "ring_of s = bs_events (sy_bpf s)"

definition set_items :: "bytes list \<Rightarrow> (tree, ring) bpf_state \<Rightarrow> (tree, ring) bpf_state" where
  "set_items items b = b\<lparr>bs_events := (bs_events b)\<lparr>rg_items := items\<rparr>\<rparr>"

fun sys_step :: "(nat \<Rightarrow> bytes \<times> bytes) \<Rightarrow> ('v, 're) agent_env \<Rightarrow> system \<Rightarrow> sys_label \<Rightarrow> system option" where
  "sys_step pad env s (Probe prog k) =
     (let b = snd (probe (sys_ops pad) prog k (sy_bpf s))
      in Some \<lparr>sy_bpf = b, sy_daemon = (sy_daemon s)\<lparr>dm_ring := rg_items (bs_events b)\<rparr>\<rparr>)"
| "sys_step pad env s (Agent (Kernel _)) = None"
| "sys_step pad env s (Agent l) =
     map_option (\<lambda>d. \<lparr>sy_bpf = set_items (dm_ring d) (sy_bpf s), sy_daemon = d\<rparr>) (exec_step env (sy_daemon s) l)"

fun sys_run :: "(nat \<Rightarrow> bytes \<times> bytes) \<Rightarrow> ('v, 're) agent_env \<Rightarrow> system \<Rightarrow> sys_label list \<Rightarrow> system option" where
  "sys_run pad env s [] = Some s"
| "sys_run pad env s (l # ls) = Option.bind (sys_step pad env s l) (\<lambda>s1. sys_run pad env s1 ls)"

text \<open>
  The system with which a started agent enters its loop; \<open>scratch\<close> is what the probes' event buffer
  happens to hold.
\<close>

definition boot :: "sentinel_event \<Rightarrow> ('v, 're) started \<Rightarrow> system" where
  "boot scratch sd =
     \<lparr>sy_bpf = \<lparr>bs_tree = sd_tree sd, bs_events = \<lparr>rg_items = [], rg_log = []\<rparr>, bs_scratch = Some scratch,
        bs_monitored = sd_slots sd, bs_ticks = 0\<rparr>,
      sy_daemon = start_daemon (sd_state sd)\<rparr>"

text \<open>What the loop has received.\<close>

definition sys_received :: "sys_label list \<Rightarrow> sentinel_event list" where
  "sys_received ls = List.map_filter (\<lambda>l. case l of Agent (Recv e) \<Rightarrow> Some e | _ \<Rightarrow> None) ls"

text \<open>What the probes have emitted, in order.\<close>

fun sys_emitted :: "(nat \<Rightarrow> bytes \<times> bytes) \<Rightarrow> ('v, 're) agent_env \<Rightarrow> system \<Rightarrow> sys_label list \<Rightarrow> sentinel_event list" where
  "sys_emitted pad env s [] = []"
| "sys_emitted pad env s (l # ls) =
     (case l of Probe prog k \<Rightarrow> probe_events (sys_ops pad) prog k (sy_bpf s) | Agent _ \<Rightarrow> []) @
     (case sys_step pad env s l of Some s1 \<Rightarrow> sys_emitted pad env s1 ls | None \<Rightarrow> [])"

definition sound_labels :: "sys_label list \<Rightarrow> bool" where
  "sound_labels ls \<longleftrightarrow> (\<forall>prog k. Probe prog k \<in> set ls \<longrightarrow> wf_kctx k)"

subsection \<open>A run of the system is a run of the daemon\<close>

definition in_sync :: "system \<Rightarrow> bool" where
  "in_sync s \<longleftrightarrow> rg_items (ring_of s) = dm_ring (sy_daemon s) \<and> bs_scratch (sy_bpf s) \<noteq> None"

text \<open>What was put during a run.\<close>

definition put_since :: "system \<Rightarrow> system \<Rightarrow> (sentinel_event \<times> nat) list \<Rightarrow> bool" where
  "put_since s s' log \<longleftrightarrow> rg_log (ring_of s') = rg_log (ring_of s) @ log"

lemma kernel_items: "exec_run env d (map Kernel items) = Some (d\<lparr>dm_ring := dm_ring d @ items\<rparr>)"
  by (induction items arbitrary: d) simp_all

lemma written_Kernels [simp]: "written (map Kernel items @ ls) = items @ written ls" "written (map Kernel items) = items"
  by (simp_all add: written_def List.map_filter_def comp_def)

lemma received_Kernels [simp]: "received (map Kernel items @ ls) = received ls" "received (map Kernel items) = []"
  by (simp_all add: received_def List.map_filter_def)

lemma sys_received_Cons [simp]:
  "sys_received [] = []"
  "sys_received (Agent (Recv e) # ls) = e # sys_received ls"
  "(\<And>e. l \<noteq> Agent (Recv e)) \<Longrightarrow> sys_received (l # ls) = sys_received ls"
  by (auto simp: sys_received_def List.map_filter_def split: sys_label.splits label.splits)

lemma sys_step_Agent:
  "sys_step pad env s (Agent l) = Some s' \<Longrightarrow>
   (\<forall>item. l \<noteq> Kernel item) \<and> exec_step env (sy_daemon s) l = Some (sy_daemon s') \<and>
   sy_bpf s' = set_items (dm_ring (sy_daemon s')) (sy_bpf s)"
  by (cases l) (auto simp del: exec_step.simps)

text \<open>One step, as steps of the daemon.\<close>

lemma sys_emitted_one:
  "sys_step pad env s l = Some s1 \<Longrightarrow> sys_emitted pad env s [l] =
     (case l of Probe prog k \<Rightarrow> probe_events (sys_ops pad) prog k (sy_bpf s) | Agent _ \<Rightarrow> [])"
  by (simp split: sys_label.split)

lemma step_projects:
  assumes "gaps pad" "sound_labels [l]" "in_sync s" "sys_step pad env s l = Some s'"
  shows "\<exists>dls log. exec_run env (sy_daemon s) dls = Some (sy_daemon s') \<and> in_sync s' \<and>
    received dls = sys_received [l] \<and> put_since s s' log \<and>
    parsed (written dls) = accepted log \<and> rejected (written dls) = 0 \<and>
    map fst log = sys_emitted pad env s [l]"
proof (cases l)
  case (Probe prog k)
  let ?es = "probe_events (sys_ops pad) prog k (sy_bpf s)"
  have "wf_kctx k" using assms(2) by (simp add: sound_labels_def Probe)
  then have "\<forall>e \<in> set ?es. wf_event e" using wf_probe_events by blast
  from ring_puts [OF assms(1) this, of "ring_of s"] obtain items log where
    puts: "foldl (ring_put pad) (ring_of s) ?es = \<lparr>rg_items = rg_items (ring_of s) @ items, rg_log = rg_log (ring_of s) @ log\<rparr>"
    "parsed items = accepted log" "rejected items = 0" "map fst log = ?es" by blast
  have "ring_of s' = foldl (ring_put pad) (ring_of s) ?es"
    using assms(4) probe_emits [of "sys_ops pad" prog k "sy_bpf s"]
    by (auto simp: Probe ring_of_def sys_ops_def Let_def)
  moreover have "sy_daemon s' = (sy_daemon s)\<lparr>dm_ring := rg_items (ring_of s')\<rparr>"
    "bs_scratch (sy_bpf s') \<noteq> None"
    using assms(3,4) scratch_kept [of "sy_bpf s" "sys_ops pad" prog k]
    by (auto simp: Probe ring_of_def in_sync_def Let_def)
  ultimately show ?thesis
    using assms(3) puts kernel_items [of env "sy_daemon s" items] sys_emitted_one [OF assms(4)]
    by (intro exI [of _ "map Kernel items"] exI [of _ log])
      (auto simp: in_sync_def Probe put_since_def simp del: sys_step.simps sys_emitted.simps)
next
  case (Agent a)
  from sys_step_Agent [OF assms(4) [unfolded Agent]] have a: "\<forall>item. a \<noteq> Kernel item"
    "exec_step env (sy_daemon s) a = Some (sy_daemon s')" "sy_bpf s' = set_items (dm_ring (sy_daemon s')) (sy_bpf s)"
    by auto
  then have "written [a] = []" "received [a] = sys_received [Agent a]"
    by (auto simp: written_def received_def sys_received_def List.map_filter_def split: label.splits)
  with a assms(3) sys_emitted_one [OF assms(4)] show ?thesis
    by (intro exI [of _ "[a]"] exI [of _ "[]"])
      (auto simp: in_sync_def Agent put_since_def ring_of_def set_items_def
        simp del: sys_emitted.simps)
qed

lemma sys_received_append: "sys_received (ls @ ms) = sys_received ls @ sys_received ms"
  by (simp add: sys_received_def List.map_filter_def)

lemma labels_append:
  "received (xs @ ys) = received xs @ received ys" "written (xs @ ys) = written xs @ written ys"
  by (simp_all add: received_def written_def List.map_filter_def)

lemma run_projects:
  assumes "gaps pad" "sound_labels ls" "in_sync s" "sys_run pad env s ls = Some s'"
  shows "\<exists>dls log. exec_run env (sy_daemon s) dls = Some (sy_daemon s') \<and> in_sync s' \<and>
    received dls = sys_received ls \<and> put_since s s' log \<and>
    parsed (written dls) = accepted log \<and> rejected (written dls) = 0 \<and>
    map fst log = sys_emitted pad env s ls"
  using assms(2,3,4)
proof (induction ls arbitrary: s)
  case Nil
  then show ?case
    by (intro exI [of _ "[]"] exI [of _ "[]"]) (simp add: put_since_def)
next
  case (Cons l ls)
  then obtain s1 where one: "sys_step pad env s l = Some s1" and rest: "sys_run pad env s1 ls = Some s'"
    by (auto simp: bind_eq_Some_conv)
  have sound: "sound_labels [l]" "sound_labels ls" using Cons.prems(1) by (auto simp: sound_labels_def)
  from step_projects [OF assms(1) sound(1) Cons.prems(2) one] obtain d1 log1 where
    1: "exec_run env (sy_daemon s) d1 = Some (sy_daemon s1)" "in_sync s1" "received d1 = sys_received [l]"
      "put_since s s1 log1" "parsed (written d1) = accepted log1" "rejected (written d1) = 0"
      "map fst log1 = sys_emitted pad env s [l]" by blast
  from Cons.IH [OF sound(2) 1(2) rest] obtain d2 log2 where
    2: "exec_run env (sy_daemon s1) d2 = Some (sy_daemon s')" "in_sync s'" "received d2 = sys_received ls"
      "put_since s1 s' log2" "parsed (written d2) = accepted log2" "rejected (written d2) = 0"
      "map fst log2 = sys_emitted pad env s1 ls" by blast
  from 1 2 sys_received_append [of "[l]" ls] show ?case
    by (intro exI [of _ "d1 @ d2"] exI [of _ "log1 @ log2"])
      (simp add: exec_run_append labels_append put_since_def one)
qed

lemma boot_sync: "in_sync (boot scratch sd)" "rg_log (ring_of (boot scratch sd)) = []"
  "sy_daemon (boot scratch sd) = start_daemon (sd_state sd)"
  by (simp_all add: in_sync_def boot_def ring_of_def start_daemon_def)

lemma boot_projects:
  assumes "gaps pad" "sound_labels ls" "sys_run pad env (boot scratch sd) ls = Some s"
  obtains dls where "daemon_run env (start_daemon (sd_state sd)) dls (sy_daemon s)" "in_sync s"
    "received dls = sys_received ls" "parsed (written dls) = accepted (rg_log (ring_of s))"
    "rejected (written dls) = 0" "map fst (rg_log (ring_of s)) = sys_emitted pad env (boot scratch sd) ls"
  using run_projects [OF assms(1,2) boot_sync(1) assms(3)]
  by (auto simp: boot_sync put_since_def daemon_run_exec)

lemma fits_iff: "fits n \<longleftrightarrow> n < 1213"
  by (auto simp: fits_def RING_BYTES_def size_of_event_def)

lemma accepted_eq: "accepted log = map fst (filter (\<lambda>(_, n). n < 1213) log)"
  by (simp add: accepted_def fits_iff)

lemma ring_rejected:
  "daemon_run env (start_daemon st) ls d \<Longrightarrow> rejected (dm_ring d) \<le> rejected (written ls)"
proof (induction "start_daemon st" ls d rule: daemon_run.induct)
  case (more ls d1 l d2)
  then show ?case by (cases l) auto
qed (simp add: start_daemon_def)

text \<open>C5: From probe to loop: whatever probes run and however they interleave with the daemon, an event
  that a probe emits is lost only if 1213 records are waiting in the ring buffer at that moment; the
  loop receives the others, all of them parsed to exactly the events that the probes emitted, in the
  order in which they were emitted, none twice; those it has not received yet are on the way as
  long as the receiver lives; and no record of a probe ever counts as a parse error.\<close>

theorem probe_to_loop:
  assumes "gaps pad" "sound_labels ls" "sys_run pad env (boot scratch sd) ls = Some s"
  shows "map fst (rg_log (ring_of s)) = sys_emitted pad env (boot scratch sd) ls \<and>
    prefix (sys_received ls) (map fst (filter (\<lambda>(_, n). n < 1213) (rg_log (ring_of s)))) \<and>
    (receiver (sy_daemon s) \<longrightarrow>
       map fst (filter (\<lambda>(_, n). n < 1213) (rg_log (ring_of s))) = sys_received ls @ in_flight (sy_daemon s)) \<and>
    mt_parse_errors (as_metrics (dm_agent (sy_daemon s))) = mt_parse_errors (as_metrics (sd_state sd))"
proof -
  from boot_projects [OF assms] obtain dls where
    run: "daemon_run env (start_daemon (sd_state sd)) dls (sy_daemon s)" and
    dls: "received dls = sys_received ls" "parsed (written dls) = accepted (rg_log (ring_of s))"
      "rejected (written dls) = 0" "map fst (rg_log (ring_of s)) = sys_emitted pad env (boot scratch sd) ls"
    by blast
  from pipeline_fifo [OF run] parse_errors_counted [OF run] ring_rejected [OF run] dls show ?thesis
    by (simp add: accepted_eq)
qed

subsection \<open>What the loop has done with the events it received\<close>

text \<open>The process table after one more event; it depends on the table alone.\<close>

definition table_after :: "process_table \<Rightarrow> sentinel_event \<Rightarrow> process_table" where
  "table_after procs raw =
     en_processes (update_tree \<lparr>en_host = [], en_processes = procs, en_max_lineage = 0, en_k8s = None\<rparr> raw)"

lemma table_after_update: "en_processes (update_tree en raw) = table_after (en_processes en) raw"
  by (cases "from_u32 (se_kind raw)")
    (simp_all add: table_after_def update_tree_def Let_def split: event_kind.split)

lemma process_event_table:
  assumes "process_event env raw st = (r, st')" "r \<noteq> Hangs"
  shows "en_processes (as_enricher st') = table_after (en_processes (as_enricher st)) raw"
proof -
  obtain e en where enrich: "enrich (ag_enrich env) (as_enricher st) raw = Some (e, en)"
    using assms by (cases "enrich (ag_enrich env) (as_enricher st) raw") (auto simp: process_event_def)
  then have "as_enricher st' = en"
    using assms(1)
    by (auto simp: process_event_def Let_def keeps_def split: if_splits prod.splits emission.splits
        dest!: process_alerts_keeps)
  moreover have "en_processes en = table_after (en_processes (as_enricher st)) raw"
    using enrich by (auto simp: enrich_def Let_def table_after_update split: option.splits)
  ultimately show ?thesis by simp
qed

definition kind_count :: "string \<Rightarrow> sentinel_event list \<Rightarrow> nat" where
  "kind_count kind raws = length (filter (\<lambda>raw. kind_name (se_kind raw) = kind) raws)"

lemma kind_count_append [simp]: "kind_count k (xs @ ys) = kind_count k xs + kind_count k ys"
  by (simp add: kind_count_def)

text \<open>A loop that is not stuck has taken every received event into its table and its counters.\<close>

definition caught_up :: "agent_state \<Rightarrow> sentinel_event list \<Rightarrow> agent_state \<Rightarrow> bool" where
  "caught_up st raws st' \<longleftrightarrow>
     en_processes (as_enricher st') = foldl table_after (en_processes (as_enricher st)) raws \<and>
     en_host (as_enricher st') = en_host (as_enricher st) \<and>
     (\<forall>kind. mt_events (as_metrics st') (kind, en_host (as_enricher st)) =
       mt_events (as_metrics st) (kind, en_host (as_enricher st)) + kind_count kind raws)"

lemma caught_up_event:
  assumes "caught_up st raws st1" "process_event env raw st1 = (r, st2)" "r \<noteq> Hangs"
  shows "caught_up st (raws @ [raw]) st2"
  using assms process_event_table [OF assms(2,3)] process_event_counts [OF assms(2,3)]
  by (auto simp: caught_up_def bump_apply kind_count_def)

lemma caught_up_step:
  assumes "dm_loop d \<noteq> Wedged \<Longrightarrow> caught_up st (received ls) (dm_agent d)" "step env d l d'" "dm_loop d' \<noteq> Wedged"
  shows "caught_up st (received (ls @ [l])) (dm_agent d')"
proof (cases "\<exists>e. l = Recv e")
  case False
  have "caught_up st (received ls) (dm_agent d) \<Longrightarrow> caught_up st (received ls) (dm_agent d')"
    using assms(2) False
    by (cases l) (auto simp: caught_up_def count_parse_error_def set_cache_def inc_ring_parse_error_def)
  moreover have "dm_loop d \<noteq> Wedged" using assms(2,3) False by (cases l) auto
  ultimately show ?thesis using assms(1) False by (cases l) auto
next
  case True
  then obtain e where l: "l = Recv e" by blast
  from assms(2) obtain r where "dm_loop d = Looping" "process_event env e (dm_agent d) = (r, dm_agent d')"
    "dm_loop d' = after_event r" by (auto simp: l)
  with assms(1,3) caught_up_event [of st "received ls" "dm_agent d" env e r "dm_agent d'"]
  show ?thesis by (cases r) (auto simp: after_event_def l)
qed

lemma caught_up_run:
  "daemon_run env (start_daemon st) ls d \<Longrightarrow> dm_loop d \<noteq> Wedged \<Longrightarrow> caught_up st (received ls) (dm_agent d)"
proof (induction "start_daemon st" ls d rule: daemon_run.induct)
  case start
  then show ?case by (simp add: caught_up_def start_daemon_def kind_count_def)
next
  case (more ls d1 l d2)
  then show ?case using caught_up_step by blast
qed

text \<open>A system that is at work and has nothing to do.\<close>

definition idle :: "('v, 're) agent_env \<Rightarrow> system \<Rightarrow> bool" where
  "idle env s \<longleftrightarrow>
     dm_loop (sy_daemon s) = Looping \<and> dm_reader (sy_daemon s) \<and>
     (\<forall>l. internal l \<longrightarrow> exec_step env (sy_daemon s) l = None)"

lemma idle_empty: "idle env s \<Longrightarrow> in_flight (sy_daemon s) = [] \<and> receiver (sy_daemon s)"
  using idle_is_empty [of "sy_daemon s" env] by (auto simp: idle_def step_exec)

lemma idle_caught_up:
  assumes "gaps pad" "sound_labels ls" "sys_run pad env (boot scratch sd) ls = Some s" "idle env s"
  shows "caught_up (sd_state sd) (accepted (rg_log (ring_of s))) (dm_agent (sy_daemon s)) \<and>
    map fst (rg_log (ring_of s)) = sys_emitted pad env (boot scratch sd) ls"
proof -
  from boot_projects [OF assms(1-3)] obtain dls where
    run: "daemon_run env (start_daemon (sd_state sd)) dls (sy_daemon s)" and
    dls: "received dls = sys_received ls" "parsed (written dls) = accepted (rg_log (ring_of s))"
      "map fst (rg_log (ring_of s)) = sys_emitted pad env (boot scratch sd) ls"
    by blast
  from pipeline_fifo [OF run] idle_empty [OF assms(4)] dls(2) have "received dls = accepted (rg_log (ring_of s))"
    by simp
  with caught_up_run [OF run] assms(4) dls(3) show ?thesis by (simp add: idle_def)
qed

text \<open>C14: Once the system is idle and at work, its counters tell what the probes have seen: for every
  kind, the counter of events has grown by the number of events of that kind that the probes
  emitted, less those lost while 1213 records were waiting, whether or not handling them failed.\<close>

theorem idle_counters:
  assumes "gaps pad" "sound_labels ls" "sys_run pad env (boot scratch sd) ls = Some s" "idle env s"
    "host = en_host (as_enricher (sd_state sd))"
  shows "mt_events (as_metrics (dm_agent (sy_daemon s))) (kind, host) +
      kind_count kind (map fst (filter (\<lambda>(_, n). 1213 \<le> n) (rg_log (ring_of s)))) =
    mt_events (as_metrics (sd_state sd)) (kind, host) +
      kind_count kind (sys_emitted pad env (boot scratch sd) ls)"
proof -
  have split: "kind_count kind (map fst (filter (\<lambda>(_, n). 1213 \<le> n) log)) + kind_count kind (accepted log) =
      kind_count kind (map fst log)" for log :: "(sentinel_event \<times> nat) list"
    by (induction log) (auto simp: accepted_eq kind_count_def)
  from idle_caught_up [OF assms(1-4)] split [of "rg_log (ring_of s)"] show ?thesis
    by (simp add: caught_up_def assms(5))
qed

subsection \<open>The two process tables\<close>

text \<open>The parents the kernel's tree knows, and the daemon's table when it knows them too.\<close>

abbreviation parents :: "tree \<Rightarrow> u32 \<Rightarrow> u32" where
  "parents t \<equiv> lookup_ppid main_ops t"


text \<open>
  Process ids below the kernel's default \<open>pid_max\<close>, of which the daemon's table can hold all. The
  record of \<open>sched_process_exec\<close>, laid out as the probe reads it, names the current process. (Whether a
  given kernel lays its records out so is a question of \<open>tracepoint_offsets.rs\<close>.)
\<close>

definition PID_MAX :: u32 where "PID_MAX = 32768"


definition sound_pids :: "program \<Rightarrow> kctx \<Rightarrow> bool" where
  "sound_pids prog k \<longleftrightarrow>
     current_pid k < PID_MAX \<and>
     (prog = Sched_Process_Fork \<longrightarrow> (ucast (kc_arg k 1) :: u32) < PID_MAX \<and> (ucast (kc_arg k 3) :: u32) < PID_MAX) \<and>
     (prog = Sched_Process_Exec \<longrightarrow> (\<forall>b. kc_read_at k 24 4 = Some b \<longrightarrow> from_ne_bytes b = current_pid k))"







lemma lookup_sys [simp]: "lookup_ppid (sys_ops pad) t = parents t"
  by (rule ext) (simp add: lookup_ppid_def sys_ops_def main_ops_def)

lemma mo_insert_sys [simp]: "mo_insert (sys_ops pad) = tree_insert"
  by (simp add: sys_ops_def)










subsection \<open>A run of the system\<close>

text \<open>Process 5 forks 9; the agent, without rules and telemetry, receives and handles the event.\<close>

definition fork_kctx :: kctx where
  "fork_kctx = quiet_kctx\<lparr>kc_arg := (\<lambda>i. if i = 3 then 9 else 5)\<rparr>"

definition fork_event :: sentinel_event where
  "fork_event = event_of fork_kctx 0 ProcessFork 9 5 (replicate 16 0) (replicate 128 0) 0 0 0 0 (replicate 16 0)"

definition still_env :: "(yval, string) agent_env" where
  "still_env = (sample_env open_env)\<lparr>ag_rules := [], ag_emit_events := False\<rparr>"

definition sample_started :: "(yval, string) started" where
  "sample_started =
     \<lparr>sd_config = config_default None, sd_attached = all_attachments, sd_slots = empty_slots, sd_tree = [],
      sd_env = still_env, sd_state = sample_state\<rparr>"

definition zero_gaps :: "nat \<Rightarrow> bytes \<times> bytes" where
  "zero_gaps i = (replicate 4 0, replicate 4 0)"

definition fork_trace :: "sys_label list" where
  "fork_trace = [Probe Sched_Process_Fork fork_kctx, Agent Take, Agent Send, Agent (Recv fork_event)]"

abbreviation fork_boot :: "(yval, string) started \<Rightarrow> system" where
  "fork_boot \<equiv> boot (sample_event Exec 0 0 [] [])"

abbreviation sample_boot :: system where
  "sample_boot \<equiv> fork_boot sample_started"

lemma fork_args: "(ucast (kc_arg fork_kctx 3) :: u32) = 9" "(ucast (kc_arg fork_kctx 1) :: u32) = 5"
  by (simp_all add: fork_kctx_def)

lemma fork_probe:
  assumes "sd_tree sd = []"
  shows "snd (probe (sys_ops zero_gaps) Sched_Process_Fork fork_kctx (sy_bpf (fork_boot sd))) =
     (sy_bpf (fork_boot sd))\<lparr>bs_tree := [(9, \<lparr>pn_ppid = 5, pn_uid = 0, pn_comm = replicate 16 0\<rparr>)],
       bs_ticks := 1, bs_scratch := Some fork_event,
       bs_events := \<lparr>rg_items = [event_bytes (replicate 4 0) (replicate 4 0) fork_event], rg_log = [(fork_event, 0)]\<rparr>\<rparr>"
proof -
  have "read_kernel_comm fork_kctx (kc_arg fork_kctx 0) (replicate 16 0) = replicate 16 0"
    by (simp add: read_kernel_comm_def fork_kctx_def quiet_kctx_def)
  moreover have "fst (read_uid_gid fork_kctx) = 0"
    by (simp add: read_uid_gid_def fork_kctx_def quiet_kctx_def)
  moreover have "fits 0" by (simp add: fits_iff)
  ultimately show ?thesis
    using fork_args assms
    by (subst fork_events [where e = "sample_event Exec 0 0 [] []"])
      (simp_all add: boot_def fork_event_def sys_ops_def ring_put_def zero_gaps_def
        tree_insert_def MAX_TREE_def Let_def del: replicate.simps)
qed

lemma wf_fork_event: "wf_event fork_event"
  by (simp add: wf_event_def fork_event_def event_of_def)

lemma fork_enriched:
  assumes "en_processes en = Map.empty"
  shows "\<exists>p. enrich quiet_enrich_env en fork_event = Some p"
proof -
  have table: "en_processes (update_tree en fork_event) 5 = Some \<lparr>pi_ppid = 0, pi_comm = []\<rparr>"
    by (simp add: assms update_tree_def fork_event_def event_of_def fork_update_def cstr_comm_def str_len_def
        from_utf8_lossy_def MAX_PROCESSES_def del: kind_as_u32.simps)
  have "se_ppid fork_event = 5" by (simp add: fork_event_def event_of_def)
  then have "\<exists>lin. lineage (update_tree en fork_event) (se_ppid fork_event) = Some lin"
    by (simp add: lineage_def lineage_loop.simps table)
  then show ?thesis by (auto simp: enrich_def Let_def)
qed

lemma fork_kind: "kind_name (se_kind fork_event) = ''processfork''"
  unfolding fork_event_def event_of_def sentinel_event.select_convs by code_simp

lemma fork_handled:
  "en_processes (as_enricher st) = Map.empty \<Longrightarrow> \<exists>st'. process_event still_env fork_event st = (Handled, st')"
  using fork_enriched [of "as_enricher st"]
  by (auto simp: process_event_def still_env_def sample_env_def Let_def)

text \<open>The run, from any started agent that begins without processes.\<close>

lemma fork_run_in:
  assumes sd: "sd_tree sd = []" and st: "process_event env fork_event (sd_state sd) = (Handled, st)"
  shows "\<exists>s. sys_run zero_gaps env (fork_boot sd) fork_trace = Some s \<and> idle env s \<and>
     rg_log (ring_of s) = [(fork_event, 0)] \<and> parents (bs_tree (sy_bpf s)) 9 = 5"
proof -
  have parse: "parse_ring_event (event_bytes (replicate 4 0) (replicate 4 0) fork_event) = Some fork_event"
    by (simp add: parse_event_bytes wf_fork_event)
  have daemon: "sy_daemon (fork_boot sd) = start_daemon (sd_state sd)"
    by (simp add: boot_def)
  have tree: "parents [(9, \<lparr>pn_ppid = 5, pn_uid = 0, pn_comm = replicate 16 0\<rparr>)] 9 = 5"
    by (simp add: lookup_ppid_def main_ops_def)
  let ?d = "(start_daemon st)\<lparr>dm_loop := Looping\<rparr>"
  have quiet: "internal l \<Longrightarrow> exec_step env ?d l = None" for l
    by (cases l) (simp_all add: start_daemon_def)
  show ?thesis
    using quiet tree
    by (simp add: fork_trace_def fork_probe [OF sd] daemon Let_def parse start_daemon_def st receiver_def
        CHANNEL_def set_items_def idle_def ring_of_def after_event_def del: probe.simps replicate.simps)
qed

lemma fork_run:
  "\<exists>s. sys_run zero_gaps still_env sample_boot fork_trace = Some s \<and> idle still_env s \<and>
     rg_log (ring_of s) = [(fork_event, 0)] \<and> parents (bs_tree (sy_bpf s)) 9 = 5"
proof -
  have sd: "sd_tree sample_started = []" "en_processes (as_enricher (sd_state sample_started)) = Map.empty"
    by (simp_all add: sample_started_def sample_state_def)
  from fork_handled [OF sd(2)] fork_run_in [OF sd(1)] show ?thesis by blast
qed

lemma fork_sound:
  "gaps zero_gaps" "sound_labels fork_trace" "Probe prog k \<in> set fork_trace \<Longrightarrow> sound_pids prog k"
proof -
  show "gaps zero_gaps" by (simp add: gaps_def zero_gaps_def)
  show "sound_labels fork_trace"
    by (simp add: sound_labels_def fork_trace_def wf_kctx_def fork_kctx_def quiet_kctx_def)
  have "current_pid fork_kctx = 0" by (simp add: current_pid_def fork_kctx_def quiet_kctx_def)
  then show "Probe prog k \<in> set fork_trace \<Longrightarrow> sound_pids prog k"
    using fork_args by (auto simp: fork_trace_def sound_pids_def PID_MAX_def)
qed

lemma fork_started:
  "en_processes (as_enricher (sd_state sample_started)) = Map.empty" "sd_tree sample_started = []"
  "en_host (as_enricher (sd_state sample_started)) = ''h''"
  "as_metrics (sd_state sample_started) = new_metrics"
  by (simp_all add: sample_started_def sample_state_def)

lemma fork_emitted: "sys_emitted zero_gaps still_env sample_boot fork_trace = [fork_event]"
proof -
  obtain s where s: "sys_run zero_gaps still_env sample_boot fork_trace = Some s" "idle still_env s"
    "rg_log (ring_of s) = [(fork_event, 0)]" using fork_run by blast
  from idle_caught_up [OF fork_sound(1,2) s(1,2)] show ?thesis by (simp add: s(3))
qed

theorem probe_to_loop_witness:
  "\<exists>s. sys_run zero_gaps still_env sample_boot fork_trace = Some s \<and> prefix (sys_received fork_trace) [fork_event] \<and>
     mt_parse_errors (as_metrics (dm_agent (sy_daemon s))) = 0"
proof -
  obtain s where s: "sys_run zero_gaps still_env sample_boot fork_trace = Some s"
    "rg_log (ring_of s) = [(fork_event, 0)]" using fork_run by blast
  from probe_to_loop [OF fork_sound(1,2) s(1)] show ?thesis
    by (simp add: s fork_started new_metrics_def fork_emitted)
qed

theorem idle_counters_witness:
  "\<exists>s. sys_run zero_gaps still_env sample_boot fork_trace = Some s \<and>
     mt_events (as_metrics (dm_agent (sy_daemon s))) (''processfork'', ''h'') = 1"
proof -
  obtain s where s: "sys_run zero_gaps still_env sample_boot fork_trace = Some s" "idle still_env s"
    "rg_log (ring_of s) = [(fork_event, 0)]" using fork_run by blast
  from idle_counters [OF fork_sound(1,2) s(1,2) fork_started(3) [symmetric], of "''processfork''"] s(1)
  show ?thesis
    by (simp add: s(3) fork_started new_metrics_def fork_emitted kind_count_def fork_kind)
qed


end
