(* ===== verification/Alert_Rate.thy ===== *)
theory Alert_Rate
  imports Agent_Loop "HOL-Library.Sublist"
begin

text \<open>
  The rate limit as the ingest service sees it: how many alerts of a rule and a process reach a gRPC
  endpoint, over all events that the loop handles, however they end. A stretch of handling asks the
  limiter some requests and publishes, in order, some of the alerts that were let through.
\<close>

subsection \<open>What an endpoint receives\<close>

text \<open>The time stamps of the alerts published to an endpoint, of a rule and a process.\<close>

definition published :: "string \<Rightarrow> bucket_key \<Rightarrow> sink_output list \<Rightarrow> u64 list" where
  "published ep k log = List.map_filter
     (\<lambda>out. case out of
        Publish_Alert e pb \<Rightarrow>
          if e = ep \<and> (pa_rule_id pb, map_option pb_pid (pa_event pb)) = (fst k, Some (snd k))
          then Some (pa_timestamp_ns pb) else None
      | _ \<Rightarrow> None) log"

definition alert_key :: "alert \<Rightarrow> bucket_key" where
  "alert_key a = (al_rule_id a, ee_pid (al_event a))"

lemma published_append [simp]: "published ep k (xs @ ys) = published ep k xs @ published ep k ys"
  by (simp add: published_def List.map_filter_def)

lemma published_Cons2 [simp]:
  "published ep k (x # y # log) = published ep k [x] @ published ep k (y # log)"
  using published_append [of ep k "[x]" "y # log"] by simp

lemma published_one:
  "published ep k [] = []"
  "published ep k [Publish_Alert e (alert_to_pb a)] = (if e = ep \<and> alert_key a = k then [al_timestamp_ns a] else [])"
  "(\<And>e pb. out \<noteq> Publish_Alert e pb) \<Longrightarrow> published ep k [out] = []"
  by (auto simp: published_def List.map_filter_def alert_to_pb_def event_to_pb_def alert_key_def prod_eq_iff
      split: sink_output.split)

text \<open>The number of sinks for an endpoint.\<close>

definition sinks_for :: "string \<Rightarrow> sink list \<Rightarrow> nat" where
  "sinks_for ep ss = count_list (map config_of_sink ss) (SC_Grpc ep)"

lemma emit_alert_published:
  "emit_alert env s a log = (r, s', log') \<Longrightarrow>
   config_of_sink s' = config_of_sink s \<and>
   (\<exists>ys. published ep k log' = published ep k log @ ys \<and>
     subseq ys (if config_of_sink s = SC_Grpc ep \<and> alert_key a = k then [al_timestamp_ns a] else []))"
  by (cases s) (auto simp: emit_defs published_one split: option.splits if_splits)

lemma emit_event_published:
  "emit_event env s e log = (r, s', log') \<Longrightarrow>
   config_of_sink s' = config_of_sink s \<and> published ep k log' = published ep k log"
  by (cases s) (auto simp: emit_defs published_one split: option.splits if_splits)

lemma for_sinks_event_published:
  "for_sinks (\<lambda>s. emit_event env s e) ss log = (r, ss', log') \<Longrightarrow>
   map config_of_sink ss' = map config_of_sink ss \<and> published ep k log' = published ep k log"
proof (induction ss arbitrary: log ss')
  case (Cons s ss)
  obtain r1 s1 log1 where one: "emit_event env s e log = (r1, s1, log1)" by (metis prod_cases3)
  from Cons emit_event_published [OF one, of ep k] show ?case
    by (cases r1) (auto simp: one simp del: emit_event.simps split: prod.splits)
qed simp

lemma for_sinks_alert_published:
  "for_sinks (\<lambda>s. emit_alert env s a) ss log = (r, ss', log') \<Longrightarrow> sinks_for ep ss \<le> 1 \<Longrightarrow>
   map config_of_sink ss' = map config_of_sink ss \<and>
   (\<exists>ys. published ep k log' = published ep k log @ ys \<and>
     subseq ys (if alert_key a = k \<and> 0 < sinks_for ep ss then [al_timestamp_ns a] else []))"
proof (induction ss arbitrary: log ss')
  case (Cons s ss)
  obtain r1 s1 log1 where one: "emit_alert env s a log = (r1, s1, log1)" by (metis prod_cases3)
  note first = emit_alert_published [OF one, of ep k]
  show ?case
  proof (cases "r1 = Emitted")
    case False
    with Cons.prems(1) one have "ss' = s1 # ss" "log' = log1" by (cases r1; auto simp del: emit_alert.simps)+
    with first show ?thesis by (auto simp: sinks_for_def dest: list_emb_Nil2 split: if_splits)
  next
    case True
    with Cons.prems(1) one obtain ss1 where rest: "for_sinks (\<lambda>s. emit_alert env s a) ss log1 = (r, ss1, log')"
      and ss': "ss' = s1 # ss1" by (auto simp del: emit_alert.simps split: prod.splits)
    from Cons.IH [OF rest] Cons.prems(2) have IH: "map config_of_sink ss1 = map config_of_sink ss"
      "\<exists>ys. published ep k log' = published ep k log1 @ ys \<and>
        subseq ys (if alert_key a = k \<and> 0 < sinks_for ep ss then [al_timestamp_ns a] else [])"
      by (auto simp: sinks_for_def split: if_splits)
    show ?thesis
    proof (cases "config_of_sink s = SC_Grpc ep")
      case True
      then have "sinks_for ep ss = 0" using Cons.prems(2) by (simp add: sinks_for_def)
      with first IH True ss' show ?thesis by (auto simp: sinks_for_def dest!: list_emb_Nil2)
    next
      case False
      with first IH ss' show ?thesis by (auto simp: sinks_for_def dest!: list_emb_Nil2)
    qed
  qed
qed (auto simp: sinks_for_def)

subsection \<open>Stretches of handling\<close>

text \<open>
  Between two states, for events with the time stamps \<open>T\<close>: the limiter was asked about requests of
  those times, in their order, and what was published was let through.
\<close>

definition stretch :: "string \<Rightarrow> bucket_key \<Rightarrow> u64 list \<Rightarrow> agent_state \<Rightarrow> agent_state \<Rightarrow> bool" where
  "stretch ep k T st st' \<longleftrightarrow>
     sinks_for ep (as_sinks st') = sinks_for ep (as_sinks st) \<and>
     (\<exists>qs ys. (sorted T \<longrightarrow> sorted (map req_time qs)) \<and> req_time ` set qs \<subseteq> set T \<and>
        as_suppressor st' = snd (run allow_step (as_suppressor st) qs) \<and>
        published ep k (as_log st') = published ep k (as_log st) @ ys \<and>
        subseq ys (granted k qs (fst (run allow_step (as_suppressor st) qs))))"

lemma stretch_refl: "stretch ep k T st st"
  unfolding stretch_def by (intro conjI exI [of _ "[]"]) simp_all

lemma granted_append:
  "length bs = length qs \<Longrightarrow> granted k (qs @ qs') (bs @ bs') = granted k qs bs @ granted k qs' bs'"
  by (simp add: granted_def)

lemma stretch_trans:
  assumes "stretch ep k T st st1" "stretch ep k T' st1 st2"
  shows "stretch ep k (T @ T') st st2"
proof -
  from assms(1) obtain qs ys where 1: "sorted T \<longrightarrow> sorted (map req_time qs)" "req_time ` set qs \<subseteq> set T"
    "as_suppressor st1 = snd (run allow_step (as_suppressor st) qs)"
    "published ep k (as_log st1) = published ep k (as_log st) @ ys"
    "subseq ys (granted k qs (fst (run allow_step (as_suppressor st) qs)))"
    unfolding stretch_def by blast
  from assms(2) obtain qs' ys' where 2: "sorted T' \<longrightarrow> sorted (map req_time qs')" "req_time ` set qs' \<subseteq> set T'"
    "as_suppressor st2 = snd (run allow_step (as_suppressor st1) qs')"
    "published ep k (as_log st2) = published ep k (as_log st1) @ ys'"
    "subseq ys' (granted k qs' (fst (run allow_step (as_suppressor st1) qs')))"
    unfolding stretch_def by blast
  have "sorted (T @ T') \<longrightarrow> sorted (map req_time (qs @ qs'))"
    using 1(1,2) 2(1,2) by (auto simp: sorted_append)
  moreover have "subseq (ys @ ys') (granted k (qs @ qs') (fst (run allow_step (as_suppressor st) (qs @ qs'))))"
    using list_emb_append_mono [OF 1(5) 2(5)] by (simp add: run_append granted_append 1(3))
  ultimately show ?thesis
    using assms 1 2 unfolding stretch_def
    by (intro conjI exI [of _ "qs @ qs'"] exI [of _ "ys @ ys'"]) (auto simp: run_append)
qed

lemma stretch_same: "stretch ep k (replicate n t) st st' \<Longrightarrow> stretch ep k [t] st st'"
proof -
  assume "stretch ep k (replicate n t) st st'"
  moreover have "req_time ` set qs \<subseteq> set (replicate n t) \<Longrightarrow> req_time ` set qs \<subseteq> set [t]" for qs
    by (auto split: if_splits)
  moreover have "sorted (replicate n t)" "sorted [t]" by (simp_all add: sorted_replicate)
  ultimately show ?thesis unfolding stretch_def by metis
qed

lemma stretch_quiet:
  assumes "as_suppressor st' = as_suppressor st" "published ep k (as_log st') = published ep k (as_log st)"
    "sinks_for ep (as_sinks st') = sinks_for ep (as_sinks st)"
  shows "stretch ep k T st st'"
  unfolding stretch_def using assms by (intro conjI exI [of _ "[]"]) simp_all

lemma export_alert_published:
  assumes "export_alert env a st = (e, st')" "sinks_for ep (as_sinks st) \<le> 1"
  shows "as_suppressor st' = as_suppressor st \<and> sinks_for ep (as_sinks st') = sinks_for ep (as_sinks st) \<and>
    (\<exists>ys. published ep k (as_log st') = published ep k (as_log st) @ ys \<and>
      subseq ys (if alert_key a = k then [al_timestamp_ns a] else []))"
proof -
  obtain r sinks' log' where run: "for_sinks (\<lambda>s. emit_alert (ag_sink env) s a) (as_sinks st) (as_log st) = (r, sinks', log')"
    by (metis prod_cases3)
  from for_sinks_alert_published [OF run assms(2), of k] assms(1) show ?thesis
    by (auto simp: export_alert_def multi_emit_alert_def run Let_def sinks_for_def
        dest: list_emb_Nil2 split: if_splits)
qed

lemma process_alert_stretch:
  assumes "process_alert env a st = (e, st')" "should_alert (ag_rules env) (fst k)" "sinks_for ep (as_sinks st) \<le> 1"
  shows "stretch ep k [al_timestamp_ns a] st st'"
proof -
  have same: "alert_key a' = alert_key a \<and> al_timestamp_ns a' = al_timestamp_ns a"
    if t: "triage_step env w a = Inr a'" for w a'
  proof -
    from t consider "a' = a" | x where "a' = a\<lparr>al_triage := Some x\<rparr>"
      by (cases "triage_alert (ag_triage_env env) (ag_triage env) a")
        (auto simp: triage_step_def split: if_splits sum.splits)
    then show ?thesis by cases (simp_all add: alert_key_def)
  qed
  show ?thesis
  proof (cases "should_alert (ag_rules env) (al_rule_id a)")
    case True
    obtain ok lim where allow: "allow (as_suppressor st) (al_rule_id a) (ee_pid (al_event a)) (al_timestamp_ns a) = (ok, lim)"
      by fastforce
    let ?q = "(al_rule_id a, ee_pid (al_event a), al_timestamp_ns a)"
    have run: "run allow_step (as_suppressor st) [?q] = ([ok], lim)"
      by (simp add: allow_step_def allow)
    have key: "req_key ?q = alert_key a" "req_time ?q = al_timestamp_ns a"
      by (simp_all add: req_key_def req_time_def alert_key_def)
    have "as_suppressor st' = lim \<and> sinks_for ep (as_sinks st') = sinks_for ep (as_sinks st) \<and>
      (\<exists>ys. published ep k (as_log st') = published ep k (as_log st) @ ys \<and>
        subseq ys (if alert_key a = k \<and> ok then [al_timestamp_ns a] else []))"
    proof (cases "ok \<and> (\<exists>a'. triage_step env (should_triage (ag_rules env) (al_rule_id a)) a = Inr a')")
      case False
      with assms(1) True allow show ?thesis
        by (auto simp: process_alert_def Let_def split: if_splits sum.splits)
    next
      case ok: True
      then obtain a' where a': "triage_step env (should_triage (ag_rules env) (al_rule_id a)) a = Inr a'" by blast
      with assms(1) True allow ok have "export_alert env a' (st\<lparr>as_suppressor := lim\<rparr>) = (e, st')"
        by (simp add: process_alert_def Let_def)
      from export_alert_published [OF this, of ep k] assms(3) same [OF a'] ok show ?thesis by auto
    qed
    then show ?thesis
      unfolding stretch_def
      by (elim conjE exE, intro conjI exI [of _ "[?q]"]) (auto simp: run key simp del: run.simps)
  next
    case False
    have other: "alert_key a \<noteq> k" using False assms(2) by (auto simp: alert_key_def)
    show ?thesis
    proof (cases "st' = st")
      case False
      with assms(1) \<open>\<not> should_alert (ag_rules env) (al_rule_id a)\<close> obtain a' where
        a': "triage_step env True a = Inr a'" "export_alert env a' st = (e, st')"
        by (auto simp: process_alert_def Let_def split: if_splits sum.splits)
      from export_alert_published [OF a'(2) assms(3), of k] same [OF a'(1)] other show ?thesis
        by (intro stretch_quiet) (auto dest: list_emb_Nil2)
    qed (simp add: stretch_refl)
  qed
qed

lemma process_alerts_stretch:
  "process_alerts env alerts st = (e, st') \<Longrightarrow> should_alert (ag_rules env) (fst k) \<Longrightarrow>
   sinks_for ep (as_sinks st) \<le> 1 \<Longrightarrow> \<forall>a \<in> set alerts. al_timestamp_ns a = t \<Longrightarrow>
   stretch ep k (replicate (length alerts) t) st st'"
proof (induction alerts arbitrary: st)
  case Nil
  then show ?case by (simp add: stretch_refl)
next
  case (Cons a alerts)
  obtain e1 st1 where one: "process_alert env a st = (e1, st1)" by fastforce
  have first: "stretch ep k [t] st st1"
    using process_alert_stretch [OF one Cons.prems(2,3)] Cons.prems(4) by simp
  then have "sinks_for ep (as_sinks st1) \<le> 1" using Cons.prems(3) by (simp add: stretch_def)
  show ?case
  proof (cases "e1 = Handled")
    case True
    with Cons.prems one have "process_alerts env alerts st1 = (e, st')" by simp
    from stretch_trans [OF first Cons.IH [OF this Cons.prems(2) \<open>sinks_for ep (as_sinks st1) \<le> 1\<close>]] Cons.prems(4)
    show ?thesis by simp
  next
    case False
    with Cons.prems(1) one have "st' = st1" by (cases e1) simp_all
    with stretch_trans [OF first stretch_refl [of ep k "replicate (length alerts) t"]] show ?thesis by simp
  qed
qed

lemma evaluate_times: "a \<in> set (evaluate tbl y rx rules event) \<Longrightarrow> al_timestamp_ns a = ee_timestamp_ns event"
  by (induction tbl y rx rules event rule: evaluate.induct) (auto simp: alert_of_def split: if_splits)

lemma enrich_time: "enrich env en raw = Some (e, en') \<Longrightarrow> ee_timestamp_ns e = se_timestamp_ns raw"
  by (auto simp: enrich_def enriched_of_def Let_def split: option.splits)

lemma process_event_stretch:
  assumes "process_event env raw st = (e, st')" "should_alert (ag_rules env) (fst k)" "sinks_for ep (as_sinks st) \<le> 1"
  shows "stretch ep k [se_timestamp_ns raw] st st'"
proof (cases "enrich (ag_enrich env) (as_enricher st) raw")
  case None
  with assms(1) show ?thesis by (simp add: process_event_def stretch_refl)
next
  case (Some x)
  then obtain event en where enrich: "enrich (ag_enrich env) (as_enricher st) raw = Some (event, en)"
    by (cases x) auto
  let ?alerts = "evaluate (ag_lower env) (ag_yaml env) (ag_regex env) (ag_rules env) event"
  let ?st1 = "st\<lparr>as_enricher := en, as_metrics := inc_event (ee_kind event) (ee_host event) (as_metrics st)\<rparr>"
  obtain r sinks' log' where emit: "for_sinks (\<lambda>s. emit_event (ag_sink env) s event) (as_sinks st) (as_log st) = (r, sinks', log')"
    by (metis prod_cases3)
  let ?st2 = "if ag_emit_events env then ?st1\<lparr>as_sinks := sinks', as_log := log'\<rparr> else ?st1"
  have before: "stretch ep k [] st ?st2"
    using for_sinks_event_published [OF emit, of ep k]
    by (intro stretch_quiet) (simp_all add: sinks_for_def)
  then have one: "sinks_for ep (as_sinks ?st2) \<le> 1" using assms(3) by (simp only: stretch_def)
  show ?thesis
  proof (cases "process_alerts env ?alerts ?st2 = (e, st')")
    case True
    have "\<forall>a \<in> set ?alerts. al_timestamp_ns a = se_timestamp_ns raw"
      using evaluate_times enrich_time [OF enrich] by metis
    from stretch_trans [OF before process_alerts_stretch [OF True assms(2) one this]]
    show ?thesis by (auto intro: stretch_same)
  next
    case False
    with assms(1) have "st' = ?st2"
      by (auto simp: process_event_def enrich multi_emit_event_def emit Let_def split: if_splits emission.splits)
    with stretch_trans [OF before stretch_refl [of ep k "[se_timestamp_ns raw]"]] show ?thesis by simp
  qed
qed

lemma event_loop_stretch:
  "event_loop env raws st = (e, st') \<Longrightarrow> should_alert (ag_rules env) (fst k) \<Longrightarrow> sinks_for ep (as_sinks st) \<le> 1 \<Longrightarrow>
   stretch ep k (map se_timestamp_ns raws) st st'"
proof (induction raws arbitrary: st)
  case Nil
  then show ?case by (simp add: stretch_refl)
next
  case (Cons raw raws)
  obtain e1 st1 where one: "process_event env raw st = (e1, st1)" by fastforce
  note first = process_event_stretch [OF one Cons.prems(2,3)]
  then have sinks: "sinks_for ep (as_sinks st1) \<le> 1" using Cons.prems(3) by (simp add: stretch_def)
  show ?case
  proof (cases "e1 = Handled \<or> e1 = Failed")
    case True
    with Cons.prems(1) one have "event_loop env raws st1 = (e, st')" by auto
    from stretch_trans [OF first Cons.IH [OF this Cons.prems(2) sinks]] show ?thesis by simp
  next
    case False
    with Cons.prems(1) one have "st' = st1" by (cases e1) simp_all
    with stretch_trans [OF first stretch_refl [of ep k "map se_timestamp_ns raws"]] show ?thesis by simp
  qed
qed

subsection \<open>The limit, seen from outside\<close>

lemma window_count_subseq: "subseq xs ys \<Longrightarrow> window_count l t xs \<le> window_count l t ys"
  unfolding window_count_def by (rule list_emb_length [OF subseq_filter])

text \<open>C21: However many events the loop handles, and however handling them ends: of the alerts of a rule
  that alerts and of a process, the ingest service at an endpoint receives at most the configured
  number with a time stamp in any window of the configured length, provided the events come in the
  order of their time stamps and the endpoint is configured once. Alerts that triage has changed,
  errors of other sinks and panics make no difference.\<close>

theorem endpoint_rate_limited:
  assumes "event_loop env raws st = (e, st')" "as_suppressor st = new_suppressor cfg"
    "should_alert (ag_rules env) r" "sinks_for ep (as_sinks st) \<le> 1"
    "sorted (map se_timestamp_ns raws)" "as_log st = []"
  shows "window_count (limit_of (new_suppressor cfg) r) t (published ep (r, p) (as_log st'))
    \<le> unat (rl_max_alerts (limit_of (new_suppressor cfg) r))"
proof -
  have "stretch ep (r, p) (map se_timestamp_ns raws) st st'"
    using assms(1,3,4) by (intro event_loop_stretch) simp_all
  then obtain qs ys where "sorted (map req_time qs)" "published ep (r, p) (as_log st') = ys"
    "subseq ys (granted (r, p) qs (fst (run allow_step (new_suppressor cfg) qs)))"
    using assms(2,5,6) by (auto simp: stretch_def published_one)
  with rate_limit_holds [of qs cfg r t p] show ?thesis
    using window_count_subseq le_trans by blast
qed

text \<open>Two events at once that both match, one alert a minute, and an ingest service.\<close>

theorem endpoint_rate_limited_witness:
  "window_count (limit_of (new_suppressor one_per_minute) ''r'') 0 (published ''soar'' (''r'', 42)
     (as_log (snd (event_loop (sample_env open_env) [sample_raw, sample_raw]
       (sample_state\<lparr>as_sinks := [Grpc_Sink ''soar'' False], as_suppressor := new_suppressor one_per_minute\<rparr>))))) \<le> 1"
proof -
  let ?st = "sample_state\<lparr>as_sinks := [Grpc_Sink ''soar'' False], as_suppressor := new_suppressor one_per_minute\<rparr>"
  obtain e st' where run: "event_loop (sample_env open_env) [sample_raw, sample_raw] ?st = (e, st')" by fastforce
  have wants: "should_alert (ag_rules (sample_env open_env)) ''r''"
    by (simp add: sample_env_def should_alert_def find_rule_def sample_rule_def)
  have lim: "rl_max_alerts (limit_of (new_suppressor one_per_minute) ''r'') = 1"
    by (simp add: limit_of_new one_per_minute_def rate_limit_from_def)
  have "window_count (limit_of (new_suppressor one_per_minute) ''r'') 0 (published ''soar'' (''r'', 42) (as_log st'))
      \<le> unat (rl_max_alerts (limit_of (new_suppressor one_per_minute) ''r''))"
    by (rule endpoint_rate_limited [OF run _ wants]) (simp_all add: sinks_for_def sample_state_def)
  then show ?thesis by (simp add: run lim del: event_loop.simps)
qed

end
