(* ===== verification/Accounting.thy ===== *)
theory Accounting
  imports System Alert_Rate
begin

text \<open>
  Where the matches of a rule end up. When the outside refuses nothing, every event that matches a
  rule which asks for alerting leads to an alert that is counted and delivered, or is counted as
  suppressed: first for the loop over its events, then for the whole system of probes and daemon.
\<close>

subsection \<open>An outside that works\<close>

definition healthy :: "('v, 're) agent_env \<Rightarrow> bool" where
  "healthy env \<longleftrightarrow>
     (\<forall>log out. sn_ok (ag_sink env) log out) \<and> (\<forall>ep. sn_uri_ok (ag_sink env) ep) \<and>
     (\<forall>e. sn_event_json (ag_sink env) e \<noteq> None \<and> sn_event_record (ag_sink env) e \<noteq> None) \<and>
     (\<forall>a. sn_alert_json (ag_sink env) a \<noteq> None \<and> sn_alert_record (ag_sink env) a \<noteq> None) \<and>
     (ag_triage_enabled env \<longrightarrow> (\<forall>a. \<exists>r. triage_alert (ag_triage_env env) (ag_triage env) a = Inr r))"

lemma for_sinks_works:
  "(\<And>s log. \<exists>s' log'. emit s log = (Emitted, s', log')) \<Longrightarrow> \<exists>ss' log'. for_sinks emit ss log = (Emitted, ss', log')"
proof (induction ss arbitrary: log)
  case (Cons s ss)
  from Cons.prems [of s log] obtain s' log1 where "emit s log = (Emitted, s', log1)" by blast
  with Cons.IH [OF Cons.prems, of log1] show ?case by auto
qed simp

lemma healthy_sinks:
  assumes "healthy env"
  shows "\<exists>ss' log'. multi_emit_event (ag_sink env) ss e log = (Emitted, ss', log')"
    "\<exists>ss' log'. multi_emit_alert (ag_sink env) ss a log = (Emitted, ss', log')"
proof -
  have "\<exists>s' log'. emit_event (ag_sink env) s e log = (Emitted, s', log')" for s log
    using assms by (cases s) (auto simp: healthy_def emit_defs split: option.split)
  then show "\<exists>ss' log'. multi_emit_event (ag_sink env) ss e log = (Emitted, ss', log')"
    unfolding multi_emit_event_def by (rule for_sinks_works)
  have "\<exists>s' log'. emit_alert (ag_sink env) s a log = (Emitted, s', log')" for s log
    using assms by (cases s) (auto simp: healthy_def emit_defs split: option.split)
  then show "\<exists>ss' log'. multi_emit_alert (ag_sink env) ss a log = (Emitted, ss', log')"
    unfolding multi_emit_alert_def by (rule for_sinks_works)
qed

lemma healthy_triage: "healthy env \<Longrightarrow> \<exists>a'. triage_step env w a = Inr a'"
proof (cases "ag_triage_enabled env \<and> w")
  case True
  moreover assume "healthy env"
  ultimately obtain r where "triage_alert (ag_triage_env env) (ag_triage env) a = Inr r"
    unfolding healthy_def by blast
  then show ?thesis by (simp add: triage_step_def)
next
  case False
  then have "triage_step env w a = Inr a" unfolding triage_step_def by (rule if_not_P)
  then show ?thesis by blast
qed

lemma healthy_export:
  assumes "healthy env"
  shows "fst (export_alert env a st) = Handled"
  using healthy_sinks(2) [OF assms, of "as_sinks st" a "as_log st"]
  by (auto simp: export_alert_def Let_def)

lemma healthy_alert:
  assumes "healthy env"
  shows "fst (process_alert env a st) = Handled"
proof -
  obtain t where t: "triage_step env (should_triage (ag_rules env) (al_rule_id a)) a = Inr t"
    using healthy_triage [OF assms] by blast
  obtain ok lim where allow: "allow (as_suppressor st) (al_rule_id a) (ee_pid (al_event a)) (al_timestamp_ns a) = (ok, lim)"
    by fastforce
  note unfold = process_alert_def Let_def t sum.case
  show ?thesis
  proof (cases "should_alert (ag_rules env) (al_rule_id a)")
    case True
    then show ?thesis unfolding unfold using healthy_export [OF assms] by (cases ok) (simp_all add: allow)
  next
    case False
    then show ?thesis unfolding unfold using healthy_export [OF assms] by simp
  qed
qed

lemma healthy_alerts: "healthy env \<Longrightarrow> fst (process_alerts env as st) = Handled"
proof (induction "as" arbitrary: st)
  case (Cons a "as")
  with healthy_alert [of env a st] show ?case by (auto split: prod.split)
qed simp

lemma healthy_enriched:
  assumes "healthy env" "enrich (ag_enrich env) (as_enricher st) raw = Some (event, en)"
  shows "fst (process_event env raw st) = Handled"
proof -
  let ?st1 = "st\<lparr>as_enricher := en, as_metrics := inc_event (ee_kind event) (ee_host event) (as_metrics st)\<rparr>"
  obtain ss log where "multi_emit_event (ag_sink env) (as_sinks ?st1) event (as_log ?st1) = (Emitted, ss, log)"
    using healthy_sinks(1) [OF assms(1)] by blast
  then show ?thesis
    using healthy_alerts [OF assms(1)] by (auto simp: process_event_def assms(2) Let_def)
qed

lemma healthy_event:
  assumes "healthy env" "process_event env raw st = (r, st')" "r \<noteq> Hangs"
  obtains event en where "r = Handled" "enrich (ag_enrich env) (as_enricher st) raw = Some (event, en)"
proof -
  obtain event en where e: "enrich (ag_enrich env) (as_enricher st) raw = Some (event, en)"
    using assms(2,3) by (cases "enrich (ag_enrich env) (as_enricher st) raw") (auto simp: process_event_def)
  from healthy_enriched [OF assms(1) e] assms(2) that e show ?thesis by auto
qed

subsection \<open>One event\<close>

text \<open>The alerts counted under the labels of a rule, and those of it that were refused.\<close>

definition raised :: "string \<times> string \<times> string \<Rightarrow> agent_state \<Rightarrow> nat" where
  "raised k st = mt_alerts (as_metrics st) k + mt_suppressed (as_metrics st) (fst k)"

lemma triaged_labels: "alert_labels (triaged env a) = alert_labels a"
proof -
  have "triaged env a = a \<or> (\<exists>t. triaged env a = a\<lparr>al_triage := Some t\<rparr>)"
    by (cases "triage_alert (ag_triage_env env) (ag_triage env) a")
      (auto simp: triaged_def triage_step_def split: sum.split)
  then show ?thesis by (auto simp: alert_labels_def)
qed

text \<open>Every request is answered: what is exported and what is denied are the alerts of the rule.\<close>

lemma exported_or_denied:
  assumes "should_alert (ag_rules env) (fst k)" "\<forall>a \<in> set alerts. al_rule_id a = fst k \<longrightarrow> alert_labels a = k"
    "length answers = length (requests_of env alerts)"
  shows "length (filter ((=) k) (map alert_labels (exported env answers alerts))) +
      length (filter ((=) (fst k)) (denied answers (requests_of env alerts))) =
    length (filter (\<lambda>a. al_rule_id a = fst k) alerts)"
  using assms(2,3)
proof (induction alerts arbitrary: answers)
  case Nil
  then show ?case by (simp add: requests_of_def)
next
  case (Cons a alerts)
  have key: "(k = alert_labels (triaged env a)) = (fst k = al_rule_id a)"
  proof
    show "k = alert_labels (triaged env a) \<Longrightarrow> fst k = al_rule_id a"
      by (simp add: triaged_labels) (simp add: alert_labels_def)
    show "fst k = al_rule_id a \<Longrightarrow> k = alert_labels (triaged env a)"
      using Cons.prems(1) by (simp add: triaged_labels)
  qed
  have sym: "al_rule_id a = fst k \<longleftrightarrow> fst k = al_rule_id a" by (rule eq_commute)
  show ?case
  proof (cases "should_alert (ag_rules env) (al_rule_id a)")
    case True
    with Cons.prems(2) obtain b bs where answers: "answers = b # bs" "length bs = length (requests_of env alerts)"
      by (cases answers) (auto simp: requests_of_def)
    with Cons.IH [of bs] Cons.prems(1) True show ?thesis
      by (cases b; cases "fst k = al_rule_id a") (simp_all add: requests_of_def key sym)
  next
    case False
    with assms(1) have "al_rule_id a \<noteq> fst k" by auto
    with Cons.IH [of answers] Cons.prems False show ?thesis
      by (simp add: requests_of_def key sym)
  qed
qed

lemma evaluate_rule:
  assumes "distinct (map (ru_id \<circ> cr_rule) rules)" "c \<in> set rules" "ru_enabled (cr_rule c)"
  shows "length (filter (\<lambda>a. al_rule_id a = ru_id (cr_rule c)) (evaluate tbl y rx rules event)) =
    (if matches tbl y rx c event then 1 else 0)"
proof -
  have none: "length (filter (\<lambda>a. al_rule_id a = r) (evaluate tbl y rx cs event)) = 0"
    if "r \<notin> (ru_id \<circ> cr_rule) ` set cs" for r cs
    using that by (induction cs) (auto simp: alert_of_def)
  show ?thesis
    using assms
  proof (induction rules)
    case (Cons d rules)
    show ?case
    proof (cases "c = d")
      case True
      with Cons.prems none [of "ru_id (cr_rule c)" rules] show ?thesis by (auto simp: alert_of_def)
    next
      case False
      with Cons.prems have "ru_id (cr_rule d) \<noteq> ru_id (cr_rule c)" "c \<in> set rules"
        by (auto simp: image_iff)
      with Cons show ?thesis by (auto simp: alert_of_def)
    qed
  qed simp
qed

lemma evaluate_labels:
  assumes "distinct (map (ru_id \<circ> cr_rule) rules)" "c \<in> set rules" "a \<in> set (evaluate tbl y rx rules event)"
    "al_rule_id a = ru_id (cr_rule c)"
  shows "alert_labels a = (ru_id (cr_rule c), ru_severity (cr_rule c), ee_host event)"
proof -
  have "\<exists>d \<in> set rules. a = alert_of (cr_rule d) event"
    using assms(3) by (induction tbl y rx rules event rule: evaluate.induct) (auto split: if_splits)
  then obtain d where d: "d \<in> set rules" "a = alert_of (cr_rule d) event" by blast
  then have "ru_id (cr_rule d) = ru_id (cr_rule c)" using assms(4) by (simp add: alert_of_def)
  then have "d = c" using assms(1,2) d(1) by (auto simp: distinct_map inj_on_def)
  with d(2) show ?thesis by (simp add: alert_labels_def alert_of_def)
qed

text \<open>A rule of its own id that is enabled and asks for alerting.\<close>

definition alerting :: "('v, 're) agent_env \<Rightarrow> ('v, 're) compiled_rule \<Rightarrow> bool" where
  "alerting env c \<longleftrightarrow>
     c \<in> set (ag_rules env) \<and> distinct (map (ru_id \<circ> cr_rule) (ag_rules env)) \<and>
     ru_enabled (cr_rule c) \<and> should_alert (ag_rules env) (ru_id (cr_rule c))"

abbreviation rule_matches :: "('v, 're) agent_env \<Rightarrow> ('v, 're) compiled_rule \<Rightarrow> enriched_event \<Rightarrow> bool" where
  "rule_matches env \<equiv> matches (ag_lower env) (ag_yaml env) (ag_regex env)"

lemma event_accounted:
  assumes "process_event env raw st = (Handled, st')" "alerting env c"
    "enrich (ag_enrich env) (as_enricher st) raw = Some (event, en)"
    "k = (ru_id (cr_rule c), ru_severity (cr_rule c), ee_host event)"
  shows "raised k st' = raised k st + (if rule_matches env c event then 1 else 0)" "as_enricher st' = en"
proof -
  let ?alerts = "evaluate (ag_lower env) (ag_yaml env) (ag_regex env) (ag_rules env) event"
  obtain answers lim where run: "run allow_step (as_suppressor st) (requests_of env ?alerts) = (answers, lim)"
    by fastforce
  note h = handled_event [OF assms(1,3) refl run]
  show "as_enricher st' = en" using h by blast
  have c: "distinct (map (ru_id \<circ> cr_rule) (ag_rules env))" "c \<in> set (ag_rules env)" "ru_enabled (cr_rule c)"
    "should_alert (ag_rules env) (fst k)"
    using assms(2,4) by (simp_all add: alerting_def)
  have "\<forall>a \<in> set ?alerts. al_rule_id a = fst k \<longrightarrow> alert_labels a = k"
    using evaluate_labels [OF c(1,2)] by (simp add: assms(4))
  moreover have "length answers = length (requests_of env ?alerts)"
    using length_run [of allow_step "as_suppressor st" "requests_of env ?alerts"] by (simp add: run)
  ultimately have "length (filter ((=) k) (map alert_labels (exported env answers ?alerts))) +
      length (filter ((=) (fst k)) (denied answers (requests_of env ?alerts))) =
    length (filter (\<lambda>a. al_rule_id a = fst k) ?alerts)"
    using c(4) by (intro exported_or_denied)
  moreover have "length (filter (\<lambda>a. al_rule_id a = fst k) ?alerts) = (if rule_matches env c event then 1 else 0)"
    using evaluate_rule [OF c(1-3)] by (simp add: assms(4))
  ultimately show "raised k st' = raised k st + (if rule_matches env c event then 1 else 0)"
    using h unfolding raised_def by (cases k) simp
qed

subsection \<open>The loop\<close>

text \<open>The enriched events of a list of events, the process table going along.\<close>

fun enriched_run :: "enrich_env \<Rightarrow> enricher \<Rightarrow> sentinel_event list \<Rightarrow> enriched_event list" where
  "enriched_run env en [] = []"
| "enriched_run env en (raw # raws) =
     (case enrich env en raw of
        Some (event, en') \<Rightarrow> event # enriched_run env en' raws
      | None \<Rightarrow> [])"

lemma loop_accounted:
  assumes "event_loop env raws st = (r, st')" "r \<noteq> Hangs" "healthy env" "alerting env c"
    "k = (ru_id (cr_rule c), ru_severity (cr_rule c), en_host (as_enricher st))"
  shows "r = Handled \<and> raised k st' =
    raised k st + length (filter (rule_matches env c) (enriched_run (ag_enrich env) (as_enricher st) raws))"
  using assms(1,5)
proof (induction raws arbitrary: st)
  case (Cons raw raws)
  obtain q st1 where one: "process_event env raw st = (q, st1)" by fastforce
  with Cons.prems(1) assms(2) have "q \<noteq> Hangs" by (cases q) auto
  with healthy_event [OF assms(3) one] obtain event en where
    q: "q = Handled" and e: "enrich (ag_enrich env) (as_enricher st) raw = Some (event, en)" by blast
  have host: "ee_host event = en_host (as_enricher st)" "en_host en = en_host (as_enricher st)"
    using enrich_labels [OF e] by simp_all
  note acc = event_accounted [OF one [unfolded q] assms(4) e, of k]
  have "event_loop env raws st1 = (r, st')" using Cons.prems(1) one q by simp
  from Cons.IH [OF this] Cons.prems(2) acc host show ?case by (simp add: e)
qed simp

lemma idle_like_loop:
  assumes "gaps pad" "sound_labels ls" "sys_run pad env (boot scratch sd) ls = Some s" "idle env s"
    "en_k8s (as_enricher (sd_state sd)) = None"
  shows "\<exists>st'. event_loop env (accepted (rg_log (ring_of s))) (sd_state sd) = (Handled, st') \<and>
    with_errors 0 (dm_agent (sy_daemon s)) = with_errors 0 st'"
proof -
  from boot_projects [OF assms(1-3)] obtain dls where
    run: "daemon_run env (start_daemon (sd_state sd)) dls (sy_daemon s)" and
    dls: "received dls = sys_received ls" "parsed (written dls) = accepted (rg_log (ring_of s))" by blast
  from pipeline_fifo [OF run] idle_empty [OF assms(4)] dls(2)
  have rec: "received dls = accepted (rg_log (ring_of s))" by simp
  have loop: "dm_loop (sy_daemon s) = Looping" using assms(4) by (simp add: idle_def)
  with not_interrupted [OF run] have "Ctrl_C \<notin> set dls" by simp
  from like_loop_run [OF run assms(5) this] obtain r st' where
    r: "event_loop env (received dls) (sd_state sd) = (r, st')" "dm_loop (sy_daemon s) = after_event r"
      "with_errors 0 (dm_agent (sy_daemon s)) = with_errors 0 st'"
    unfolding like_loop_def by blast
  have "r = Handled"
    using r(2) loop event_loop_ending [OF r(1)] by (cases r) (simp_all add: after_event_def)
  with r rec show ?thesis by simp
qed

text \<open>The counters do not depend on the one of parse errors.\<close>

lemma raised_errors: "with_errors 0 st = with_errors 0 st' \<Longrightarrow> raised k st = raised k st'"
proof -
  have "raised k st = raised k (with_errors 0 st)" for st
    by (simp add: raised_def with_errors_def)
  then show "with_errors 0 st = with_errors 0 st' \<Longrightarrow> raised k st = raised k st'" by metis
qed

text \<open>C7: No match is lost: in a system that is idle, whose agent has no container cache and whose sinks
  and triage refuse nothing, take a rule that is enabled, asks for alerting and shares its id with no
  other rule. Every event of the probes that did not find the ring buffer full and that matches the
  rule, once enriched, has been counted, once, as an alert of the rule or as suppressed under its id,
  and nothing else has.\<close>

theorem matches_accounted:
  assumes "gaps pad" "sound_labels ls" "sys_run pad env (boot scratch sd) ls = Some s" "idle env s"
    "en_k8s (as_enricher (sd_state sd)) = None" "healthy env" "alerting env c"
    "rid = ru_id (cr_rule c)" "k = (rid, ru_severity (cr_rule c), en_host (as_enricher (sd_state sd)))"
  shows "map fst (rg_log (ring_of s)) = sys_emitted pad env (boot scratch sd) ls \<and>
    mt_alerts (as_metrics (dm_agent (sy_daemon s))) k + mt_suppressed (as_metrics (dm_agent (sy_daemon s))) rid =
      mt_alerts (as_metrics (sd_state sd)) k + mt_suppressed (as_metrics (sd_state sd)) rid +
      length (filter (rule_matches env c) (enriched_run (ag_enrich env) (as_enricher (sd_state sd))
        (map fst (filter (\<lambda>(_, n). n < 1213) (rg_log (ring_of s))))))"
proof -
  from idle_like_loop [OF assms(1-5)] obtain st' where
    loop: "event_loop env (accepted (rg_log (ring_of s))) (sd_state sd) = (Handled, st')"
    and same: "with_errors 0 (dm_agent (sy_daemon s)) = with_errors 0 st'" by blast
  from loop_accounted [OF loop _ assms(6,7)] assms(8,9) raised_errors [OF same]
  have "raised k (dm_agent (sy_daemon s)) = raised k (sd_state sd) +
      length (filter (rule_matches env c)
        (enriched_run (ag_enrich env) (as_enricher (sd_state sd)) (accepted (rg_log (ring_of s)))))"
    by simp
  with idle_caught_up [OF assms(1-4)] assms(8,9) show ?thesis
    by (simp add: raised_def accepted_eq)
qed

text \<open>The agent with a rule on forks, to which the probes report one.\<close>

definition fork_rule :: "(yval, string) compiled_rule" where
  "fork_rule =
     \<lparr>cr_rule = sample_rule ''f'' (CG_Single \<lparr>cd_field = ''kind'', cd_op = Eq, cd_value = Y_Str ''processfork''\<rparr>) [],
      cr_regexes = Map.empty\<rparr>"

definition watch_env :: "(yval, string) agent_env" where
  "watch_env = (sample_env open_env)\<lparr>ag_rules := [fork_rule]\<rparr>"

lemma watch_env_simps [simp]:
  "ag_enrich watch_env = quiet_enrich_env" "ag_rules watch_env = [fork_rule]"
  "ag_sink watch_env = open_env" "\<not> ag_triage_enabled watch_env"
  by (simp_all add: watch_env_def sample_env_def)

lemma watch_healthy: "healthy watch_env" "alerting watch_env fork_rule"
  by (simp_all add: healthy_def open_env_def alerting_def should_alert_def find_rule_def fork_rule_def
      sample_rule_def default_true_def)

lemma watch_handled: "\<exists>st. process_event watch_env fork_event sample_state = (Handled, st)"
proof -
  obtain event en where "enrich (ag_enrich watch_env) (as_enricher sample_state) fork_event = Some (event, en)"
    using fork_enriched [of "as_enricher sample_state"] by (auto simp: sample_state_def)
  from healthy_enriched [OF watch_healthy(1) this] show ?thesis
    by (cases "process_event watch_env fork_event sample_state") simp
qed

theorem matches_accounted_witness:
  "\<exists>s. sys_run zero_gaps watch_env sample_boot fork_trace = Some s \<and>
     mt_alerts (as_metrics (dm_agent (sy_daemon s))) (''f'', ''medium'', ''h'') +
     mt_suppressed (as_metrics (dm_agent (sy_daemon s))) ''f'' = 1"
proof -
  obtain st where "process_event watch_env fork_event sample_state = (Handled, st)" using watch_handled by blast
  moreover have "sd_tree sample_started = []" "sd_state sample_started = sample_state"
    by (simp_all add: sample_started_def)
  ultimately obtain s where
    s: "sys_run zero_gaps watch_env sample_boot fork_trace = Some s" "idle watch_env s"
      "rg_log (ring_of s) = [(fork_event, 0)]" using fork_run_in [of sample_started watch_env] by auto
  obtain event en where e: "enrich quiet_enrich_env (as_enricher sample_state) fork_event = Some (event, en)"
    using fork_enriched [of "as_enricher sample_state"] by (auto simp: sample_state_def)
  then have "ee_kind event = ''processfork''" using enrich_labels [OF e] by (simp add: fork_kind)
  moreover have "eq_ignore_ascii_case (to_lowercase id ''processfork'') ''processfork''" by code_simp
  ultimately have hit: "rule_matches watch_env fork_rule event"
    by (simp add: watch_env_def sample_env_def fork_rule_def sample_rule_def matches_def match_condition_def
        values_equal_def yval_api_def field_def)
  have labels: "ru_id (cr_rule fork_rule) = ''f''" "ru_severity (cr_rule fork_rule) = ''medium''"
    by (simp_all add: fork_rule_def sample_rule_def default_severity_def)
  have k8s: "en_k8s (as_enricher (sd_state sample_started)) = None"
    by (simp add: sample_started_def sample_state_def)
  from matches_accounted [OF fork_sound(1,2) s(1,2) k8s watch_healthy refl refl] e hit s(1) show ?thesis
    by (simp add: s(3) labels fork_started new_metrics_def) (simp add: sample_started_def)
qed

end
