(* ===== verification/Running.thy ===== *)
theory Running
  imports System
begin

text \<open>
  What bounds the memory of the running monitor. However long it runs and whatever it observes, its
  buffers and tables stay within the sizes that the code gives them: the ring buffer, the channel,
  the kernel's process tree, the daemon's process table and the queues of the rate limiter.
\<close>

subsection \<open>The kernel's tables\<close>

lemma length_update: "length (AList.update p n t) = (if map_of t p = None then Suc (length t) else length t)"
  by (induction t) auto

lemma tree_insert_bounded: "length t \<le> MAX_TREE \<Longrightarrow> length (tree_insert t p n) \<le> MAX_TREE"
  by (simp add: tree_insert_def length_update)

lemma seed_bounded:
  "seed_tree_entries tree_insert entries t = Inr (ok, t') \<Longrightarrow> length t \<le> MAX_TREE \<Longrightarrow> length t' \<le> MAX_TREE"
proof (induction entries arbitrary: t)
  case (Cons entry entries)
  then show ?case
    by (cases entry) (auto simp: bind_sum_Inr_iff Let_def tree_insert_bounded split: option.splits)
qed simp

lemma probe_tree_bounded:
  "mo_insert ops = tree_insert \<Longrightarrow> length (bs_tree s) \<le> MAX_TREE \<Longrightarrow>
   length (bs_tree (snd (probe ops prog k s))) \<le> MAX_TREE"
  by (cases prog) (auto simp: probe_defs tree_insert_bounded split: option.split prod.split)

lemma puts_bounded:
  "length (rg_items r) \<le> 1213 \<Longrightarrow> length (rg_items (foldl (ring_put pad) r es)) \<le> 1213"
proof (induction es arbitrary: r)
  case (Cons e es)
  have "length (rg_items (ring_put pad r e)) \<le> 1213"
    using Cons.prems by (simp add: ring_put_def Let_def fits_iff split: prod.split)
  with Cons.IH show ?case by simp
qed simp

subsection \<open>The agent\<close>

text \<open>The daemon's process table and the queues of its rate limiter, whose limits do not change.\<close>

definition agent_bounded :: "(string \<Rightarrow> rate_limit) \<Rightarrow> agent_state \<Rightarrow> bool" where
  "agent_bounded lim st \<longleftrightarrow>
     card (dom (en_processes (as_enricher st))) \<le> MAX_PROCESSES \<and>
     limit_of (as_suppressor st) = lim \<and> buckets_bounded (as_suppressor st)"

lemma agent_bounded_cong:
  "en_processes (as_enricher st') = en_processes (as_enricher st) \<Longrightarrow> as_suppressor st' = as_suppressor st \<Longrightarrow>
   agent_bounded lim st' = agent_bounded lim st"
  by (simp add: agent_bounded_def)

lemma bounded_allow:
  "agent_bounded lim st \<Longrightarrow> agent_bounded lim (st\<lparr>as_suppressor := snd (allow (as_suppressor st) r p t)\<rparr>)"
  by (simp add: agent_bounded_def allow_bounded)

lemma export_alert_same:
  "as_suppressor (snd (export_alert env a st)) = as_suppressor st"
  "as_enricher (snd (export_alert env a st)) = as_enricher st"
  by (simp_all add: export_alert_def Let_def split: prod.split)

lemma bounded_alert:
  assumes "agent_bounded lim st"
  shows "agent_bounded lim (snd (process_alert env a st))"
proof -
  have export: "agent_bounded lim (snd (export_alert env b st1)) = agent_bounded lim st1" for b st1
    by (rule agent_bounded_cong) (simp_all add: export_alert_same)
  have st: "st\<lparr>as_suppressor := as_suppressor st\<rparr> = st" by simp
  have counted: "agent_bounded lim (st1\<lparr>as_metrics := m\<rparr>) = agent_bounded lim st1" for st1 m
    by (rule agent_bounded_cong) simp_all
  obtain ok s where allow: "allow (as_suppressor st) (al_rule_id a) (ee_pid (al_event a)) (al_timestamp_ns a) = (ok, s)"
    by fastforce
  have "agent_bounded lim (st\<lparr>as_suppressor := s\<rparr>)"
    using bounded_allow [OF assms, of "al_rule_id a" "ee_pid (al_event a)" "al_timestamp_ns a"] by (simp add: allow)
  then show ?thesis
    using assms
    by (simp add: process_alert_def Let_def allow st export counted split: sum.split)
qed

lemma bounded_alerts: "agent_bounded lim st \<Longrightarrow> agent_bounded lim (snd (process_alerts env as st))"
proof (induction "as" arbitrary: st)
  case (Cons a "as")
  with bounded_alert [of lim st env a] show ?case by (auto split: prod.splits ending.splits)
qed simp

lemma bounded_event:
  assumes "agent_bounded lim st"
  shows "agent_bounded lim (snd (process_event env raw st))"
proof (cases "enrich (ag_enrich env) (as_enricher st) raw")
  case None
  with assms show ?thesis by (simp add: process_event_def)
next
  case (Some p)
  then obtain event en where e: "enrich (ag_enrich env) (as_enricher st) raw = Some (event, en)" by (cases p) simp
  then have "card (dom (en_processes en)) \<le> MAX_PROCESSES"
    using update_tree_bounded by (auto simp: enrich_def Let_def split: option.splits)
  with assms have "agent_bounded lim (st\<lparr>as_enricher := en, as_metrics := m, as_sinks := ss, as_log := log\<rparr>)"
    "agent_bounded lim (st\<lparr>as_enricher := en, as_metrics := m\<rparr>)" for m ss log
    by (simp_all add: agent_bounded_def)
  then show ?thesis
    by (auto simp: process_event_def e Let_def intro!: bounded_alerts split: prod.split emission.split)
qed

subsection \<open>The system\<close>

definition daemon_bounded :: "(string \<Rightarrow> rate_limit) \<Rightarrow> daemon \<Rightarrow> bool" where
  "daemon_bounded lim d \<longleftrightarrow>
     length (dm_ring d) \<le> 1213 \<and> length (dm_chan d) \<le> CHANNEL \<and> agent_bounded lim (dm_agent d)"

lemma daemon_bounded_step:
  assumes "daemon_bounded lim d" "step env d l d'" "\<forall>item. l \<noteq> Kernel item"
  shows "daemon_bounded lim d'"
proof (cases "\<exists>e. l = Recv e")
  case True
  then obtain e where l: "l = Recv e" by blast
  from assms(2) obtain rest r st where "dm_chan d = e # rest" "process_event env e (dm_agent d) = (r, st)"
    "dm_ring d' = dm_ring d" "dm_chan d' = rest" "dm_agent d' = st" by (auto simp: l)
  with assms(1) bounded_event [of lim "dm_agent d" env e] show ?thesis by (simp add: daemon_bounded_def)
next
  case False
  have "agent_bounded lim (dm_agent d')"
    using assms False agent_bounded_cong
    by (cases l) (auto simp: daemon_bounded_def count_parse_error_def set_cache_def agent_bounded_def)
  moreover have "length (dm_ring d') \<le> length (dm_ring d)"
    using assms(2,3) False by (cases l) auto
  ultimately show ?thesis
    using assms(1) chan_step [OF assms(2)] by (simp add: daemon_bounded_def)
qed

definition system_bounded :: "(string \<Rightarrow> rate_limit) \<Rightarrow> system \<Rightarrow> bool" where
  "system_bounded lim s \<longleftrightarrow>
     length (rg_items (ring_of s)) \<le> 1213 \<and> length (bs_tree (sy_bpf s)) \<le> MAX_TREE \<and> daemon_bounded lim (sy_daemon s)"

lemma system_bounded_step:
  assumes "system_bounded lim s" "sys_step pad env s l = Some s'"
  shows "system_bounded lim s'"
proof (cases l)
  case (Probe prog k)
  let ?b = "snd (probe (sys_ops pad) prog k (sy_bpf s))"
  have items: "length (rg_items (bs_events ?b)) \<le> 1213"
    using assms(1) puts_bounded [of "bs_events (sy_bpf s)"] probe_emits [of "sys_ops pad" prog k "sy_bpf s"]
    by (simp add: system_bounded_def ring_of_def sys_ops_def del: probe.simps)
  moreover have "length (bs_tree ?b) \<le> MAX_TREE"
    using assms(1) by (intro probe_tree_bounded) (simp_all add: system_bounded_def)
  moreover have "s' = \<lparr>sy_bpf = ?b, sy_daemon = (sy_daemon s)\<lparr>dm_ring := rg_items (bs_events ?b)\<rparr>\<rparr>"
    using assms(2) by (simp add: Probe Let_def del: probe.simps)
  ultimately show ?thesis
    using assms(1) by (simp add: system_bounded_def daemon_bounded_def ring_of_def del: probe.simps)
next
  case (Agent a)
  from sys_step_Agent [OF assms(2) [unfolded Agent]] have
    a: "\<forall>item. a \<noteq> Kernel item" "step env (sy_daemon s) a (sy_daemon s')"
      "sy_bpf s' = set_items (dm_ring (sy_daemon s')) (sy_bpf s)" by (auto simp: step_exec)
  have "daemon_bounded lim (sy_daemon s')"
    using assms(1) by (intro daemon_bounded_step [OF _ a(2,1)]) (simp add: system_bounded_def)
  with assms(1) a(3) show ?thesis
    by (simp add: system_bounded_def ring_of_def set_items_def daemon_bounded_def)
qed

lemma system_bounded_run:
  "sys_run pad env s ls = Some s' \<Longrightarrow> system_bounded lim s \<Longrightarrow> system_bounded lim s'"
proof (induction ls arbitrary: s)
  case (Cons l ls)
  then obtain s1 where "sys_step pad env s l = Some s1" "sys_run pad env s1 ls = Some s'"
    by (auto simp: bind_eq_Some_conv)
  with Cons system_bounded_step [of lim s pad env l s1] show ?case by simp
qed simp

lemma started_system_bounded:
  assumes "start_agent h opt w = (Inr sd, w')" "card (dom (en_processes (as_enricher (sd_state sd)))) \<le> MAX_PROCESSES"
  shows "system_bounded (limit_of (new_suppressor (cfg_suppression (sd_config sd)))) (boot scratch sd)"
proof -
  note steps = start_agentD [OF assms(1), unfolded start_steps_def]
  then have "seed_process_tree tree_insert True (ho_proc_loader h) [] = Inr (True, sd_tree sd)" by simp
  then have "length (sd_tree sd) \<le> MAX_TREE"
    using seed_bounded [of _ "[]"] by (auto simp: seed_process_tree_def split: option.splits)
  with steps assms(2) show ?thesis
    by (simp add: system_bounded_def boot_def ring_of_def daemon_bounded_def start_daemon_def agent_bounded_def
        new_suppressor_bounded)
qed

text \<open>C8: The memory of a started agent is bounded, whatever the probes observe, however their runs and the
  steps of the daemon interleave and for however long: at most 1213 records wait in the ring
  buffer and 4096 events in the channel, the kernel's tree holds at most 8192 processes and the
  daemon's table 32768, if it is not seeded with more, and for every rule and process the
  rate limiter remembers at most as many alerts as the configured limit of the rule.\<close>

theorem memory_bounded:
  assumes "start_agent h opt w = (Inr sd, w')" "sys_run pad env (boot scratch sd) ls = Some s"
    "card (dom (en_processes (as_enricher (sd_state sd)))) \<le> 32768"
    "supp = cfg_suppression (sd_config sd)"
  shows "length (rg_items (ring_of s)) \<le> 1213 \<and> length (dm_chan (sy_daemon s)) \<le> 4096 \<and>
    length (bs_tree (sy_bpf s)) \<le> 8192 \<and>
    card (dom (en_processes (as_enricher (dm_agent (sy_daemon s))))) \<le> 32768 \<and>
    length (bucket_of (as_suppressor (dm_agent (sy_daemon s))) (rid, pid)) \<le>
      unat (rl_max_alerts (rate_limit_from (case sup_rules supp rid of Some l \<Rightarrow> l | None \<Rightarrow> sup_default supp)))"
proof -
  from started_system_bounded [OF assms(1)] assms(3)
  have "system_bounded (limit_of (new_suppressor supp)) (boot scratch sd)" by (simp add: MAX_PROCESSES_def assms(4))
  note bounded = system_bounded_run [OF assms(2) this]
  let ?sup = "as_suppressor (dm_agent (sy_daemon s))"
  have "limit_of ?sup = limit_of (new_suppressor supp)" "buckets_bounded ?sup"
    using bounded by (simp_all add: system_bounded_def daemon_bounded_def agent_bounded_def)
  then have "length (bucket_of ?sup (rid, pid)) \<le> unat (rl_max_alerts (limit_of (new_suppressor supp) rid))"
    by (simp only: buckets_bounded_def)
  with bounded show ?thesis
    by (simp add: system_bounded_def daemon_bounded_def agent_bounded_def limit_of_new
        CHANNEL_def MAX_TREE_def MAX_PROCESSES_def)
qed

text \<open>A started agent that sees a fork and does nothing about it.\<close>

theorem memory_bounded_witness:
  "\<exists>sd w' s. start_agent sample_host sample_options {''rules''} = (Inr sd, w') \<and>
     sys_run zero_gaps still_env (fork_boot sd) [Probe Sched_Process_Fork fork_kctx] = Some s \<and>
     length (bs_tree (sy_bpf s)) \<le> 8192"
proof -
  obtain sd w' where sd: "start_agent sample_host sample_options {''rules''} = (Inr sd, w')"
    and procs: "en_processes (as_enricher (sd_state sd)) = [42 \<mapsto> \<lparr>pi_ppid = 0, pi_comm = ''sh''\<rparr>]"
    using sample_start by blast
  obtain s where s: "sys_run zero_gaps still_env (fork_boot sd) [Probe Sched_Process_Fork fork_kctx] = Some s"
    by (simp add: Let_def del: probe.simps)
  have "card (dom (en_processes (as_enricher (sd_state sd)))) \<le> 32768" by (simp add: procs)
  from memory_bounded [OF sd s this refl] sd s show ?thesis by blast
qed

end
