(* ===== verification/Host.thy ===== *)
theory Host
  imports Loader "HOL-Library.Sublist"
begin

text \<open>
  What \<open>loader.rs\<close> asks the host besides loading and filling tables: its own reading of \<open>stat\<close> files,
  the line about the kernel it logs, and the limit on locked memory.
\<close>

text \<open>
  The loader's \<open>parse_ppid\<close>, with its early returns as they stand. The enricher has one of its own
  (\<open>Procfs\<close>); the two read every file alike, and panic alike.
\<close>

definition loader_parse_ppid :: "string option \<Rightarrow> u32 option outcome" where
  "loader_parse_ppid stat_file =
     (case Option.bind stat_file (\<lambda>stat. map_option (Pair stat) (rfind_char (CHR '')'') stat)) of
        None \<Rightarrow> Inr None
      | Some (stat, rparen) \<Rightarrow>
          bind_sum (slice_from stat (rparen + 2)) (\<lambda>s.
            case split_whitespace s of
              _ # ppid # _ \<Rightarrow> Inr (parse_u32 ppid)
            | _ \<Rightarrow> Inr None))"

lemma second_field:
  "(case fs of _ # x # _ \<Rightarrow> Inr (f x) | _ \<Rightarrow> Inr None) = Inr (if 1 < length fs then f (fs ! 1) else None)"
  by (cases fs rule: list.exhaust [case_product list.exhaust]) (auto split: list.split)

lemma loader_parse_ppid_same: "loader_parse_ppid = parse_ppid"
proof
  show "loader_parse_ppid f = parse_ppid f" for f
  proof (cases f)
    case (Some stat)
    then show ?thesis
      by (cases "rfind_char (CHR '')'') stat")
        (simp_all only: loader_parse_ppid_def parse_ppid_def second_field Let_def option.simps bind.simps
          prod.case option.map)
  qed (simp add: loader_parse_ppid_def parse_ppid_def)
qed

text \<open>The log line about the kernel; the release is trimmed, and unknown if it cannot be read.\<close>

definition BTF_VMLINUX :: string where "BTF_VMLINUX = ''/sys/kernel/btf/vmlinux''"

definition kernel_info :: "string option \<Rightarrow> string \<Rightarrow> string" where
  "kernel_info osrelease arch =
     ''kernel '' @ (case osrelease of Some s \<Rightarrow> trim s | None \<Rightarrow> ''unknown'') @ '' ('' @ arch @
     ''), BTF available at '' @ BTF_VMLINUX"

text \<open>
  \<open>raise_memlock_limit\<close>: both limits are lifted in one call; a refusal is logged and nothing else.
  The call and the two constants are the C library's
  (its answer is a 32-bit integer, of which only whether it is zero matters).
\<close>

record 'l rlimit =
  rlim_cur :: 'l
  rlim_max :: 'l

definition raise_memlock_limit :: "(nat \<Rightarrow> 'l rlimit \<Rightarrow> u32) \<Rightarrow> (u32 \<Rightarrow> string) \<Rightarrow> nat \<Rightarrow> 'l \<Rightarrow> string option" where
  "raise_memlock_limit setrlimit show_ret RLIMIT_MEMLOCK RLIM_INFINITY =
     (let ret = setrlimit RLIMIT_MEMLOCK \<lparr>rlim_cur = RLIM_INFINITY, rlim_max = RLIM_INFINITY\<rparr>
      in if ret \<noteq> 0 then Some (''could not raise memlock rlimit: '' @ show_ret ret) else None)"

text \<open>The test of \<open>loader.rs\<close>, which holds: the path of the kernel's BTF names \<open>vmlinux\<close>.\<close>

definition btf_path_constant :: bool where
  "btf_path_constant \<longleftrightarrow> sublist ''vmlinux'' BTF_VMLINUX"

lemma btf_path_constant_holds: btf_path_constant
proof -
  have "BTF_VMLINUX = ''/sys/kernel/btf/'' @ ''vmlinux'' @ []" by (simp add: BTF_VMLINUX_def)
  then show ?thesis unfolding btf_path_constant_def sublist_def by blast
qed

end
