(* ===== verification/Endpoints.thy ===== *)
theory Endpoints
  imports Metrics Sinks
begin

text \<open>
  The two servers of the repository: the Prometheus endpoint of \<open>metrics.rs\<close>, with a client that
  reads its answers by the framing of HTTP as the specification, and the example ingest server
  \<open>bin/grpc-ingest.rs\<close>, which prints what it receives from a gRPC sink.
\<close>

subsection \<open>The metrics endpoint\<close>

abbreviation CR :: char where "CR \<equiv> CHR 0x0D"
abbreviation LF :: char where "LF \<equiv> CHR 0x0A"

definition http_header :: "nat \<Rightarrow> string" where
  "http_header len =
     ''HTTP/1.1 200 OK'' @ [CR, LF] @
     ''Content-Type: text/plain; version=0.0.4; charset=utf-8'' @ [CR, LF] @
     ''Content-Length: '' @ show_nat len @ [CR, LF] @
     ''Connection: close'' @ [CR, LF, CR, LF]"

text \<open>
  A connection takes some number of bytes of what is written to it, given what it has taken
  already; \<open>write_all\<close> writes until the bytes are exhausted or the connection fails.
\<close>

type_synonym socket = "string \<Rightarrow> string \<Rightarrow> nat"

definition write_all :: "socket \<Rightarrow> string \<Rightarrow> string \<Rightarrow> string" where
  "write_all sock taken s = taken @ take (sock taken s) s"

text \<open>One connection of \<open>serve_metrics\<close>: the request is not looked at, the results of both writes
  are ignored, and counters that cannot be encoded give an empty body. \<open>TextEncoder\<close> is a parameter.\<close>

definition serve_connection :: "(metrics \<Rightarrow> string option) \<Rightarrow> socket \<Rightarrow> metrics \<Rightarrow> string" where
  "serve_connection text_encoder sock m =
     (let encoded = (case text_encoder m of Some e \<Rightarrow> e | None \<Rightarrow> []);
          header = http_header (length encoded)
      in write_all sock (write_all sock [] header) encoded)"

text \<open>A client: the head ends at the first empty line, the body has the announced length.\<close>

fun split_head :: "string \<Rightarrow> (string \<times> string) option" where
  "split_head [] = None"
| "split_head (c # s) =
     (if prefix [CR, LF, CR, LF] (c # s) then Some ([], drop 3 s)
      else map_option (\<lambda>(h, r). (c # h, r)) (split_head s))"

fun content_length :: "string list \<Rightarrow> nat option" where
  "content_length [] = None"
| "content_length (l # ls) =
     (case strip_prefix ''Content-Length: '' l of
        Some n \<Rightarrow> if n = [] then None else digits_val 0 n
      | None \<Rightarrow> content_length ls)"

definition read_response :: "string \<Rightarrow> string option" where
  "read_response s =
     (case split_head s of
        None \<Rightarrow> None
      | Some (head, rest) \<Rightarrow>
          (case content_length (lines head) of
             None \<Rightarrow> None
           | Some n \<Rightarrow> if n \<le> length rest then Some (take n rest) else None))"

lemma split_head_text:
  "CR \<notin> set a \<Longrightarrow> split_head (a @ s) = map_option (\<lambda>(h, r). (a @ h, r)) (split_head s)"
  by (induction a) (auto simp: option.map_comp comp_def case_prod_unfold prefix_Cons option.map_ident)

lemma show_nat_no_break: "CR \<notin> set (show_nat n)" "LF \<notin> set (show_nat n)"
  using show_nat_digits [of CR n] show_nat_digits [of LF n] by auto

definition header_fields :: "nat \<Rightarrow> string" where
  "header_fields len =
     ''HTTP/1.1 200 OK'' @ [CR, LF] @
     ''Content-Type: text/plain; version=0.0.4; charset=utf-8'' @ [CR, LF] @
     ''Content-Length: '' @ show_nat len @ [CR, LF] @ ''Connection: close''"

lemma split_http_header: "split_head (http_header len @ s) = Some (header_fields len, s)"
  by (simp add: http_header_def header_fields_def split_head_text [OF show_nat_no_break(1)])

lemma lines_break: "LF \<notin> set l \<Longrightarrow> lines (l @ CR # LF # s) = l # lines s"
  using split_on_append [of LF "l @ [CR]" s] by (simp add: lines_def strip_cr_def Let_def)

lemma header_length: "content_length (lines (header_fields len)) = Some len"
proof -
  have "lines (header_fields len) =
      lines (''HTTP/1.1 200 OK'' @ CR # LF # ''Content-Type: text/plain; version=0.0.4; charset=utf-8'' @ CR # LF #
        (''Content-Length: '' @ show_nat len) @ CR # LF # ''Connection: close'')"
    by (simp add: header_fields_def)
  also have "\<dots> = [''HTTP/1.1 200 OK'', ''Content-Type: text/plain; version=0.0.4; charset=utf-8'',
      ''Content-Length: '' @ show_nat len] @ lines ''Connection: close''"
    by (subst lines_break, simp add: show_nat_no_break)+ simp
  finally show ?thesis by (simp add: strip_prefix_def digits_val_show_nat)
qed

text \<open>A client of the metrics endpoint that reads the answer by its framing gets exactly the text of
  the counters: the announced length is the length of the body, also for counters that cannot be
  encoded (an empty body) and whatever the text holds. If the connection fails in the body, the
  client notices: it never takes a part for the whole.\<close>

theorem metrics_response_framed:
  assumes "encoded = (case text_encoder m of Some e \<Rightarrow> e | None \<Rightarrow> [])"
    "length (http_header (length encoded)) \<le> sock [] (http_header (length encoded))"
  shows "read_response (serve_connection text_encoder sock m) =
    (if length encoded \<le> sock (http_header (length encoded)) encoded then Some encoded else None)"
  using assms
  by (simp add: serve_connection_def write_all_def read_response_def split_http_header header_length Let_def)

text \<open>A connection that takes everything, and a body that looks like the end of a header.\<close>

theorem metrics_response_framed_witness:
  "read_response (serve_connection (\<lambda>m. Some (show_nat (mt_parse_errors m) @ [CR, LF, CR, LF])) (\<lambda>_ s. length s)
     (inc_ring_parse_error new_metrics)) = Some (''1'' @ [CR, LF, CR, LF])"
proof -
  have "show_nat 1 = ''1''" by code_simp
  then show ?thesis
    by (subst metrics_response_framed [OF refl])
      (simp_all add: inc_ring_parse_error_def new_metrics_def)
qed

subsection \<open>The metrics server\<close>

text \<open>
  The server answers the connections it accepts, each in a task of its own; here a connection comes
  with the counters at the time of its answer. A connection that cannot be accepted (\<open>None\<close>) is an
  error of the whole server. The answers, and whether the server still runs:
\<close>

fun accept_loop :: "(metrics \<Rightarrow> string option) \<Rightarrow> (socket \<times> metrics) option list \<Rightarrow> string list \<times> bool" where
  "accept_loop enc [] = ([], True)"
| "accept_loop enc (None # _) = ([], False)"
| "accept_loop enc (Some (sock, m) # rest) = apfst (Cons (serve_connection enc sock m)) (accept_loop enc rest)"

definition serve_metrics ::
  "(string \<Rightarrow> bool) \<Rightarrow> (metrics \<Rightarrow> string option) \<Rightarrow> string \<Rightarrow> (socket \<times> metrics) option list \<Rightarrow> string list \<times> bool" where
  "serve_metrics bind_ok enc listen accepts =
     (if bind_ok listen then accept_loop enc accepts else ([], False))"

text \<open>
  The server lives until the first connection that it fails to accept: those before it are answered,
  those after it never are, although the agent runs on.
\<close>

lemma serve_metrics_lives:
  assumes "bind_ok listen"
  shows "serve_metrics bind_ok enc listen accepts =
    (map (\<lambda>c. serve_connection enc (fst (the c)) (snd (the c))) (takeWhile (\<lambda>c. c \<noteq> None) accepts),
     None \<notin> set accepts)"
proof -
  have "accept_loop enc accepts =
    (map (\<lambda>c. serve_connection enc (fst (the c)) (snd (the c))) (takeWhile (\<lambda>c. c \<noteq> None) accepts),
     None \<notin> set accepts)"
    by (induction enc accepts rule: accept_loop.induct) auto
  then show ?thesis using assms by (simp add: serve_metrics_def)
qed

subsection \<open>The example ingest server\<close>

record stream_ack =
  received :: u64

text \<open>
  Its lines go to the standard streams, which make it panic when they refuse one; the request then
  has no answer. The rendering \<open>{:.2}\<close> of a float is a parameter.
\<close>

fun print_lines :: "sink_env \<Rightarrow> sink_output list \<Rightarrow> sink_output list \<Rightarrow> emission \<times> sink_output list" where
  "print_lines env [] log = (Emitted, log)"
| "print_lines env (out # outs) log =
     (case print_line env out log of
        (Emitted, log') \<Rightarrow> print_lines env outs log'
      | (r, log') \<Rightarrow> (r, log'))"

definition answer :: "emission \<times> sink_output list \<Rightarrow> stream_ack option \<times> sink_output list" where
  "answer printed = (case printed of
     (Emitted, log) \<Rightarrow> (Some \<lparr>received = 1\<rparr>, log)
   | (_, log) \<Rightarrow> (None, log))"

definition publish_event :: "sink_env \<Rightarrow> pb_event \<Rightarrow> sink_output list \<Rightarrow> stream_ack option \<times> sink_output list" where
  "publish_event env event log =
     answer (print_lines env
       [Print_Line (''EVENT kind='' @ pb_kind event @ '' pid='' @ show_word (pb_pid event) @
          '' comm='' @ pb_comm event @ '' parent_comm='' @ pb_parent_comm event)] log)"

definition alert_lines :: "(u64 \<Rightarrow> string) \<Rightarrow> pb_alert \<Rightarrow> sink_output list" where
  "alert_lines two_places a =
     Eprint_Line (''ALERT ['' @ pa_rule_id a @ ''] '' @ pa_title a @ '' severity='' @ pa_severity a) #
     (case pa_triage a of
        None \<Rightarrow> []
      | Some triage \<Rightarrow>
          Eprint_Line (''  triage: '' @ pt_summary triage @ '' (fp='' @
            two_places (pt_false_positive_likelihood triage) @ '')'') #
          map (\<lambda>s. Eprint_Line (''    - '' @ s)) (pt_remediation triage))"

definition publish_alert ::
  "sink_env \<Rightarrow> (u64 \<Rightarrow> string) \<Rightarrow> pb_alert \<Rightarrow> sink_output list \<Rightarrow> stream_ack option \<times> sink_output list" where
  "publish_alert env two_places a log = answer (print_lines env (alert_lines two_places a) log)"

text \<open>
  The server answers exactly when its streams have taken every line, and then its streams hold
  them in order after what was there.
\<close>

lemma print_lines_emitted:
  "print_lines env outs log = (Emitted, log') \<longleftrightarrow>
     log' = log @ outs \<and> (\<forall>i < length outs. sn_ok env (log @ take i outs) (outs ! i))"
proof (induction outs arbitrary: log)
  case Nil
  then show ?case by auto
next
  case (Cons out outs)
  then show ?case by (auto simp: print_line_def All_less_Suc2)
qed

lemma publish_alert_answers:
  "publish_alert env two_places a log = (Some ack, log') \<Longrightarrow>
   received ack = 1 \<and> log' = log @ alert_lines two_places a"
  by (auto simp: publish_alert_def answer_def print_lines_emitted split: prod.splits emission.splits)

text \<open>
  Its \<open>main\<close>: the address of the environment or the default, which must be one; the line that says so,
  and the server, whose end is that of the program. The parser of addresses, the server and its text
  of an address are the libraries'.
\<close>

datatype ingest_error = Not_An_Address string | Server_Failed

definition ingest_main ::
  "sink_env \<Rightarrow> (string \<Rightarrow> 'a option) \<Rightarrow> ('a \<Rightarrow> string) \<Rightarrow> ('a \<Rightarrow> bool) \<Rightarrow> string option \<Rightarrow> sink_output list \<Rightarrow>
   (ingest_error + unit) option \<times> sink_output list" where
  "ingest_main env parse_addr show_addr serve env_addr log =
     (let addr = (case env_addr of Some a \<Rightarrow> a | None \<Rightarrow> ''0.0.0.0:50051'')
      in case parse_addr addr of
           None \<Rightarrow> (Some (Inl (Not_An_Address addr)), log)
         | Some a \<Rightarrow>
             (case print_line env (Print_Line (''sentinel gRPC ingest listening on '' @ show_addr a)) log of
                (Emitted, log') \<Rightarrow> (Some (if serve a then Inr () else Inl Server_Failed), log')
              | (_, log') \<Rightarrow> (None, log')))"

text \<open>It serves the default address only when the variable is not set: an empty one is an error.\<close>

lemma ingest_main_empty:
  "parse_addr [] = None \<Longrightarrow> ingest_main env parse_addr show_addr serve (Some []) log = (Some (Inl (Not_An_Address [])), log)"
  by (simp add: ingest_main_def)

end
