(* ===== verification/Delivered.thy ===== *)
theory Delivered
  imports Sigma
begin

text \<open>
  The rules delivered with the agent (\<open>rules/*.yaml\<close>, \<open>sigma/shell_from_netcat.yml\<close>), as the parser
  reads them, and what an agent detects that has loaded them. What the five regular expressions
  of these rules mean is the locale \<open>rule_patterns\<close>.
\<close>

subsection \<open>The regular expressions\<close>

definition pat_staging :: string where "pat_staging = ''^(/tmp/|/dev/shm/).*''"
definition pat_models :: string where "pat_models = ''.*/(checkpoints|weights|models)/.*''"
definition pat_transfer :: string where "pat_transfer = ''^(curl|wget|scp|rsync|aws|gcloud)$''"
definition pat_shells :: string where "pat_shells = ''^(bash|sh|zsh|dash|fish)$''"
definition pat_network :: string where
  "pat_network = ''^(nc|ncat|socat|python3?|perl|ruby|php|curl)$''"

definition transfer_tools :: "string list" where
  "transfer_tools = [''curl'', ''wget'', ''scp'', ''rsync'', ''aws'', ''gcloud'']"

definition shells :: "string list" where
  "shells = [''bash'', ''sh'', ''zsh'', ''dash'', ''fish'']"

definition network_tools :: "string list" where
  "network_tools =
     [''nc'', ''ncat'', ''socat'', ''python'', ''python3'', ''perl'', ''ruby'', ''php'', ''curl'']"

definition staged :: "string \<Rightarrow> bool" where
  "staged path \<longleftrightarrow> prefix ''/tmp/'' path \<or> prefix ''/dev/shm/'' path"

definition model_artifact :: "string \<Rightarrow> bool" where
  "model_artifact path \<longleftrightarrow>
     sublist ''/checkpoints/'' path \<or> sublist ''/weights/'' path \<or> sublist ''/models/'' path"

definition pattern_meaning :: "string \<Rightarrow> (string \<Rightarrow> bool) option" where
  "pattern_meaning p =
     (if p = pat_staging then Some staged
      else if p = pat_models then Some model_artifact
      else if p = pat_transfer then Some (\<lambda>s. s \<in> set transfer_tools)
      else if p = pat_shells then Some (\<lambda>s. s \<in> set shells)
      else if p = pat_network then Some (\<lambda>s. s \<in> set network_tools)
      else None)"

lemma pattern_meanings:
  "pattern_meaning pat_staging = Some staged"
  "pattern_meaning pat_models = Some model_artifact"
  "pattern_meaning pat_transfer = Some (\<lambda>s. s \<in> set transfer_tools)"
  "pattern_meaning pat_shells = Some (\<lambda>s. s \<in> set shells)"
  "pattern_meaning pat_network = Some (\<lambda>s. s \<in> set network_tools)"
  by (simp_all add: pattern_meaning_def pat_staging_def pat_models_def pat_transfer_def pat_shells_def
      pat_network_def)

subsection \<open>The rules\<close>

definition on :: "string \<Rightarrow> operator \<Rightarrow> string \<Rightarrow> yval condition" where
  "on fld op value = \<lparr>cd_field = fld, cd_op = op, cd_value = Y_Str value\<rparr>"

definition attack :: "string \<Rightarrow> string \<Rightarrow> mitre_attack option" where
  "attack tactic technique =
     Some \<lparr>ma_tactic = tactic, ma_technique = technique, ma_subtechnique = None\<rparr>"

definition credential_rule :: "yval rule" where
  "credential_rule =
     \<lparr>ru_id = ''T1003.008-001'', ru_title = ''Access to Credential Store'',
      ru_description = ''Credential-bearing file opened on the endpoint.'',
      ru_severity = ''high'', ru_enabled = True, ru_tags = [''credential-access'', ''linux''],
      ru_mitre = attack ''Credential Access'' ''T1003.008'',
      ru_conditions = CG_All [on ''kind'' Eq ''open'', on ''path'' Prefix ''/etc/shadow''],
      ru_actions = [''alert'']\<rparr>"

definition fim_rule :: "yval rule" where
  "fim_rule =
     \<lparr>ru_id = ''FIM-001'', ru_title = ''File Integrity Violation on Monitored Path'',
      ru_description = ''Write-capable open on a file integrity monitored path prefix.'',
      ru_severity = ''critical'', ru_enabled = True, ru_tags = [''fim'', ''impact''],
      ru_mitre = attack ''Impact'' ''T1565.001'',
      ru_conditions = CG_All [on ''kind'' Eq ''fileintegrity''],
      ru_actions = [''alert'', ''triage'']\<rparr>"

definition ipv6_rule :: "yval rule" where
  "ipv6_rule =
     \<lparr>ru_id = ''NET-IPv6-001'', ru_title = ''Outbound IPv6 Connect'',
      ru_description = ''Process initiated an outbound TCP/UDP connection over IPv6.'' @ [CHR 0x0A],
      ru_severity = ''low'', ru_enabled = True, ru_tags = [''network'', ''ipv6''],
      ru_mitre = attack ''Command and Control'' ''T1071'',
      ru_conditions = CG_All
        [on ''kind'' Eq ''connect'', \<lparr>cd_field = ''addr_family'', cd_op = Eq, cd_value = Y_Num 10\<rparr>],
      ru_actions = [''alert'']\<rparr>"

definition exfil_rule :: "yval rule" where
  "exfil_rule =
     \<lparr>ru_id = ''CUSTOM-ML-EXFIL-001'', ru_title = ''Sensitive Model Artifact Accessed by Transfer Utility'',
      ru_description =
        ''A process commonly used for bulk transfer opened a path under model '' @
        ''checkpoints or weights directories on an ML training node.'' @ [CHR 0x0A],
      ru_severity = ''high'', ru_enabled = True,
      ru_tags = [''exfiltration'', ''ml-security'', ''ai-infrastructure''],
      ru_mitre = attack ''Exfiltration'' ''T1048'',
      ru_conditions = CG_All
        [on ''kind'' Eq ''open'', on ''path'' Regex pat_models, on ''comm'' Regex pat_transfer],
      ru_actions = [''alert'', ''triage'']\<rparr>"

definition reverse_shell_rule :: "yval rule" where
  "reverse_shell_rule =
     \<lparr>ru_id = ''T1059.004-001'', ru_title = ''Interactive Shell Spawned by Network Utility'',
      ru_description =
        ''An interactive shell was spawned directly by a known network utility, '' @
        ''consistent with reverse shell establishment after initial access.'' @ [CHR 0x0A],
      ru_severity = ''critical'', ru_enabled = True,
      ru_tags = [''execution'', ''reverse-shell'', ''network''],
      ru_mitre = attack ''Execution'' ''T1059.004'',
      ru_conditions = CG_All
        [on ''kind'' Eq ''exec'', on ''comm'' Regex pat_shells, on ''parent_comm'' Regex pat_network],
      ru_actions = [''alert'', ''triage'']\<rparr>"

definition staging_rule :: "yval rule" where
  "staging_rule =
     \<lparr>ru_id = ''T1574.006-001'', ru_title = ''Binary Executed from Writable Staging Directory'',
      ru_description =
        ''Process execution from a world-writable staging path commonly used for '' @
        ''payload drop and defense evasion on Linux endpoints.'' @ [CHR 0x0A],
      ru_severity = ''high'', ru_enabled = True,
      ru_tags = [''execution'', ''defense-evasion'', ''staging''],
      ru_mitre = attack ''Defense Evasion'' ''T1574.006'',
      ru_conditions = CG_All [on ''kind'' Eq ''exec'', on ''path'' Regex pat_staging],
      ru_actions = [''alert'', ''triage'']\<rparr>"

definition delivered_files :: "(string \<times> yval rule) list" where
  "delivered_files =
     [(''rules/credential_access.yaml'', credential_rule), (''rules/file_integrity.yaml'', fim_rule),
      (''rules/ipv6_connect.yaml'', ipv6_rule), (''rules/ml_model_exfil.yaml'', exfil_rule),
      (''rules/reverse_shell.yaml'', reverse_shell_rule), (''rules/writable_staging.yaml'', staging_rule)]"

definition delivered_rules :: "yval rule list" where
  "delivered_rules = map snd delivered_files"

lemmas rule_defs = credential_rule_def fim_rule_def ipv6_rule_def exfil_rule_def reverse_shell_rule_def
  staging_rule_def nc_shell_rule_def on_def attack_def

text \<open>A host with rule files, one rule each, and a Sigma rule in place, whose parser reads them so.\<close>

definition has_rule_files :: "'v rule_env \<Rightarrow> string \<Rightarrow> (string \<times> 'v rule) list \<Rightarrow> bool" where
  "has_rule_files env dir files \<longleftrightarrow>
     re_glob env (path_join dir ''**/*.yaml'') = Some (map (Some \<circ> fst) files) \<and>
     list_all (\<lambda>(path, r). case re_read env path of
         Some raw \<Rightarrow> re_parse_rules env raw = Some (RF_Single r)
       | None \<Rightarrow> False) files"

definition has_sigma_file :: "'v rule_env \<Rightarrow> string \<Rightarrow> string \<Rightarrow> 'v \<Rightarrow> bool" where
  "has_sigma_file env dir path doc \<longleftrightarrow>
     re_is_dir env dir \<and>
     re_glob env (path_join dir ''**/*.yaml'') = Some [] \<and>
     re_glob env (path_join dir ''**/*.yml'') = Some [Some path] \<and>
     (case re_read env path of
        Some raw \<Rightarrow> re_parse_yaml env raw = Some doc
      | None \<Rightarrow> False)"

definition delivered_host :: "yval rule_env \<Rightarrow> bool" where
  "delivered_host env \<longleftrightarrow>
     has_rule_files env ''rules'' delivered_files \<and>
     has_sigma_file env ''sigma'' ''sigma/shell_from_netcat.yml'' nc_shell_doc"

subsection \<open>When their conditions hold\<close>

definition kind_is :: "(string \<Rightarrow> string) \<Rightarrow> enriched_event \<Rightarrow> string \<Rightarrow> bool" where
  "kind_is lower event k \<longleftrightarrow> eq_ignore_ascii_case (to_lowercase lower (ee_kind event)) k"

lemma yval_str [simp]: "value_as_str yval_api (Y_Str s) = Some s"
  by (simp add: value_as_str_def yval_api_def)

lemma kind_holds: "cond_holds lower yval_api rx (on ''kind'' Eq k) event \<longleftrightarrow> kind_is lower event k"
  by (simp add: on_def cond_holds_def match_condition_def field_def values_equal_def kind_is_def yval_api_def)

lemma path_prefix_holds:
  "cond_holds lower yval_api rx (on ''path'' Prefix p) event \<longleftrightarrow> prefix p (ee_path event)"
  by (simp add: on_def cond_holds_def match_condition_def field_def)

lemma family_holds:
  "cond_holds lower yval_api rx \<lparr>cd_field = ''addr_family'', cd_op = Eq, cd_value = Y_Num 10\<rparr> event \<longleftrightarrow>
   ee_addr_family event = Some AF_INET6"
proof (cases "ee_addr_family event")
  case None
  then show ?thesis by (simp add: cond_holds_def match_condition_def field_def)
next
  case (Some f)
  let ?c = "\<lparr>cd_field = ''addr_family'', cd_op = Eq, cd_value = Y_Num 10\<rparr>"
  have n: "numeric_field event (cd_field ?c) = Some (unat f)"
    using Some by (simp add: numeric_field_def)
  have "uint f = 10 \<longleftrightarrow> f = 10" by (simp add: word_uint_eq_iff)
  with Some show ?thesis
    using numeric_condition_correct [OF n, of 10] by (simp add: cond_holds_def AF_INET6_def)
qed

locale rule_patterns =
  fixes rx :: "'re regex_api"
  assumes meaning: "pattern_meaning p = Some P \<Longrightarrow> \<exists>re. rx_new rx p = Some re \<and> rx_is_match rx re = P"
begin

lemma regex_holds:
  "pattern_meaning p = Some P \<Longrightarrow> field lower event fld = Some v \<Longrightarrow>
   cond_holds lower yval_api rx (on fld Regex p) event \<longleftrightarrow> P v"
  using meaning [of p P] by (auto simp: on_def cond_holds_def)

lemma string_fields:
  "field lower event ''path'' = Some (ee_path event)" "field lower event ''comm'' = Some (ee_comm event)"
  "field lower event ''parent_comm'' = Some (ee_parent_comm event)"
  by (simp_all add: field_def)

lemmas pattern_holds = pattern_meanings [THEN regex_holds]

lemma compiles:
  assumes "r \<in> set (delivered_rules @ [nc_shell_rule])"
  shows "\<exists>c. compiled_rule_new yval_api rx r = Inr c"
proof -
  obtain r1 r2 r3 r4 r5 where "rx_new rx pat_staging = Some r1" "rx_new rx pat_models = Some r2"
    "rx_new rx pat_transfer = Some r3" "rx_new rx pat_shells = Some r4" "rx_new rx pat_network = Some r5"
    using pattern_meanings [THEN meaning] by blast
  then show ?thesis
    using assms
    by (auto simp: delivered_rules_def delivered_files_def rule_defs compiled_rule_new_def)
qed

end

subsection \<open>What a loaded agent detects\<close>

text \<open>The ids of the rules whose conditions an event meets, in the order of the files.\<close>

definition detections :: "(string \<Rightarrow> string) \<Rightarrow> enriched_event \<Rightarrow> string list" where
  "detections lower e =
     concat
       [if kind_is lower e ''open'' \<and> prefix ''/etc/shadow'' (ee_path e) then [''T1003.008-001''] else [],
        if kind_is lower e ''fileintegrity'' then [''FIM-001''] else [],
        if kind_is lower e ''connect'' \<and> ee_addr_family e = Some AF_INET6 then [''NET-IPv6-001''] else [],
        if kind_is lower e ''open'' \<and> model_artifact (ee_path e) \<and> ee_comm e \<in> set transfer_tools
          then [''CUSTOM-ML-EXFIL-001''] else [],
        if kind_is lower e ''exec'' \<and> ee_comm e \<in> set shells \<and> ee_parent_comm e \<in> set network_tools
          then [''T1059.004-001''] else [],
        if kind_is lower e ''exec'' \<and> staged (ee_path e) then [''T1574.006-001''] else [],
        if kind_is lower e ''exec'' \<and> suffix ''nc'' (ee_parent_comm e) \<and> suffix ''bash'' (ee_comm e)
          then [''sigma-sentinel-sigma-nc-shell''] else []]"

lemma plain_conditions:
  "group_holds lower yval_api rx (ru_conditions credential_rule) e \<longleftrightarrow>
     kind_is lower e ''open'' \<and> prefix ''/etc/shadow'' (ee_path e)"
  "group_holds lower yval_api rx (ru_conditions fim_rule) e \<longleftrightarrow> kind_is lower e ''fileintegrity''"
  "group_holds lower yval_api rx (ru_conditions ipv6_rule) e \<longleftrightarrow>
     kind_is lower e ''connect'' \<and> ee_addr_family e = Some AF_INET6"
  by (simp_all add: credential_rule_def fim_rule_def ipv6_rule_def kind_holds path_prefix_holds family_holds)

lemma nc_shell_holds:
  "group_holds lower yval_api rx (ru_conditions nc_shell_rule) e \<longleftrightarrow>
   kind_is lower e ''exec'' \<and> suffix ''nc'' (ee_parent_comm e) \<and> suffix ''bash'' (ee_comm e)"
  by (simp add: nc_shell_rule_def cond_holds_def match_condition_def field_def values_equal_def kind_is_def
      yval_api_def value_as_str_def)

lemma delivered_plain:
  "\<forall>r \<in> set (delivered_rules @ [nc_shell_rule]). list_all (plain_condition yval_api) (iter_conditions (ru_conditions r))"
  by (simp add: delivered_rules_def delivered_files_def rule_defs plain_condition_def)

context rule_patterns
begin

lemma delivered_compiles:
  "\<exists>cs. list_all2 (\<lambda>r c. compiled_rule_new yval_api rx r = Inr c) (delivered_rules @ [nc_shell_rule]) cs"
  using compiles by (intro list_all2_choice) blast

lemma regex_conditions:
  "group_holds lower yval_api rx (ru_conditions exfil_rule) e \<longleftrightarrow>
     kind_is lower e ''open'' \<and> model_artifact (ee_path e) \<and> ee_comm e \<in> set transfer_tools"
  "group_holds lower yval_api rx (ru_conditions reverse_shell_rule) e \<longleftrightarrow>
     kind_is lower e ''exec'' \<and> ee_comm e \<in> set shells \<and> ee_parent_comm e \<in> set network_tools"
  "group_holds lower yval_api rx (ru_conditions staging_rule) e \<longleftrightarrow>
     kind_is lower e ''exec'' \<and> staged (ee_path e)"
  by (simp_all add: exfil_rule_def reverse_shell_rule_def staging_rule_def kind_holds
      pattern_holds [OF string_fields(1)] pattern_holds [OF string_fields(2)] pattern_holds [OF string_fields(3)])

lemma delivered_detections:
  "map ru_id (filter (\<lambda>r. ru_enabled r \<and> group_holds lower yval_api rx (ru_conditions r) e)
     (delivered_rules @ [nc_shell_rule])) = detections lower e"
proof -
  have ids: "ru_id credential_rule = ''T1003.008-001''" "ru_id fim_rule = ''FIM-001''"
    "ru_id ipv6_rule = ''NET-IPv6-001''" "ru_id exfil_rule = ''CUSTOM-ML-EXFIL-001''"
    "ru_id reverse_shell_rule = ''T1059.004-001''" "ru_id staging_rule = ''T1574.006-001''"
    "ru_id nc_shell_rule = ''sigma-sentinel-sigma-nc-shell''"
    and en: "ru_enabled credential_rule" "ru_enabled fim_rule" "ru_enabled ipv6_rule" "ru_enabled exfil_rule"
    "ru_enabled reverse_shell_rule" "ru_enabled staging_rule" "ru_enabled nc_shell_rule"
    by (simp_all add: rule_defs)
  show ?thesis
    by (simp only: delivered_rules_def delivered_files_def list.map prod.sel append.simps filter.simps en simp_thms
        plain_conditions regex_conditions nc_shell_holds detections_def concat.simps if_distrib [where f = "map ru_id"]
        if_distrib [where f = "\<lambda>xs. append xs _"] ids)
qed

end

lemma find_rule_rules: "find_rule engine rid = find (\<lambda>r. ru_id r = rid) (map cr_rule engine)"
  by (induction engine) (simp_all add: find_rule_def)

lemma should_triage_delivered:
  "map cr_rule engine = delivered_rules @ [nc_shell_rule] \<Longrightarrow>
   should_triage engine rid \<longleftrightarrow>
     rid \<in> {''FIM-001'', ''CUSTOM-ML-EXFIL-001'', ''T1059.004-001'', ''T1574.006-001''}"
  by (auto simp: should_triage_def find_rule_rules delivered_rules_def delivered_files_def rule_defs)

lemma compiled_rules: "list_all2 (\<lambda>r c. compiled_rule_new y rx r = Inr c) rs cs \<Longrightarrow> map cr_rule cs = rs"
  by (induction rs cs rule: list_all2_induct) (auto dest: compiled_rule_newD)

lemma delivered_yaml: "list_all (\<lambda>f. path_extension (fst f) \<noteq> Some ''yml'') delivered_files"
  by code_simp

lemma load_files_singles:
  "list_all (\<lambda>f. path_extension (fst f) \<noteq> Some ''yml'') files \<Longrightarrow>
   list_all (\<lambda>(path, r). case re_read env path of
       Some raw \<Rightarrow> re_parse_rules env raw = Some (RF_Single r)
     | None \<Rightarrow> False) files \<Longrightarrow>
   load_files env (map (Some \<circ> fst) files) acc = Inr (acc @ map snd files)"
  by (induction files arbitrary: acc) (auto split: option.splits)

text \<open>Such files load, whatever the engine for regular expressions compiles them to.\<close>

lemma load_rule_files:
  assumes "has_rule_files env dir files" "list_all (\<lambda>f. path_extension (fst f) \<noteq> Some ''yml'') files"
    "distinct (map (ru_id \<circ> snd) files)"
    "list_all2 (\<lambda>r c. compiled_rule_new y rx r = Inr c) (map snd files) engine"
  shows "load_dir y rx env dir = Inr engine"
  using assms load_files_singles [of files env "[]"]
  by (simp add: load_dir_def has_rule_files_def try_map_Inr_iff check_ids_iff
      iffD2 [OF check_ids_iff, of "map snd files" "[]" "()"])

lemma load_with_sigma:
  assumes "load_dir y rx env (cfg_rules_dir c) = Inr native" "cfg_sigma_dir c = Some dir"
    "has_sigma_file env dir path doc" "translate_sigma lower upper y doc = Inr r"
    "compiled_rule_new y rx r = Inr s"
  shows "load_from_config lower upper y rx env c = Inr (native @ [s])"
proof -
  have "load_sigma_dir lower upper y env dir = Inr [r]"
    using assms(3,4) by (auto simp: load_sigma_dir_def has_sigma_file_def split: option.splits)
  with assms(1,2,5) show ?thesis by (simp add: load_from_config_def)
qed

lemma delivered_native:
  assumes "delivered_host env" "list_all2 (\<lambda>r c. compiled_rule_new yval_api rx r = Inr c) delivered_rules native"
  shows "load_dir yval_api rx env ''rules'' = Inr native"
  using assms delivered_yaml
  by (intro load_rule_files [where files = delivered_files])
    (simp_all add: delivered_host_def delivered_rules_def, simp add: delivered_files_def rule_defs)

lemma delivered_load:
  assumes "delivered_host env" "cfg_rules_dir c = ''rules''" "cfg_sigma_dir c = Some ''sigma''"
    "list_all2 (\<lambda>r c. compiled_rule_new yval_api rx r = Inr c) (delivered_rules @ [nc_shell_rule]) engine"
  shows "load_from_config lower upper yval_api rx env c = Inr engine"
proof -
  obtain native s where engine: "engine = native @ [s]"
    and native: "list_all2 (\<lambda>r c. compiled_rule_new yval_api rx r = Inr c) delivered_rules native"
    and s: "compiled_rule_new yval_api rx nc_shell_rule = Inr s"
    using assms(4) by (auto simp: list_all2_append1 list_all2_Cons1)
  have "has_sigma_file env ''sigma'' ''sigma/shell_from_netcat.yml'' nc_shell_doc"
    using assms(1) by (simp add: delivered_host_def)
  from load_with_sigma [OF _ assms(3) this translate_nc_shell s] delivered_native [OF assms(1) native]
  show ?thesis by (simp add: assms(2) engine)
qed

lemma delivered_engine:
  assumes "rule_patterns rx" "delivered_host env" "cfg_rules_dir c = ''rules''" "cfg_sigma_dir c = Some ''sigma''"
  shows "\<exists>engine. load_from_config lower upper yval_api rx env c = Inr engine \<and>
    map cr_rule engine = delivered_rules @ [nc_shell_rule] \<and>
    (\<forall>event. map al_rule_id (evaluate lower yval_api rx engine event) = detections lower event)"
proof -
  obtain engine where engine:
    "list_all2 (\<lambda>r c. compiled_rule_new yval_api rx r = Inr c) (delivered_rules @ [nc_shell_rule]) engine"
    using rule_patterns.delivered_compiles [OF assms(1)] by blast
  have "map al_rule_id (evaluate lower yval_api rx engine e) = detections lower e" for e
    using evaluate_compiled [OF engine delivered_plain, of lower e]
      rule_patterns.delivered_detections [OF assms(1), of lower e]
    by (simp add: comp_def alert_of_def)
  then show ?thesis
    using delivered_load [OF assms(2-4) engine] compiled_rules [OF engine] by blast
qed

text \<open>C19: An agent whose configuration names the delivered directories, on a host that has the delivered
  files, loads them without an error, and with any engine that gives the five regular expressions
  their meaning it raises for every event exactly the alerts listed by \<open>detections\<close>: a credential
  store opened, a monitored path written, a connection over IPv6, a model artifact opened by a
  transfer tool, a shell started by a network tool, a program started from a staging directory, and
  a \<open>bash\<close> started by a parent whose name ends with \<open>nc\<close>. Four of the rules ask for triage.\<close>

theorem delivered_alerts:
  assumes "rule_patterns rx" "delivered_host env" "cfg_rules_dir c = ''rules''" "cfg_sigma_dir c = Some ''sigma''"
  shows "\<exists>engine. load_from_config lower upper yval_api rx env c = Inr engine \<and>
    (\<forall>event. map al_rule_id (evaluate lower yval_api rx engine event) = detections lower event) \<and>
    (\<forall>rid. should_triage engine rid \<longleftrightarrow>
       rid \<in> {''FIM-001'', ''CUSTOM-ML-EXFIL-001'', ''T1059.004-001'', ''T1574.006-001''})"
  using delivered_engine [OF assms, of lower upper] should_triage_delivered by blast

text \<open>An engine for the five expressions, and a host whose files are their own names.\<close>

definition meaning_regex :: "(string \<Rightarrow> bool) regex_api" where
  "meaning_regex = \<lparr>rx_new = pattern_meaning, rx_is_match = (\<lambda>re. re)\<rparr>"

interpretation delivered_rx: rule_patterns meaning_regex
  by unfold_locales (simp add: meaning_regex_def)

definition delivered_env :: "yval rule_env" where
  "delivered_env =
     \<lparr>re_glob = (\<lambda>p. if p = ''rules/**/*.yaml'' then Some (map (Some \<circ> fst) delivered_files)
         else if p = ''sigma/**/*.yml'' then Some [Some ''sigma/shell_from_netcat.yml''] else Some []),
      re_read = Some, re_parse_rules = (\<lambda>raw. map_option RF_Single (map_of delivered_files raw)),
      re_parse_yaml = (\<lambda>_. Some nc_shell_doc), re_is_dir = (\<lambda>_. True)\<rparr>"

lemma delivered_joins:
  "path_join ''rules'' ''**/*.yaml'' = ''rules/**/*.yaml''"
  "path_join ''sigma'' ''**/*.yaml'' = ''sigma/**/*.yaml''" "path_join ''sigma'' ''**/*.yml'' = ''sigma/**/*.yml''"
  by code_simp+

lemma delivered_env_host: "delivered_host delivered_env"
  by (simp add: delivered_host_def has_rule_files_def has_sigma_file_def delivered_joins delivered_env_def
      delivered_files_def)

theorem delivered_alerts_witness:
  "case load_from_config id id yval_api meaning_regex delivered_env
       ((config_default None)\<lparr>cfg_rules_dir := ''rules'', cfg_sigma_dir := Some ''sigma''\<rparr>) of
     Inr engine \<Rightarrow>
       map al_rule_id (evaluate id yval_api meaning_regex engine (sample_enriched ''exec'' ''bash'' ''nc'')) =
         [''T1059.004-001'', ''sigma-sentinel-sigma-nc-shell'']
   | Inl _ \<Rightarrow> False"
proof -
  let ?c = "(config_default None)\<lparr>cfg_rules_dir := ''rules'', cfg_sigma_dir := Some ''sigma''\<rparr>"
  have "detections id (sample_enriched ''exec'' ''bash'' ''nc'') =
      [''T1059.004-001'', ''sigma-sentinel-sigma-nc-shell'']"
    by code_simp
  with delivered_alerts [OF delivered_rx.rule_patterns_axioms delivered_env_host, of ?c id id] show ?thesis
    by fastforce
qed

end
