(* ===== verification/Repo_Tests.thy ===== *)
theory Repo_Tests
  imports Delivered Suppress Pipeline Enricher Metrics
begin

text \<open>
  The repository's own tests, run on the model: each test function is a definition with the
  assertions of its body, and a lemma that it holds. Tests that use the engine for regular
  expressions take it as an argument, those that read rule files take the host's file system. A new
  \<open>Enricher\<close> is made on a host whose \<open>/proc\<close> lists nothing. (The tests that need containers or a
  kernel are left out.)
\<close>

subsection \<open>\<open>suppress.rs\<close>\<close>

definition test_suppressor :: "u32 \<Rightarrow> u64 \<Rightarrow> suppressor" where
  "test_suppressor mx window_secs =
     new_suppressor
       \<lparr>sup_default = \<lparr>rlc_max_alerts = mx, rlc_window_secs = window_secs\<rparr>, sup_rules = Map.empty\<rparr>"

definition allows_up_to_max_within_window :: bool where
  "allows_up_to_max_within_window \<longleftrightarrow>
     (let s0 = test_suppressor 2 60;
          (a1, s1) = allow s0 ''R1'' 1 1000000000;
          (a2, s2) = allow s1 ''R1'' 1 2000000000;
          (a3, s3) = allow s2 ''R1'' 1 3000000000
      in a1 \<and> a2 \<and> \<not> a3 \<and> suppressed_total s3 = 1)"

definition separate_keys_independent :: bool where
  "separate_keys_independent \<longleftrightarrow>
     (let s0 = test_suppressor 1 60;
          (a1, s1) = allow s0 ''R1'' 1 1;
          (a2, s2) = allow s1 ''R1'' 2 2;
          (a3, s3) = allow s2 ''R1'' 1 3
      in a1 \<and> a2 \<and> \<not> a3)"

definition window_expires_old_entries :: bool where
  "window_expires_old_entries \<longleftrightarrow>
     (let s0 = test_suppressor 1 1;
          (a1, s1) = allow s0 ''R1'' 1 0;
          (a2, s2) = allow s1 ''R1'' 1 500000000;
          (a3, s3) = allow s2 ''R1'' 1 2000000001
      in a1 \<and> \<not> a2 \<and> a3)"

lemma suppress_tests:
  "allows_up_to_max_within_window" "separate_keys_independent" "window_expires_old_entries"
  by (simp_all add: allows_up_to_max_within_window_def separate_keys_independent_def
      window_expires_old_entries_def test_suppressor_def new_suppressor_def rate_limit_from_def
      allow_def limit_of_def suppressed_total_def saturating_mul_def saturating_sub_def Let_def)

subsection \<open>\<open>pipeline.rs\<close>\<close>

definition sample_raw_event :: sentinel_event where
  "sample_raw_event =
     \<lparr>se_kind = kind_as_u32 Exec, se_pid = 42, se_ppid = 1, se_uid = 1000, se_gid = 1000,
      se_timestamp_ns = 99, se_comm = pad_to 16 (bytes_of_string ''bash''), se_addr_family = 0,
      se_pad = [0], se_dst_port = 0, se_dst_addr = 0, se_dst_addr_v6 = replicate 16 0,
      se_flags = 0, se_path = pad_to 128 (bytes_of_string ''/tmp'')\<rparr>"

definition parses_exact_sized_event :: "bytes \<Rightarrow> bytes \<Rightarrow> bool" where
  "parses_exact_sized_event p q \<longleftrightarrow>
     (case parse_ring_event (event_bytes p q sample_raw_event) of
        Some parsed \<Rightarrow> se_pid parsed = 42 \<and> se_kind parsed = kind_as_u32 Exec
      | None \<Rightarrow> False)"

definition rejects_short_buffer :: bool where
  "rejects_short_buffer \<longleftrightarrow> parse_ring_event (replicate 8 0) = None"

definition rejects_oversized_buffer :: "bytes \<Rightarrow> bytes \<Rightarrow> bool" where
  "rejects_oversized_buffer p q \<longleftrightarrow>
     parse_ring_event (event_bytes p q sample_raw_event @ replicate 4 0) = None"

lemma wf_sample_raw_event: "wf_event sample_raw_event"
  by (simp add: wf_event_def sample_raw_event_def pad_to_def bytes_of_string_def)

lemma sample_raw_event_pid: "se_pid sample_raw_event = 42" "se_kind sample_raw_event = kind_as_u32 Exec"
  by (simp_all add: sample_raw_event_def)

lemma pipeline_tests:
  "length p = 4 \<Longrightarrow> length q = 4 \<Longrightarrow> parses_exact_sized_event p q"
  "rejects_short_buffer"
  "length p = 4 \<Longrightarrow> length q = 4 \<Longrightarrow> rejects_oversized_buffer p q"
  using wf_sample_raw_event
  by (simp_all add: parses_exact_sized_event_def parse_event_bytes sample_raw_event_pid rejects_short_buffer_def
      rejects_oversized_buffer_def parse_ring_event_def length_event_bytes size_of_event_def read_event_bytes
      del: kind_as_u32.simps)

subsection \<open>\<open>rules/mod.rs\<close>\<close>

definition rule_event :: "string \<Rightarrow> string \<Rightarrow> u32 \<Rightarrow> enriched_event" where
  "rule_event kind path uid =
     \<lparr>ee_kind = kind, ee_pid = 1000, ee_ppid = 1, ee_uid = uid, ee_gid = 0, ee_timestamp_ns = 1,
      ee_timestamp = None, ee_comm = ''bash'', ee_parent_comm = ''nc'', ee_path = path,
      ee_addr_family = None, ee_dst_addr = None, ee_dst_port = None, ee_flags = 0, ee_lineage = [],
      ee_host = ''test'', ee_container_id = None, ee_pod_name = None, ee_pod_namespace = None,
      ee_pod_image = None\<rparr>"

definition test_rule :: "string \<Rightarrow> string \<Rightarrow> string \<Rightarrow> mitre_attack option \<Rightarrow> yval condition list \<Rightarrow> yval rule" where
  "test_rule rid title severity mitre conds =
     \<lparr>ru_id = rid, ru_title = title, ru_description = [], ru_severity = severity, ru_enabled = True,
      ru_tags = [], ru_mitre = mitre, ru_conditions = CG_All conds, ru_actions = [''alert'']\<rparr>"

definition hits ::
  "(string \<Rightarrow> string) \<Rightarrow> 're regex_api \<Rightarrow> yval rule \<Rightarrow> enriched_event \<Rightarrow> alert list option" where
  "hits lower rx r e =
     (case compiled_rule_new yval_api rx r of
        Inr c \<Rightarrow> Some (evaluate lower yval_api rx [c] e)
      | Inl _ \<Rightarrow> None)"

definition matches_exec_from_tmp :: "(string \<Rightarrow> string) \<Rightarrow> 're regex_api \<Rightarrow> bool" where
  "matches_exec_from_tmp lower rx \<longleftrightarrow>
     (let r = test_rule ''exec-from-tmp'' ''tmp exec'' ''high'' None
                [on ''kind'' Eq ''exec'', on ''path'' Prefix ''/tmp/'']
      in map_option (map al_rule_id) (hits lower rx r (rule_event ''exec'' ''/tmp/evil'' 1000)) = Some [''exec-from-tmp''] \<and>
         hits lower rx r (rule_event ''exec'' ''/usr/bin/ls'' 1000) = Some [])"

definition matches_reverse_shell_pattern :: "(string \<Rightarrow> string) \<Rightarrow> 're regex_api \<Rightarrow> bool" where
  "matches_reverse_shell_pattern lower rx \<longleftrightarrow>
     (let r = test_rule ''T1059.004-001'' ''shell from network utility'' ''critical''
                (attack ''Execution'' ''T1059.004'')
                [on ''comm'' Regex ''^(bash|sh)$'', on ''parent_comm'' Regex ''^(nc|ncat)$'']
      in case hits lower rx r (rule_event ''exec'' ''/bin/bash'' 1000) of
           Some [hit] \<Rightarrow> map_option ma_technique (al_mitre hit) = Some ''T1059.004''
         | _ \<Rightarrow> False)"

definition matches_numeric_eq :: "(string \<Rightarrow> string) \<Rightarrow> 're regex_api \<Rightarrow> bool" where
  "matches_numeric_eq lower rx \<longleftrightarrow>
     (let r = test_rule ''NET-IPv6-001'' ''ipv6'' ''low'' None
                [on ''kind'' Eq ''connect'', \<lparr>cd_field = ''addr_family'', cd_op = Eq, cd_value = Y_Num 10\<rparr>];
          event = rule_event ''connect'' [] 1000
      in map_option length (hits lower rx r (event\<lparr>ee_addr_family := Some 10\<rparr>)) = Some 1 \<and>
         hits lower rx r (event\<lparr>ee_addr_family := Some 2\<rparr>) = Some [])"

lemma lower_test_kinds [simp]:
  "to_lowercase tbl ''exec'' = ''exec''" "to_lowercase tbl ''connect'' = ''connect''"
  by code_simp+

lemma rule_tests:
  "matches_exec_from_tmp lower rx"
  "matches_numeric_eq lower rx"
  by (simp_all add: matches_exec_from_tmp_def matches_numeric_eq_def hits_def test_rule_def on_def
      compiled_rule_new_def matches_def match_condition_def field_def rule_event_def values_equal_def
      yval_api_def value_as_str_def value_as_u64_def parse_u64_def show_word_def parse_show_nat alert_of_def Let_def)

lemma regex_test:
  assumes "rx_new rx ''^(bash|sh)$'' = Some r1" "rx_is_match rx r1 ''bash''"
    "rx_new rx ''^(nc|ncat)$'' = Some r2" "rx_is_match rx r2 ''nc''"
  shows "matches_reverse_shell_pattern lower rx"
  using assms
  by (simp add: matches_reverse_shell_pattern_def hits_def test_rule_def on_def attack_def
      compiled_rule_new_def matches_def match_condition_def field_def rule_event_def
      regex_key_def alert_of_def)

subsection \<open>\<open>rules/sigma.rs\<close>\<close>

definition minimal_sigma_doc :: yval where
  "minimal_sigma_doc = Y_Map
     [(Y_Str ''title'', Y_Str ''Suspicious Parent''),
      (Y_Str ''id'', Y_Str ''test-sigma-001''),
      (Y_Str ''logsource'', Y_Map [(Y_Str ''category'', Y_Str ''process_creation'')]),
      (Y_Str ''detection'', Y_Map
        [(Y_Str ''selection'', Y_Map
           [(Y_Str ''ParentImage|endswith'', Y_Str ''/nc''), (Y_Str ''Image|endswith'', Y_Str ''bash'')]),
         (Y_Str ''condition'', Y_Str ''selection'')]),
      (Y_Str ''level'', Y_Str ''high''),
      (Y_Str ''tags'', Y_Seq [Y_Str ''attack.t1059.004''])]"

definition translates_minimal_sigma_rule :: "(string \<Rightarrow> string) \<Rightarrow> (string \<Rightarrow> string) \<Rightarrow> bool" where
  "translates_minimal_sigma_rule lower upper \<longleftrightarrow>
     (case translate_sigma lower upper yval_api minimal_sigma_doc of
        Inl _ \<Rightarrow> False
      | Inr r \<Rightarrow>
          ru_id r = ''sigma-test-sigma-001'' \<and> ru_severity r = ''high'' \<and> ru_mitre r \<noteq> None \<and>
          (case ru_conditions r of
             CG_All conds \<Rightarrow>
               (let value_of = \<lambda>f. case find (\<lambda>c. cd_field c = f) conds of
                      Some c \<Rightarrow> value_as_str yval_api (cd_value c)
                    | None \<Rightarrow> None
                in value_of ''parent_comm'' = Some ''nc'' \<and> value_of ''comm'' = Some ''bash'')
           | _ \<Rightarrow> False))"

lemma sigma_test: "translates_minimal_sigma_rule lower upper"
  by code_simp

subsection \<open>\<open>k8s.rs\<close>\<close>

definition container_hash :: string where
  "container_hash = ''a1b2c3d4e5f6789012345678901234567890abcdef1234567890abcdef123456''"

definition parses_containerd_cgroup :: "captures \<Rightarrow> bool" where
  "parses_containerd_cgroup captures \<longleftrightarrow>
     (case container_id_from_cgroup captures
         (''0::/kubepods.slice/kubepods-burstable.slice/kubepods-burstable-podabc.slice/cri-containerd-'' @
          container_hash @ ''.scope'' @ [CHR 0x0A]) of
        Some cid \<Rightarrow> length cid = 64 \<and> prefix ''a1b2'' cid
      | None \<Rightarrow> False)"

definition parses_crio_cgroup :: "captures \<Rightarrow> bool" where
  "parses_crio_cgroup captures \<longleftrightarrow>
     (case container_id_from_cgroup captures (''12:memory:/crio-'' @ container_hash @ [CHR 0x0A]) of
        Some cid \<Rightarrow> length cid = 64
      | None \<Rightarrow> False)"

definition cgroup_fixture_parses_in_container_context :: "captures \<Rightarrow> bool" where
  "cgroup_fixture_parses_in_container_context captures \<longleftrightarrow>
     (case container_id_from_cgroup captures
         (''0::/kubepods.slice/cri-containerd-'' @ concat (replicate 8 ''deadbeef'') @ ''.scope'' @ [CHR 0x0A]) of
        Some cid \<Rightarrow> length cid = 64
      | None \<Rightarrow> False)"

lemma cgroup_tests:
  "parses_containerd_cgroup hex_captures" "parses_crio_cgroup hex_captures"
  "cgroup_fixture_parses_in_container_context hex_captures"
  by code_simp+

subsection \<open>\<open>enricher.rs\<close>\<close>

definition test_event :: "event_kind \<Rightarrow> u32 \<Rightarrow> u32 \<Rightarrow> u32 \<Rightarrow> u64 \<Rightarrow> string \<Rightarrow> string \<Rightarrow> sentinel_event" where
  "test_event k pid ppid uid timestamp comm path =
     \<lparr>se_kind = kind_as_u32 k, se_pid = pid, se_ppid = ppid, se_uid = uid, se_gid = uid,
      se_timestamp_ns = timestamp, se_comm = pad_to 16 (bytes_of_string comm), se_addr_family = 0,
      se_pad = [0], se_dst_port = 0, se_dst_addr = 0, se_dst_addr_v6 = replicate 16 0,
      se_flags = 0, se_path = pad_to 128 (bytes_of_string path)\<rparr>"

definition loopback_v6_event :: "u64 \<Rightarrow> sentinel_event" where
  "loopback_v6_event timestamp =
     (test_event Connect 1 0 0 timestamp [] [])
       \<lparr>se_addr_family := AF_INET6, se_dst_port := 443, se_dst_addr_v6 := replicate 15 0 @ [1]\<rparr>"

definition enriches_ipv6_connect :: "enrich_env \<Rightarrow> bool" where
  "enriches_ipv6_connect env \<longleftrightarrow>
     (case new_enricher ''test-host'' (Some []) of
        Inl _ \<Rightarrow> False
      | Inr enricher \<Rightarrow>
          (case enrich env enricher (loopback_v6_event 0) of
             None \<Rightarrow> False
           | Some (event, _) \<Rightarrow>
               ee_addr_family event = Some AF_INET6 \<and> ee_dst_addr event = Some ''::1'' \<and>
               ee_dst_port event = Some 443))"

definition exec_comm_derived_from_path :: "enrich_env \<Rightarrow> bool" where
  "exec_comm_derived_from_path env \<longleftrightarrow>
     (case new_enricher ''test-host'' (Some []) of
        Inl _ \<Rightarrow> False
      | Inr enricher \<Rightarrow>
          (case enrich env
              (enricher\<lparr>en_processes := (en_processes enricher)(4241 \<mapsto> \<lparr>pi_ppid = 1, pi_comm = ''nc''\<rparr>)\<rparr>)
              (test_event Exec 4242 4241 1000 1 ''nc'' ''/bin/bash'') of
             None \<Rightarrow> False
           | Some (event, _) \<Rightarrow> ee_comm event = ''bash'' \<and> ee_parent_comm event = ''nc''))"

lemma fresh_enricher:
  "new_enricher host (Some []) = Inr \<lparr>en_host = host, en_processes = Map.empty, en_max_lineage = 8, en_k8s = None\<rparr>"
  by (simp add: new_enricher_def seed_from_proc_def)

lemma loopback_text: "ipv6_to_string (replicate 15 0 @ [1]) = ''::1''"
  by code_simp

lemma test_path: "cstr_path (pad_to 128 (bytes_of_string ''/bin/bash'')) = ''/bin/bash''"
  by (simp add: cstr_pad)

lemma test_basename: "path_basename ''/bin/bash'' = ''bash''"
  by code_simp

lemma test_comm: "cstr_comm (pad_to 16 (bytes_of_string ''nc'')) = ''nc''"
  by code_simp

lemma ipv6_test: "enriches_ipv6_connect env"
  by (simp add: enriches_ipv6_connect_def fresh_enricher enrich_def lineage_def lineage_loop.simps
      enriched_of_def dst_addr_text_def loopback_v6_event_def test_event_def loopback_text AF_INET6_def Let_def
      del: kind_as_u32.simps replicate.simps)

lemma test_event_sel [simp]:
  "se_kind (test_event k pid ppid uid t comm path) = kind_as_u32 k"
  "se_pid (test_event k pid ppid uid t comm path) = pid" "se_ppid (test_event k pid ppid uid t comm path) = ppid"
  "se_comm (test_event k pid ppid uid t comm path) = pad_to 16 (bytes_of_string comm)"
  "se_path (test_event k pid ppid uid t comm path) = pad_to 128 (bytes_of_string path)"
  by (simp_all add: test_event_def)

text \<open>What enrichment makes of the \<open>/bin/bash\<close> of the tests when its parent is known as \<open>nc\<close>.\<close>

lemma enrich_bash:
  assumes "en_processes en 4241 = Some \<lparr>pi_ppid = p, pi_comm = ''nc''\<rparr>" "p = 0 \<or> en_processes en p = None"
    "p \<noteq> 4242" "card (dom (en_processes en)) < MAX_PROCESSES" "finite (dom (en_processes en))" "en_max_lineage en = 8"
  shows "\<exists>event en'. enrich env en (test_event Exec 4242 4241 1000 1 ''nc'' ''/bin/bash'') = Some (event, en') \<and>
    ee_kind event = ''exec'' \<and> ee_comm event = ''bash'' \<and> ee_parent_comm event = ''nc''"
proof -
  let ?raw = "test_event Exec 4242 4241 1000 1 ''nc'' ''/bin/bash''"
  have comm: "event_comm ?raw = ''bash''"
    by (simp add: event_comm_def test_path test_basename del: kind_as_u32.simps)
  have card: "card (insert 4242 (dom (en_processes en))) \<le> MAX_PROCESSES"
    using assms(4,5) by (simp add: card_insert_if)
  have procs: "en_processes (update_tree en ?raw) =
      (en_processes en)(4242 \<mapsto> \<lparr>pi_ppid = 4241, pi_comm = ''bash''\<rparr>)"
    using card by (simp add: update_tree_def event_comm_exec comm del: kind_as_u32.simps)
  have len: "en_max_lineage (update_tree en ?raw) = 8"
    using assms(6) by (simp add: update_tree_def Let_def)
  have "lineage (update_tree en ?raw) 4241 = Some [''nc'']"
    using assms(1-3) unfolding lineage_def procs len
    by (subst lineage_loop.simps, subst lineage_loop.simps) (auto simp: word_gt_0)
  then show ?thesis
    using assms(1)
    by (simp add: enrich_def Let_def) (simp add: enriched_of_def procs comm Let_def del: kind_as_u32.simps)
qed

lemma exec_test: "exec_comm_derived_from_path env"
  using enrich_bash [of "\<lparr>en_host = ''test-host'', en_processes = [4241 \<mapsto> \<lparr>pi_ppid = 1, pi_comm = ''nc''\<rparr>],
      en_max_lineage = 8, en_k8s = None\<rparr>" 1 env]
  by (auto simp: exec_comm_derived_from_path_def fresh_enricher MAX_PROCESSES_def)

subsection \<open>\<open>tests/integration.rs\<close>\<close>

text \<open>Paths are relative to the root of the workspace. The rules of the examples:\<close>

definition demo_rule :: "yval rule" where
  "demo_rule =
     \<lparr>ru_id = ''DEMO-TMP-ECHO-001'', ru_title = ''Echo Binary Executed from /tmp'',
      ru_description =
        ''Lab detection for the custom-rule example. Copy into rules/ to combine '' @
        ''with bundled detections, or use examples/config/custom-rule-lab.yaml.'' @ [CHR 0x0A],
      ru_severity = ''medium'', ru_enabled = True, ru_tags = [''demo'', ''execution'', ''lab''],
      ru_mitre = attack ''Execution'' ''T1059.004'',
      ru_conditions = CG_All [on ''kind'' Eq ''exec'', on ''path'' Prefix ''/tmp/'', on ''comm'' Eq ''echo''],
      ru_actions = [''alert'']\<rparr>"

definition demo_doc :: yval where
  "demo_doc = Y_Map
     [(Y_Str ''title'', Y_Str ''Shell from Writable Temp Directory''),
      (Y_Str ''id'', Y_Str ''demo-tmp-shell-001''),
      (Y_Str ''status'', Y_Str ''experimental''),
      (Y_Str ''description'', Y_Str (''Sigma lab rule '' @ [CHR 0xE2, CHR 0x80, CHR 0x94] @
         '' shell executed from /tmp (imported with sigma- prefix).'')),
      (Y_Str ''logsource'', Y_Map
        [(Y_Str ''category'', Y_Str ''process_creation''), (Y_Str ''product'', Y_Str ''linux'')]),
      (Y_Str ''detection'', Y_Map
        [(Y_Str ''selection'', Y_Map
           [(Y_Str ''Image|endswith'', Y_Str ''sh''), (Y_Str ''CommandLine|contains'', Y_Str ''/tmp/'')]),
         (Y_Str ''condition'', Y_Str ''selection'')]),
      (Y_Str ''level'', Y_Str ''high''),
      (Y_Str ''tags'', Y_Seq [Y_Str ''attack.t1059.004''])]"

definition examples_host :: "yval rule_env \<Rightarrow> bool" where
  "examples_host env \<longleftrightarrow>
     has_rule_files env ''examples/rules'' [(''examples/rules/demo-tmp-echo.yaml'', demo_rule)] \<and>
     has_sigma_file env ''examples/sigma'' ''examples/sigma/demo_tmp_shell.yml'' demo_doc"

definition loaded ::
  "(string \<Rightarrow> string) \<Rightarrow> (string \<Rightarrow> string) \<Rightarrow> 're regex_api \<Rightarrow> yval rule_env \<Rightarrow> config \<Rightarrow>
   ((yval, 're) rule_engine \<Rightarrow> bool) \<Rightarrow> bool" where
  "loaded lower upper rx env c check \<longleftrightarrow>
     (case load_from_config lower upper yval_api rx env c of Inr engine \<Rightarrow> check engine | Inl _ \<Rightarrow> False)"

definition loads_examples_custom_rule_lab ::
  "(string \<Rightarrow> string) \<Rightarrow> (string \<Rightarrow> string) \<Rightarrow> 're regex_api \<Rightarrow> yval rule_env \<Rightarrow> string option \<Rightarrow> bool" where
  "loads_examples_custom_rule_lab lower upper rx env hn \<longleftrightarrow>
     loaded lower upper rx env
       ((config_default hn)\<lparr>cfg_rules_dir := ''examples/rules'', cfg_sigma_dir := Some ''examples/sigma''\<rparr>)
       (\<lambda>engine. 2 \<le> length engine)"

definition loads_native_and_sigma_rules ::
  "(string \<Rightarrow> string) \<Rightarrow> (string \<Rightarrow> string) \<Rightarrow> 're regex_api \<Rightarrow> yval rule_env \<Rightarrow> string option \<Rightarrow> bool" where
  "loads_native_and_sigma_rules lower upper rx env hn \<longleftrightarrow>
     loaded lower upper rx env
       ((config_default hn)\<lparr>cfg_rules_dir := ''rules'', cfg_sigma_dir := Some ''sigma''\<rparr>)
       (\<lambda>engine. 7 \<le> length engine)"

definition end_to_end_rule_match_without_ebpf ::
  "(string \<Rightarrow> string) \<Rightarrow> (string \<Rightarrow> string) \<Rightarrow> 're regex_api \<Rightarrow> yval rule_env \<Rightarrow> string option \<Rightarrow> enrich_env \<Rightarrow> bool" where
  "end_to_end_rule_match_without_ebpf lower upper rx env hn eenv \<longleftrightarrow>
     loaded lower upper rx env
       ((config_default hn)\<lparr>cfg_rules_dir := ''rules'', cfg_sigma_dir := Some ''sigma''\<rparr>)
       (\<lambda>engine.
          case new_enricher ''integration-test'' (Some []) of
            Inl _ \<Rightarrow> False
          | Inr en \<Rightarrow>
              (case enrich eenv en (test_event ProcessFork 4242 4241 1000 0 ''nc'' []) of
                 None \<Rightarrow> False
               | Some (_, en1) \<Rightarrow>
                   (case enrich eenv en1 (test_event Exec 4242 4241 1000 1 ''nc'' ''/bin/bash'') of
                      None \<Rightarrow> False
                    | Some (event, _) \<Rightarrow>
                        list_ex (\<lambda>a. sublist ''T1059'' (al_rule_id a) \<or> sublist ''sigma'' (al_rule_id a))
                          (evaluate lower yval_api rx engine event))))"

definition bundled_ipv6_rule_matches_numeric_family ::
  "(string \<Rightarrow> string) \<Rightarrow> (string \<Rightarrow> string) \<Rightarrow> 're regex_api \<Rightarrow> yval rule_env \<Rightarrow> string option \<Rightarrow> enrich_env \<Rightarrow> bool" where
  "bundled_ipv6_rule_matches_numeric_family lower upper rx env hn eenv \<longleftrightarrow>
     loaded lower upper rx env ((config_default hn)\<lparr>cfg_rules_dir := ''rules''\<rparr>)
       (\<lambda>engine.
          case new_enricher ''integration-test'' (Some []) of
            Inl _ \<Rightarrow> False
          | Inr en \<Rightarrow>
              (case enrich eenv en (loopback_v6_event 1) of
                 None \<Rightarrow> False
               | Some (event, _) \<Rightarrow>
                   list_ex (\<lambda>a. al_rule_id a = ''NET-IPv6-001'') (evaluate lower yval_api rx engine event)))"

definition loads_rules_from_directory :: "'re regex_api \<Rightarrow> yval rule_env \<Rightarrow> bool" where
  "loads_rules_from_directory rx env \<longleftrightarrow>
     (case load_dir yval_api rx env ''rules'' of Inr engine \<Rightarrow> 5 \<le> length engine | Inl _ \<Rightarrow> False)"

text \<open>The enricher after the fork event: the parent has the name that the event carries.\<close>

lemma enrich_fork:
  "\<exists>event. enrich env \<lparr>en_host = host, en_processes = Map.empty, en_max_lineage = 8, en_k8s = None\<rparr>
       (test_event ProcessFork 4242 4241 1000 0 ''nc'' []) =
     Some (event, \<lparr>en_host = host,
       en_processes = [4242 \<mapsto> \<lparr>pi_ppid = 4241, pi_comm = []\<rparr>, 4241 \<mapsto> \<lparr>pi_ppid = 0, pi_comm = ''nc''\<rparr>],
       en_max_lineage = 8, en_k8s = None\<rparr>)"
proof -
  let ?en = "\<lparr>en_host = host,
       en_processes = [4242 \<mapsto> \<lparr>pi_ppid = 4241, pi_comm = []\<rparr>, 4241 \<mapsto> \<lparr>pi_ppid = 0, pi_comm = ''nc''\<rparr>],
       en_max_lineage = 8, en_k8s = None\<rparr>"
  have tree: "update_tree \<lparr>en_host = host, en_processes = Map.empty, en_max_lineage = 8, en_k8s = None\<rparr>
      (test_event ProcessFork 4242 4241 1000 0 ''nc'' []) = ?en"
    by (rule enricher.equality)
      (simp_all add: update_tree_def fork_update_def test_comm Let_def MAX_PROCESSES_def card_insert_if
        del: kind_as_u32.simps)
  have "lineage ?en 4241 = Some [''nc'']"
    unfolding lineage_def by (simp add: lineage_loop.simps)
  then show ?thesis by (simp add: enrich_def Let_def tree)
qed

lemma load_tests:
  assumes "rule_patterns rx" "delivered_host env"
  shows "loads_native_and_sigma_rules lower upper rx env hn"
proof -
  let ?c = "(config_default hn)\<lparr>cfg_rules_dir := ''rules'', cfg_sigma_dir := Some ''sigma''\<rparr>"
  obtain engine where "load_from_config lower upper yval_api rx env ?c = Inr engine"
    and rules: "map cr_rule engine = delivered_rules @ [nc_shell_rule]"
    using delivered_engine [OF assms, of ?c lower upper] by auto
  moreover have "length engine = 7"
    using arg_cong [OF rules, of length] by (simp add: delivered_rules_def delivered_files_def)
  ultimately show ?thesis by (simp add: loads_native_and_sigma_rules_def loaded_def)
qed

lemma directory_test:
  assumes "rule_patterns rx" "delivered_host env"
  shows "loads_rules_from_directory rx env"
proof -
  obtain native where native: "list_all2 (\<lambda>r c. compiled_rule_new yval_api rx r = Inr c) delivered_rules native"
    using rule_patterns.delivered_compiles [OF assms(1)] by (auto simp: list_all2_append1)
  from list_all2_lengthD [OF this] have "length native = 6"
    by (simp add: delivered_rules_def delivered_files_def)
  then show ?thesis
    using delivered_native [OF assms(2) native] by (simp add: loads_rules_from_directory_def)
qed

lemma end_to_end_test:
  assumes "rule_patterns rx" "delivered_host env"
  shows "end_to_end_rule_match_without_ebpf lower upper rx env hn eenv"
proof -
  let ?c = "(config_default hn)\<lparr>cfg_rules_dir := ''rules'', cfg_sigma_dir := Some ''sigma''\<rparr>"
  obtain engine where load: "load_from_config lower upper yval_api rx env ?c = Inr engine"
    and alerts: "\<And>event. map al_rule_id (evaluate lower yval_api rx engine event) = detections lower event"
    using delivered_engine [OF assms, of ?c lower upper] by auto
  let ?en = "\<lparr>en_host = ''integration-test'',
       en_processes = [4242 \<mapsto> \<lparr>pi_ppid = 4241, pi_comm = []\<rparr>, 4241 \<mapsto> \<lparr>pi_ppid = 0, pi_comm = ''nc''\<rparr>],
       en_max_lineage = 8, en_k8s = None\<rparr>"
  obtain e0 where fork: "enrich eenv \<lparr>en_host = ''integration-test'', en_processes = Map.empty,
      en_max_lineage = 8, en_k8s = None\<rparr> (test_event ProcessFork 4242 4241 1000 0 ''nc'' []) = Some (e0, ?en)"
    using enrich_fork by blast
  obtain event en' where exec:
    "enrich eenv ?en (test_event Exec 4242 4241 1000 1 ''nc'' ''/bin/bash'') = Some (event, en')"
    and event: "ee_kind event = ''exec''" "ee_comm event = ''bash''" "ee_parent_comm event = ''nc''"
    using enrich_bash [of ?en 0 eenv] by (auto simp: MAX_PROCESSES_def card_insert_if)
  have "''T1059.004-001'' \<in> set (detections lower event)"
    by (simp add: detections_def event kind_is_def shells_def network_tools_def)
  then obtain a where "a \<in> set (evaluate lower yval_api rx engine event)" "al_rule_id a = ''T1059.004-001''"
    using arg_cong [OF alerts, of set event] by force
  moreover have "sublist ''T1059'' ''T1059.004-001''" by code_simp
  ultimately have "list_ex (\<lambda>a. sublist ''T1059'' (al_rule_id a) \<or> sublist ''sigma'' (al_rule_id a))
      (evaluate lower yval_api rx engine event)"
    unfolding list_ex_iff by metis
  then show ?thesis
    by (simp add: end_to_end_rule_match_without_ebpf_def loaded_def load fresh_enricher fork exec)
qed

lemma ipv6_rule_test:
  assumes "rule_patterns rx" "delivered_host env"
  shows "bundled_ipv6_rule_matches_numeric_family lower upper rx env hn eenv"
proof -
  let ?c = "(config_default hn)\<lparr>cfg_rules_dir := ''rules''\<rparr>"
  obtain engine where load: "load_from_config lower upper yval_api rx env ?c = Inr engine"
    and alerts: "\<And>event. map al_rule_id (evaluate lower yval_api rx engine event) = detections lower event"
    using delivered_engine [OF assms, of ?c lower upper] by (auto simp: config_default_def)
  obtain event en' where enrich: "enrich eenv \<lparr>en_host = ''integration-test'', en_processes = Map.empty,
      en_max_lineage = 8, en_k8s = None\<rparr> (loopback_v6_event 1) = Some (event, en')"
    and event: "ee_kind event = ''connect''" "ee_addr_family event = Some AF_INET6"
    by (simp add: enrich_def lineage_def lineage_loop.simps enriched_of_def loopback_v6_event_def
        test_event_def AF_INET6_def Let_def del: kind_as_u32.simps replicate.simps)
  have "''NET-IPv6-001'' \<in> set (detections lower event)"
    by (simp add: detections_def event kind_is_def)
  then have "list_ex (\<lambda>a. al_rule_id a = ''NET-IPv6-001'') (evaluate lower yval_api rx engine event)"
    using arg_cong [OF alerts, of set event] by (force simp: list_ex_iff)
  then show ?thesis
    by (simp add: bundled_ipv6_rule_matches_numeric_family_def loaded_def load fresh_enricher enrich)
qed

lemma examples_test:
  assumes "examples_host env"
  shows "loads_examples_custom_rule_lab lower upper rx env hn"
proof -
  let ?c = "(config_default hn)\<lparr>cfg_rules_dir := ''examples/rules'', cfg_sigma_dir := Some ''examples/sigma''\<rparr>"
  obtain c where "compiled_rule_new yval_api rx demo_rule = Inr c"
    by (simp add: compiled_rule_new_def demo_rule_def on_def)
  moreover have "path_extension ''examples/rules/demo-tmp-echo.yaml'' \<noteq> Some ''yml''"
    by code_simp
  ultimately have native: "load_dir yval_api rx env (cfg_rules_dir ?c) = Inr [c]"
    using assms by (intro load_rule_files) (auto simp: examples_host_def)
  have "case translate_sigma lower upper yval_api demo_doc of
      Inr r \<Rightarrow> \<forall>cond \<in> set (iter_conditions (ru_conditions r)). cd_op cond \<noteq> Regex | Inl _ \<Rightarrow> False"
    by code_simp
  then obtain r where r: "translate_sigma lower upper yval_api demo_doc = Inr r"
    and plain: "\<forall>cond \<in> set (iter_conditions (ru_conditions r)). cd_op cond \<noteq> Regex"
    by (auto split: sum.splits)
  have "compile_regexes yval_api rx rid cs m = Inr m" if "\<forall>cond \<in> set cs. cd_op cond \<noteq> Regex" for rid cs m
    using that by (induction cs) auto
  with plain obtain s where s: "compiled_rule_new yval_api rx r = Inr s"
    by (simp add: compiled_rule_new_def)
  have "has_sigma_file env ''examples/sigma'' ''examples/sigma/demo_tmp_shell.yml'' demo_doc"
    using assms by (simp add: examples_host_def)
  from load_with_sigma [OF native _ this r s]
  show ?thesis by (simp add: loads_examples_custom_rule_lab_def loaded_def)
qed

subsection \<open>\<open>metrics.rs\<close>\<close>

definition exposes_expected_metric_names :: bool where
  "exposes_expected_metric_names \<longleftrightarrow>
     ''sentinel_events_total'' \<in> set metric_names \<and> ''sentinel_alerts_total'' \<in> set metric_names"

lemma constant_test: "exposes_expected_metric_names"
  by code_simp

end
