(* ===== verification/Serde.thy ===== *)
theory Serde
  imports Prelude "HOL-Library.Monad_Syntax"
begin

text \<open>
  What \<open>#[derive(Serialize, Deserialize)]\<close> makes of the structs of the sources, with the attributes
  they use (\<open>default\<close>, \<open>alias\<close>, \<open>tag\<close>, \<open>untagged\<close>, \<open>skip_serializing_if\<close>). The data format is an
  argument: how a value is taken apart (\<open>de_api\<close>) and built (\<open>ser_api\<close>). What a format promises is
  the locale \<open>serde_format\<close>: what was built is taken apart again. It is interpreted on YAML values
  and on JSON values.
\<close>

subsection \<open>Formats\<close>

text \<open>
  The entries of a struct or map under their keys, the elements of a sequence, and scalars;
  \<open>de_float\<close> answers the bit pattern of a 64-bit float.
\<close>

record 'v de_api =
  de_struct :: "'v \<Rightarrow> (string \<times> 'v) list option"
  de_seq :: "'v \<Rightarrow> 'v list option"
  de_str :: "'v \<Rightarrow> string option"
  de_bool :: "'v \<Rightarrow> bool option"
  de_nat :: "'v \<Rightarrow> nat option"
  de_float :: "'v \<Rightarrow> u64 option"
  de_null :: "'v \<Rightarrow> bool"

record 'v ser_api =
  ser_struct :: "(string \<times> 'v) list \<Rightarrow> 'v"
  ser_seq :: "'v list \<Rightarrow> 'v"
  ser_str :: "string \<Rightarrow> 'v"
  ser_bool :: "bool \<Rightarrow> 'v"
  ser_nat :: "nat \<Rightarrow> 'v"
  ser_float :: "u64 \<Rightarrow> 'v"
  ser_null :: 'v

subsection \<open>Fields\<close>

text \<open>
  The values given for a field under any of its names. A field given twice is an error; a missing
  one is an error unless it has a default. Keys that name no field are ignored.
\<close>

definition given :: "string list \<Rightarrow> (string \<times> 'v) list \<Rightarrow> 'v list" where
  "given names entries = map snd (filter (\<lambda>(k, _). k \<in> set names) entries)"

definition required :: "string list \<Rightarrow> (string \<times> 'v) list \<Rightarrow> ('v \<Rightarrow> 'a option) \<Rightarrow> 'a option" where
  "required names entries de = (case given names entries of [v] \<Rightarrow> de v | _ \<Rightarrow> None)"

definition defaulted :: "string \<Rightarrow> (string \<times> 'v) list \<Rightarrow> 'a \<Rightarrow> ('v \<Rightarrow> 'a option) \<Rightarrow> 'a option" where
  "defaulted name entries d de =
     (case given [name] entries of [] \<Rightarrow> Some d | [v] \<Rightarrow> de v | _ \<Rightarrow> None)"

lemmas field_defs = required_def defaulted_def

definition de_option :: "'v de_api \<Rightarrow> ('v \<Rightarrow> 'a option) \<Rightarrow> 'v \<Rightarrow> 'a option option" where
  "de_option f de v = (if de_null f v then Some None else map_option Some (de v))"

definition de_list :: "'v de_api \<Rightarrow> ('v \<Rightarrow> 'a option) \<Rightarrow> 'v \<Rightarrow> 'a list option" where
  "de_list f de v = Option.bind (de_seq f v) (\<lambda>vs. those (map de vs))"

text \<open>An unsigned integer of a width: a number out of its range is an error.\<close>

definition de_word :: "'v de_api \<Rightarrow> 'v \<Rightarrow> 'w::len word option" where
  "de_word f v =
     Option.bind (de_nat f v) (\<lambda>n. if n < 2 ^ LENGTH('w) then Some (word_of_nat n) else None)"

text \<open>A \<open>HashMap\<close> takes the entries in order; a later value replaces an earlier one.\<close>

definition de_map :: "'v de_api \<Rightarrow> ('v \<Rightarrow> 'a option) \<Rightarrow> 'v \<Rightarrow> (string \<rightharpoonup> 'a) option" where
  "de_map f de v =
     Option.bind (de_struct f v) (\<lambda>entries.
       map_option (\<lambda>kvs. map_of (rev kvs)) (those (map (\<lambda>(k, x). map_option (Pair k) (de x)) entries)))"

definition ser_option :: "'v ser_api \<Rightarrow> ('a \<Rightarrow> 'v) \<Rightarrow> 'a option \<Rightarrow> 'v" where
  "ser_option f ser x = (case x of Some a \<Rightarrow> ser a | None \<Rightarrow> ser_null f)"

definition ser_list :: "'v ser_api \<Rightarrow> ('a \<Rightarrow> 'v) \<Rightarrow> 'a list \<Rightarrow> 'v" where
  "ser_list f ser xs = ser_seq f (map ser xs)"

definition ser_word :: "'v ser_api \<Rightarrow> 'w::len word \<Rightarrow> 'v" where
  "ser_word f w = ser_nat f (unat w)"

text \<open>\<open>skip_serializing_if\<close>: the field is left out.\<close>

definition unless :: "bool \<Rightarrow> string \<Rightarrow> 'v \<Rightarrow> (string \<times> 'v) list" where
  "unless skip name v = (if skip then [] else [(name, v)])"

lemma given_simps [simp]:
  "given names [] = []"
  "k \<in> set names \<Longrightarrow> given names ((k, v) # es) = v # given names es"
  "k \<notin> set names \<Longrightarrow> given names ((k, v) # es) = given names es"
  "given names (es @ fs) = given names es @ given names fs"
  by (simp_all add: given_def)

lemma given_unless [simp]:
  "k \<in> set names \<Longrightarrow> given names (unless skip k v) = (if skip then [] else [v])"
  "k \<notin> set names \<Longrightarrow> given names (unless skip k v) = []"
  by (simp_all add: unless_def)

lemma those_map_Some: "(\<And>x. x \<in> set xs \<Longrightarrow> f x = Some (g x)) \<Longrightarrow> those (map f xs) = Some (map g xs)"
  by (induction xs) auto

lemma those_Some_iff: "those xs = Some ys \<longleftrightarrow> xs = map Some ys"
  by (induction xs arbitrary: ys) (auto split: option.splits)

subsection \<open>What a format promises\<close>

locale serde_format =
  fixes de :: "'v de_api" and ser :: "'v ser_api"
  assumes struct_back [simp]: "distinct (map fst es) \<Longrightarrow> de_struct de (ser_struct ser es) = Some es"
    and seq_back [simp]: "de_seq de (ser_seq ser vs) = Some vs"
    and str_back [simp]: "de_str de (ser_str ser s) = Some s"
    and bool_back [simp]: "de_bool de (ser_bool ser b) = Some b"
    and nat_back [simp]: "n < 2 ^ 64 \<Longrightarrow> de_nat de (ser_nat ser n) = Some n"
    and null_back [simp]: "de_null de (ser_null ser)"
    and not_null [simp]: "\<not> de_null de (ser_struct ser es)" "\<not> de_null de (ser_seq ser vs)"
      "\<not> de_null de (ser_str ser s)" "\<not> de_null de (ser_bool ser b)" "\<not> de_null de (ser_nat ser n)"
begin

lemma word_back [simp]: "LENGTH('w::len) \<le> 64 \<Longrightarrow> de_word de (ser_word ser (w :: 'w word)) = Some w"
proof -
  assume "LENGTH('w) \<le> 64"
  then have "(2 :: nat) ^ LENGTH('w) \<le> 2 ^ 64" by (intro power_increasing) simp_all
  then have "unat w < 2 ^ 64" using unsigned_less [of w] by (meson less_le_trans)
  then show ?thesis by (simp add: de_word_def ser_word_def)
qed

lemma list_back [simp]:
  "(\<And>x. x \<in> set xs \<Longrightarrow> f (g x) = Some x) \<Longrightarrow> de_list de f (ser_list ser g xs) = Some xs"
  by (simp add: de_list_def ser_list_def comp_def those_map_Some [where g = "\<lambda>x. x"])

lemma option_back [simp]:
  "(\<And>a. x = Some a \<Longrightarrow> f (g a) = Some a \<and> \<not> de_null de (g a)) \<Longrightarrow>
   de_option de f (ser_option ser g x) = Some x"
  by (cases x) (simp_all add: de_option_def ser_option_def)

lemma word_not_null [simp]: "\<not> de_null de (ser_word ser w)"
  by (simp add: ser_word_def)

lemma map_back [simp]:
  assumes "distinct (map fst kvs)" "\<And>k x. (k, x) \<in> set kvs \<Longrightarrow> f (g x) = Some x"
  shows "de_map de f (ser_struct ser (map (\<lambda>(k, x). (k, g x)) kvs)) = Some (map_of kvs)"
proof -
  let ?es = "map (\<lambda>(k, x). (k, g x)) kvs"
  have "map fst ?es = map fst kvs" by auto
  then have "de_struct de (ser_struct ser ?es) = Some ?es"
    using assms(1) by (intro struct_back) (simp only:)
  moreover have "those (map (\<lambda>(k, x). map_option (Pair k) (f x)) ?es) = Some kvs"
    using assms(2) by (simp only: those_Some_iff map_map comp_def) (auto intro!: map_cong)
  moreover have "map_of (rev kvs) = map_of kvs"
    using assms(1) by (simp add: map_of_inject_set rev_map [symmetric])
  ultimately show ?thesis by (simp add: de_map_def)
qed

end

subsection \<open>JSON\<close>

text \<open>The values of \<open>serde_json\<close>: unsigned integers, floats by their bits; an object keeps the order.\<close>

datatype json =
    J_Null
  | J_Bool bool
  | J_Nat nat
  | J_Float u64
  | J_Str string
  | J_Arr "json list"
  | J_Obj "(string \<times> json) list"

definition json_de :: "json de_api" where
  "json_de =
     \<lparr>de_struct = (\<lambda>v. case v of J_Obj es \<Rightarrow> Some es | _ \<Rightarrow> None),
      de_seq = (\<lambda>v. case v of J_Arr vs \<Rightarrow> Some vs | _ \<Rightarrow> None),
      de_str = (\<lambda>v. case v of J_Str s \<Rightarrow> Some s | _ \<Rightarrow> None),
      de_bool = (\<lambda>v. case v of J_Bool b \<Rightarrow> Some b | _ \<Rightarrow> None),
      de_nat = (\<lambda>v. case v of J_Nat n \<Rightarrow> Some n | _ \<Rightarrow> None),
      de_float = (\<lambda>v. case v of J_Float w \<Rightarrow> Some w | _ \<Rightarrow> None),
      de_null = (\<lambda>v. v = J_Null)\<rparr>"

text \<open>A float that is not a number or infinite is written as \<open>null\<close>.\<close>

definition finite_f64 :: "u64 \<Rightarrow> bool" where
  "finite_f64 w \<longleftrightarrow> drop_bit 52 w AND 0x7FF \<noteq> 0x7FF"

definition json_ser :: "json ser_api" where
  "json_ser =
     \<lparr>ser_struct = J_Obj, ser_seq = J_Arr, ser_str = J_Str, ser_bool = J_Bool, ser_nat = J_Nat,
      ser_float = (\<lambda>w. if finite_f64 w then J_Float w else J_Null), ser_null = J_Null\<rparr>"

interpretation js: serde_format json_de json_ser
  by unfold_locales (simp_all add: json_de_def json_ser_def)

lemma json_float_back: "finite_f64 w \<Longrightarrow> de_float json_de (ser_float json_ser w) = Some w"
  by (simp add: json_de_def json_ser_def)

end
