(* ===== verification/Event_Serde.thy ===== *)
theory Event_Serde
  imports Event Serde
begin

text \<open>
  Events and alerts as data: the derived \<open>Serialize\<close> and \<open>Deserialize\<close> of \<open>event.rs\<close>, in any format,
  with the fields that are left out when they are empty.
\<close>

subsection \<open>Writing\<close>

definition mitre_ser :: "'v ser_api \<Rightarrow> mitre_attack \<Rightarrow> 'v" where
  "mitre_ser f m = ser_struct f
     ([(''tactic'', ser_str f (ma_tactic m)), (''technique'', ser_str f (ma_technique m))] @
      unless (ma_subtechnique m = None) ''subtechnique'' (ser_option f (ser_str f) (ma_subtechnique m)))"

definition triage_ser :: "'v ser_api \<Rightarrow> triage_outcome \<Rightarrow> 'v" where
  "triage_ser f t = ser_struct f
     [(''severity'', ser_str f (to_severity t)), (''summary'', ser_str f (to_summary t)),
      (''reasoning'', ser_str f (to_reasoning t)), (''mitre'', ser_list f (ser_str f) (to_mitre t)),
      (''remediation'', ser_list f (ser_str f) (to_remediation t)),
      (''false_positive_likelihood'', ser_float f (to_false_positive_likelihood t))]"

definition event_ser :: "'v ser_api \<Rightarrow> enriched_event \<Rightarrow> 'v" where
  "event_ser f e = ser_struct f
     ([(''kind'', ser_str f (ee_kind e)), (''pid'', ser_word f (ee_pid e)), (''ppid'', ser_word f (ee_ppid e)),
       (''uid'', ser_word f (ee_uid e)), (''gid'', ser_word f (ee_gid e)),
       (''timestamp_ns'', ser_word f (ee_timestamp_ns e)),
       (''timestamp'', ser_option f (ser_str f) (ee_timestamp e)),
       (''comm'', ser_str f (ee_comm e))] @
      unless (ee_parent_comm e = []) ''parent_comm'' (ser_str f (ee_parent_comm e)) @
      [(''path'', ser_str f (ee_path e))] @
      unless (ee_addr_family e = None) ''addr_family'' (ser_option f (ser_word f) (ee_addr_family e)) @
      [(''dst_addr'', ser_option f (ser_str f) (ee_dst_addr e)),
       (''dst_port'', ser_option f (ser_word f) (ee_dst_port e)),
       (''flags'', ser_word f (ee_flags e)),
       (''lineage'', ser_list f (ser_str f) (ee_lineage e)),
       (''host'', ser_str f (ee_host e))] @
      unless (ee_container_id e = None) ''container_id'' (ser_option f (ser_str f) (ee_container_id e)) @
      unless (ee_pod_name e = None) ''pod_name'' (ser_option f (ser_str f) (ee_pod_name e)) @
      unless (ee_pod_namespace e = None) ''pod_namespace'' (ser_option f (ser_str f) (ee_pod_namespace e)) @
      unless (ee_pod_image e = None) ''pod_image'' (ser_option f (ser_str f) (ee_pod_image e)))"

definition alert_ser :: "'v ser_api \<Rightarrow> alert \<Rightarrow> 'v" where
  "alert_ser f a = ser_struct f
     ([(''rule_id'', ser_str f (al_rule_id a)), (''title'', ser_str f (al_title a)),
       (''severity'', ser_str f (al_severity a)), (''description'', ser_str f (al_description a)),
       (''tags'', ser_list f (ser_str f) (al_tags a))] @
      unless (al_mitre a = None) ''mitre'' (ser_option f (mitre_ser f) (al_mitre a)) @
      [(''event'', event_ser f (al_event a))] @
      unless (al_triage a = None) ''triage'' (ser_option f (triage_ser f) (al_triage a)) @
      [(''timestamp_ns'', ser_word f (al_timestamp_ns a))])"

subsection \<open>Reading\<close>

definition mitre_of :: "'v de_api \<Rightarrow> 'v \<Rightarrow> mitre_attack option" where
  "mitre_of f v = do {
     es \<leftarrow> de_struct f v;
     tactic \<leftarrow> defaulted ''tactic'' es [] (de_str f);
     technique \<leftarrow> defaulted ''technique'' es [] (de_str f);
     subtechnique \<leftarrow> defaulted ''subtechnique'' es None (de_option f (de_str f));
     Some \<lparr>ma_tactic = tactic, ma_technique = technique, ma_subtechnique = subtechnique\<rparr>
   }"

definition triage_of :: "'v de_api \<Rightarrow> 'v \<Rightarrow> triage_outcome option" where
  "triage_of f v = do {
     es \<leftarrow> de_struct f v;
     severity \<leftarrow> required [''severity''] es (de_str f);
     summary \<leftarrow> required [''summary''] es (de_str f);
     reasoning \<leftarrow> required [''reasoning''] es (de_str f);
     mitre \<leftarrow> required [''mitre''] es (de_list f (de_str f));
     remediation \<leftarrow> required [''remediation''] es (de_list f (de_str f));
     false_positive_likelihood \<leftarrow> required [''false_positive_likelihood''] es (de_float f);
     Some \<lparr>to_severity = severity, to_summary = summary, to_reasoning = reasoning, to_mitre = mitre,
       to_remediation = remediation, to_false_positive_likelihood = false_positive_likelihood\<rparr>
   }"

text \<open>A missing \<open>Option\<close> is \<open>None\<close> also without the attribute \<open>default\<close>.\<close>

definition event_of_data :: "'v de_api \<Rightarrow> 'v \<Rightarrow> enriched_event option" where
  "event_of_data f v = do {
     es \<leftarrow> de_struct f v;
     kind \<leftarrow> required [''kind''] es (de_str f);
     pid \<leftarrow> required [''pid''] es (de_word f);
     ppid \<leftarrow> required [''ppid''] es (de_word f);
     uid \<leftarrow> required [''uid''] es (de_word f);
     gid \<leftarrow> required [''gid''] es (de_word f);
     timestamp_ns \<leftarrow> required [''timestamp_ns''] es (de_word f);
     timestamp \<leftarrow> defaulted ''timestamp'' es None (de_option f (de_str f));
     comm \<leftarrow> required [''comm''] es (de_str f);
     parent_comm \<leftarrow> defaulted ''parent_comm'' es [] (de_str f);
     path \<leftarrow> required [''path''] es (de_str f);
     addr_family \<leftarrow> defaulted ''addr_family'' es None (de_option f (de_word f));
     dst_addr \<leftarrow> defaulted ''dst_addr'' es None (de_option f (de_str f));
     dst_port \<leftarrow> defaulted ''dst_port'' es None (de_option f (de_word f));
     flags \<leftarrow> required [''flags''] es (de_word f);
     lin \<leftarrow> required [''lineage''] es (de_list f (de_str f));
     host \<leftarrow> required [''host''] es (de_str f);
     container_id \<leftarrow> defaulted ''container_id'' es None (de_option f (de_str f));
     pod_name \<leftarrow> defaulted ''pod_name'' es None (de_option f (de_str f));
     pod_namespace \<leftarrow> defaulted ''pod_namespace'' es None (de_option f (de_str f));
     pod_image \<leftarrow> defaulted ''pod_image'' es None (de_option f (de_str f));
     Some \<lparr>ee_kind = kind, ee_pid = pid, ee_ppid = ppid, ee_uid = uid, ee_gid = gid,
       ee_timestamp_ns = timestamp_ns, ee_timestamp = timestamp, ee_comm = comm,
       ee_parent_comm = parent_comm, ee_path = path, ee_addr_family = addr_family,
       ee_dst_addr = dst_addr, ee_dst_port = dst_port, ee_flags = flags, ee_lineage = lin,
       ee_host = host, ee_container_id = container_id, ee_pod_name = pod_name,
       ee_pod_namespace = pod_namespace, ee_pod_image = pod_image\<rparr>
   }"

definition alert_of_data :: "'v de_api \<Rightarrow> 'v \<Rightarrow> alert option" where
  "alert_of_data f v = do {
     es \<leftarrow> de_struct f v;
     rule_id \<leftarrow> required [''rule_id''] es (de_str f);
     title \<leftarrow> required [''title''] es (de_str f);
     severity \<leftarrow> required [''severity''] es (de_str f);
     description \<leftarrow> required [''description''] es (de_str f);
     tags \<leftarrow> required [''tags''] es (de_list f (de_str f));
     mitre \<leftarrow> defaulted ''mitre'' es None (de_option f (mitre_of f));
     event \<leftarrow> required [''event''] es (event_of_data f);
     triage \<leftarrow> defaulted ''triage'' es None (de_option f (triage_of f));
     timestamp_ns \<leftarrow> required [''timestamp_ns''] es (de_word f);
     Some \<lparr>al_rule_id = rule_id, al_title = title, al_severity = severity, al_description = description,
       al_tags = tags, al_mitre = mitre, al_event = event, al_triage = triage,
       al_timestamp_ns = timestamp_ns\<rparr>
   }"

subsection \<open>What is written is read back\<close>

lemma fst_unless [simp]: "map fst (unless skip k v) = (if skip then [] else [k])"
  by (simp add: unless_def)

lemma set_unless: "x \<in> set (unless skip k v) \<longleftrightarrow> \<not> skip \<and> x = (k, v)"
  by (simp add: unless_def)

text \<open>A format keeps the finite floats only.\<close>

definition float_kept :: "'v de_api \<Rightarrow> 'v ser_api \<Rightarrow> triage_outcome \<Rightarrow> bool" where
  "float_kept de ser t \<longleftrightarrow>
     de_float de (ser_float ser (to_false_positive_likelihood t)) = Some (to_false_positive_likelihood t)"

context serde_format
begin

lemma mitre_back [simp]: "mitre_of de (mitre_ser ser m) = Some m" "\<not> de_null de (mitre_ser ser m)"
  by (simp_all add: mitre_of_def mitre_ser_def field_defs)

lemma triage_back [simp]:
  "float_kept de ser t \<Longrightarrow> triage_of de (triage_ser ser t) = Some t" "\<not> de_null de (triage_ser ser t)"
  by (simp_all add: triage_of_def triage_ser_def field_defs float_kept_def)

lemma event_back [simp]: "event_of_data de (event_ser ser e) = Some e"
  by (simp add: event_of_data_def event_ser_def field_defs)

lemma alert_back [simp]:
  "(\<And>t. al_triage a = Some t \<Longrightarrow> float_kept de ser t) \<Longrightarrow> alert_of_data de (alert_ser ser a) = Some a"
  by (simp add: alert_of_data_def alert_ser_def field_defs)

end

end
