(* ===== verification/Rules_Serde.thy ===== *)
theory Rules_Serde
  imports Rules Event_Serde
begin

text \<open>
  Rule files as data: the derived \<open>Deserialize\<close> of \<open>rules/mod.rs\<close>, in any format, and YAML values as
  a format.
\<close>

subsection \<open>Reading\<close>

text \<open>\<open>rename_all = "snake_case"\<close>, and \<open>matches\<close> as a second name of \<open>Regex\<close>.\<close>

definition operator_of :: "'v de_api \<Rightarrow> 'v \<Rightarrow> operator option" where
  "operator_of f v = do {
     name \<leftarrow> de_str f v;
     map_of [(''eq'', Eq), (''ne'', Ne), (''contains'', Contains), (''prefix'', Prefix), (''suffix'', Suffix),
       (''regex'', Regex), (''matches'', Regex), (''gt'', Gt), (''lt'', Lt)] name
   }"

definition condition_of :: "'v de_api \<Rightarrow> 'v \<Rightarrow> 'v \<Rightarrow> 'v condition option" where
  "condition_of f null v = do {
     es \<leftarrow> de_struct f v;
     fld \<leftarrow> required [''field''] es (de_str f);
     op \<leftarrow> required [''op''] es (operator_of f);
     value \<leftarrow> defaulted ''value'' es null Some;
     Some \<lparr>cd_field = fld, cd_op = op, cd_value = value\<rparr>
   }"

text \<open>\<open>untagged\<close>: the first variant that can be read.\<close>

definition conditions_in :: "string \<Rightarrow> 'v de_api \<Rightarrow> 'v \<Rightarrow> 'v \<Rightarrow> 'v condition list option" where
  "conditions_in name f null v =
     Option.bind (de_struct f v) (\<lambda>es. required [name] es (de_list f (condition_of f null)))"

definition condition_group_of :: "'v de_api \<Rightarrow> 'v \<Rightarrow> 'v \<Rightarrow> 'v condition_group option" where
  "condition_group_of f null v =
     (case conditions_in ''all'' f null v of
        Some all \<Rightarrow> Some (CG_All all)
      | None \<Rightarrow>
          (case conditions_in ''any'' f null v of
             Some any \<Rightarrow> Some (CG_Any any)
           | None \<Rightarrow> map_option CG_Single (condition_of f null v)))"

definition rule_of :: "'v de_api \<Rightarrow> 'v \<Rightarrow> 'v \<Rightarrow> 'v rule option" where
  "rule_of f null v = do {
     es \<leftarrow> de_struct f v;
     rid \<leftarrow> required [''id''] es (de_str f);
     title \<leftarrow> required [''title'', ''name''] es (de_str f);
     description \<leftarrow> defaulted ''description'' es [] (de_str f);
     severity \<leftarrow> defaulted ''severity'' es default_severity (de_str f);
     enabled \<leftarrow> defaulted ''enabled'' es default_true (de_bool f);
     tags \<leftarrow> defaulted ''tags'' es [] (de_list f (de_str f));
     mitre \<leftarrow> defaulted ''mitre'' es None (de_option f (mitre_of f));
     conditions \<leftarrow> required [''conditions''] es (condition_group_of f null);
     actions \<leftarrow> defaulted ''actions'' es [] (de_list f (de_str f));
     Some \<lparr>ru_id = rid, ru_title = title, ru_description = description, ru_severity = severity,
       ru_enabled = enabled, ru_tags = tags, ru_mitre = mitre, ru_conditions = conditions,
       ru_actions = actions\<rparr>
   }"

definition rule_set_of :: "'v de_api \<Rightarrow> 'v \<Rightarrow> 'v \<Rightarrow> 'v rule list option" where
  "rule_set_of f null v =
     Option.bind (de_struct f v) (\<lambda>es. required [''rules''] es (de_list f (rule_of f null)))"

definition rule_file_of :: "'v de_api \<Rightarrow> 'v \<Rightarrow> 'v \<Rightarrow> 'v rule_file option" where
  "rule_file_of f null v =
     (case rule_set_of f null v of
        Some rules \<Rightarrow> Some (RF_Set rules)
      | None \<Rightarrow> map_option RF_Single (rule_of f null v))"

subsection \<open>Every rule can be written\<close>

text \<open>
  The sources only read rules. As a reference, a rule written out with all its fields and the
  first name of each.
\<close>

definition operator_name :: "operator \<Rightarrow> string" where
  "operator_name op =
     (case op of Eq \<Rightarrow> ''eq'' | Ne \<Rightarrow> ''ne'' | Contains \<Rightarrow> ''contains'' | Prefix \<Rightarrow> ''prefix''
      | Suffix \<Rightarrow> ''suffix'' | Regex \<Rightarrow> ''regex'' | Gt \<Rightarrow> ''gt'' | Lt \<Rightarrow> ''lt'')"

definition condition_doc :: "'v ser_api \<Rightarrow> 'v condition \<Rightarrow> (string \<times> 'v) list" where
  "condition_doc f c =
     [(''field'', ser_str f (cd_field c)), (''op'', ser_str f (operator_name (cd_op c))),
      (''value'', cd_value c)]"

definition condition_group_doc :: "'v ser_api \<Rightarrow> 'v condition_group \<Rightarrow> 'v" where
  "condition_group_doc f g =
     (case g of
        CG_All cs \<Rightarrow> ser_struct f [(''all'', ser_list f (ser_struct f \<circ> condition_doc f) cs)]
      | CG_Any cs \<Rightarrow> ser_struct f [(''any'', ser_list f (ser_struct f \<circ> condition_doc f) cs)]
      | CG_Single c \<Rightarrow> ser_struct f (condition_doc f c))"

definition rule_doc :: "'v ser_api \<Rightarrow> 'v rule \<Rightarrow> 'v" where
  "rule_doc f r = ser_struct f
     [(''id'', ser_str f (ru_id r)), (''title'', ser_str f (ru_title r)),
      (''description'', ser_str f (ru_description r)), (''severity'', ser_str f (ru_severity r)),
      (''enabled'', ser_bool f (ru_enabled r)), (''tags'', ser_list f (ser_str f) (ru_tags r)),
      (''mitre'', ser_option f (mitre_ser f) (ru_mitre r)),
      (''conditions'', condition_group_doc f (ru_conditions r)),
      (''actions'', ser_list f (ser_str f) (ru_actions r))]"

context serde_format
begin

lemma operator_back [simp]: "operator_of de (ser_str ser (operator_name op)) = Some op"
  by (cases op) (simp_all add: operator_of_def operator_name_def)

lemma condition_keys [simp]: "map fst (condition_doc ser c) = [''field'', ''op'', ''value'']"
  by (simp add: condition_doc_def)

lemma condition_back [simp]: "condition_of de null (ser_struct ser (condition_doc ser c)) = Some c"
  by (simp add: condition_of_def) (simp add: condition_doc_def field_defs)

lemma conditions_back [simp]:
  "de_list de (condition_of de null) (ser_list ser (ser_struct ser \<circ> condition_doc ser) cs) = Some cs"
  by simp

lemma condition_group_back [simp]: "condition_group_of de null (condition_group_doc ser g) = Some g"
proof (cases g)
  case (CG_Single c)
  have "conditions_in name de null (ser_struct ser (condition_doc ser c)) = None"
    if "name \<notin> {''field'', ''op'', ''value''}" for name
    using that by (simp add: conditions_in_def) (auto simp: condition_doc_def required_def given_def)
  then show ?thesis by (simp add: condition_group_of_def condition_group_doc_def CG_Single)
qed (simp_all add: condition_group_of_def condition_group_doc_def conditions_in_def required_def)

lemma rule_back [simp]: "rule_of de null (rule_doc ser r) = Some r"
  by (simp add: rule_of_def rule_doc_def field_defs)

lemma rule_set_back: "rule_file_of de null (ser_struct ser [(''rules'', ser_list ser (rule_doc ser) rs)]) = Some (RF_Set rs)"
  by (simp add: rule_file_of_def rule_set_of_def required_def)

lemma rule_single_back: "rule_file_of de null (rule_doc ser r) = Some (RF_Single r)"
proof -
  have "rule_set_of de null (rule_doc ser r) = None"
    by (simp add: rule_set_of_def rule_doc_def required_def)
  then show ?thesis by (simp add: rule_file_of_def)
qed

text \<open>Beside \<open>all\<close>, \<open>any\<close> is not looked at.\<close>

lemma any_beside_all:
  assumes "de_list de (condition_of de null) a = Some cs" "distinct [name1, name2]" "{name1, name2} = {''all'', ''any''}"
    "v1 = (if name1 = ''all'' then a else b)" "v2 = (if name2 = ''all'' then a else b)"
  shows "condition_group_of de null (ser_struct ser [(name1, v1), (name2, v2)]) = Some (CG_All cs)"
  using assms by (auto simp: condition_group_of_def conditions_in_def required_def doubleton_eq_iff)

end

subsection \<open>YAML values as a format\<close>

definition yaml_entry :: "yval \<times> yval \<Rightarrow> (string \<times> yval) option" where
  "yaml_entry e = (case fst e of Y_Str k \<Rightarrow> Some (k, snd e) | _ \<Rightarrow> None)"

definition yval_de :: "yval de_api" where
  "yval_de =
     \<lparr>de_struct = (\<lambda>v. case untag v of Y_Map m \<Rightarrow> those (map yaml_entry m) | _ \<Rightarrow> None),
      de_seq = (\<lambda>v. case untag v of Y_Seq vs \<Rightarrow> Some vs | _ \<Rightarrow> None),
      de_str = (\<lambda>v. case untag v of Y_Str s \<Rightarrow> Some s | _ \<Rightarrow> None),
      de_bool = (\<lambda>v. case untag v of Y_Bool b \<Rightarrow> Some b | _ \<Rightarrow> None),
      de_nat = (\<lambda>v. case untag v of Y_Num i \<Rightarrow> if 0 \<le> i then Some (nat i) else None | _ \<Rightarrow> None),
      de_float = (\<lambda>_. None),
      de_null = (\<lambda>v. untag v = Y_Null)\<rparr>"

definition yval_ser :: "yval ser_api" where
  "yval_ser =
     \<lparr>ser_struct = (\<lambda>es. Y_Map (map (\<lambda>(k, v). (Y_Str k, v)) es)), ser_seq = Y_Seq, ser_str = Y_Str,
      ser_bool = Y_Bool, ser_nat = (\<lambda>n. Y_Num (int n)), ser_float = (\<lambda>_. Y_Null), ser_null = Y_Null\<rparr>"

lemma yaml_entries: "those (map yaml_entry (map (\<lambda>(k, v). (Y_Str k, v)) es)) = Some es"
  by (induction es) (auto simp: yaml_entry_def)

interpretation ys: serde_format yval_de yval_ser
  by unfold_locales (simp_all add: yval_de_def yval_ser_def yaml_entries del: map_map list.map)

subsection \<open>What rule files mean\<close>


text \<open>Conditions that hold both an \<open>all\<close> and an \<open>any\<close> list are read as the \<open>all\<close> list, in
  whichever order they stand: the \<open>any\<close> list is dropped without an error, so that a rule meant to
  need one of its conditions as well is raised without them, and the list need not even be valid.\<close>

theorem any_beside_all_ignored:
  assumes "de_list yval_de (condition_of yval_de Y_Null) a = Some cs"
  shows "condition_group_of yval_de Y_Null (Y_Map [(Y_Str ''all'', a), (Y_Str ''any'', b)]) = Some (CG_All cs) \<and>
    condition_group_of yval_de Y_Null (Y_Map [(Y_Str ''any'', b), (Y_Str ''all'', a)]) = Some (CG_All cs)"
  using ys.any_beside_all [OF assms, of "''all''" "''any''" a b b]
    ys.any_beside_all [OF assms, of "''any''" "''all''" b b a]
  by (auto simp: yval_ser_def)

theorem any_beside_all_ignored_witness:
  "condition_group_of yval_de Y_Null (Y_Map [(Y_Str ''all'', Y_Seq []), (Y_Str ''any'', Y_Str ''junk'')]) =
   Some (CG_All [])"
proof -
  have "de_list yval_de (condition_of yval_de Y_Null) (Y_Seq []) = Some []"
    by (simp add: de_list_def yval_de_def)
  from any_beside_all_ignored [OF this, of "Y_Str ''junk''"] show ?thesis by blast
qed

end
