(* ===== verification/Config_Serde.thy ===== *)
theory Config_Serde
  imports Config Serde
begin

text \<open>
  The configuration as data: what the derived \<open>Deserialize\<close> and \<open>Serialize\<close> of \<open>config.rs\<close> make of
  it, in any format. The lemmas show that a written configuration is read back, and what a file
  that leaves fields out means.
\<close>

subsection \<open>Reading\<close>

definition rate_limit_of :: "'v de_api \<Rightarrow> 'v \<Rightarrow> rate_limit_config option" where
  "rate_limit_of f v = do {
     es \<leftarrow> de_struct f v;
     max_alerts \<leftarrow> defaulted ''max_alerts'' es default_max_alerts (de_word f);
     window_secs \<leftarrow> defaulted ''window_secs'' es default_window_secs (de_word f);
     Some \<lparr>rlc_max_alerts = max_alerts, rlc_window_secs = window_secs\<rparr>
   }"

definition suppression_of :: "'v de_api \<Rightarrow> 'v \<Rightarrow> suppression_config option" where
  "suppression_of f v = do {
     es \<leftarrow> de_struct f v;
     dflt \<leftarrow> defaulted ''default'' es rate_limit_config_default (rate_limit_of f);
     rules \<leftarrow> defaulted ''rules'' es Map.empty (de_map f (rate_limit_of f));
     Some \<lparr>sup_default = dflt, sup_rules = rules\<rparr>
   }"

definition triage_config_of :: "'v de_api \<Rightarrow> 'v \<Rightarrow> triage_config option" where
  "triage_config_of f v = do {
     es \<leftarrow> de_struct f v;
     enabled \<leftarrow> defaulted ''enabled'' es False (de_bool f);
     api_key_env \<leftarrow> defaulted ''api_key_env'' es default_api_key_env (de_str f);
     model \<leftarrow> defaulted ''model'' es default_model (de_str f);
     max_tokens \<leftarrow> defaulted ''max_tokens'' es default_max_tokens (de_word f);
     Some \<lparr>tc_enabled = enabled, tc_api_key_env = api_key_env, tc_model = model, tc_max_tokens = max_tokens\<rparr>
   }"

definition metrics_config_of :: "'v de_api \<Rightarrow> 'v \<Rightarrow> metrics_config option" where
  "metrics_config_of f v = do {
     es \<leftarrow> de_struct f v;
     enabled \<leftarrow> defaulted ''enabled'' es False (de_bool f);
     listen \<leftarrow> defaulted ''listen'' es default_metrics_listen (de_str f);
     Some \<lparr>mc_enabled = enabled, mc_listen = listen\<rparr>
   }"

definition k8s_config_of :: "'v de_api \<Rightarrow> 'v \<Rightarrow> k8s_config option" where
  "k8s_config_of f v = do {
     es \<leftarrow> de_struct f v;
     enabled \<leftarrow> defaulted ''enabled'' es False (de_bool f);
     cri_socket \<leftarrow> defaulted ''cri_socket'' es default_cri_socket (de_str f);
     cache_ttl_secs \<leftarrow> defaulted ''cache_ttl_secs'' es default_cache_ttl (de_word f);
     Some \<lparr>kc_enabled = enabled, kc_cri_socket = cri_socket, kc_cache_ttl_secs = cache_ttl_secs\<rparr>
   }"

text \<open>\<open>tag = "type"\<close>: the entry \<open>type\<close> names the variant, the others are its fields.\<close>

definition sink_config_of :: "'v de_api \<Rightarrow> 'v \<Rightarrow> sink_config option" where
  "sink_config_of f v = do {
     es \<leftarrow> de_struct f v;
     tag \<leftarrow> required [''type''] es (de_str f);
     if tag = ''stdout'' then Some SC_Stdout
     else if tag = ''ndjson'' then map_option SC_Ndjson (required [''path''] es (de_str f))
     else if tag = ''grpc'' then map_option SC_Grpc (required [''endpoint''] es (de_str f))
     else None
   }"

definition config_of :: "'v de_api \<Rightarrow> string option \<Rightarrow> 'v \<Rightarrow> config option" where
  "config_of f etc_hostname v = do {
     es \<leftarrow> de_struct f v;
     rules_dir \<leftarrow> defaulted ''rules_dir'' es default_rules_dir (de_str f);
     sigma_dir \<leftarrow> defaulted ''sigma_dir'' es None (de_option f (de_str f));
     monitored_paths \<leftarrow> defaulted ''monitored_paths'' es [] (de_list f (de_str f));
     sinks \<leftarrow> defaulted ''sinks'' es [] (de_list f (sink_config_of f));
     triage \<leftarrow> defaulted ''triage'' es triage_config_default (triage_config_of f);
     host \<leftarrow> defaulted ''host'' es (hostname etc_hostname) (de_str f);
     suppression \<leftarrow> defaulted ''suppression'' es suppression_config_default (suppression_of f);
     metrics \<leftarrow> defaulted ''metrics'' es metrics_config_default (metrics_config_of f);
     k8s \<leftarrow> defaulted ''k8s'' es k8s_config_default (k8s_config_of f);
     Some \<lparr>cfg_rules_dir = rules_dir, cfg_sigma_dir = sigma_dir, cfg_monitored_paths = monitored_paths,
       cfg_sinks = sinks, cfg_triage = triage, cfg_host = host, cfg_suppression = suppression,
       cfg_metrics = metrics, cfg_k8s = k8s\<rparr>
   }"

subsection \<open>Writing\<close>

text \<open>\<open>rules\<close> are the entries of the map of rate limits, in the order in which it is iterated.\<close>

definition rate_limit_ser :: "'v ser_api \<Rightarrow> rate_limit_config \<Rightarrow> 'v" where
  "rate_limit_ser f c = ser_struct f
     [(''max_alerts'', ser_word f (rlc_max_alerts c)), (''window_secs'', ser_word f (rlc_window_secs c))]"

definition suppression_ser :: "'v ser_api \<Rightarrow> (string \<times> rate_limit_config) list \<Rightarrow> suppression_config \<Rightarrow> 'v" where
  "suppression_ser f rules c = ser_struct f
     [(''default'', rate_limit_ser f (sup_default c)),
      (''rules'', ser_struct f (map (\<lambda>(k, x). (k, rate_limit_ser f x)) rules))]"

definition triage_config_ser :: "'v ser_api \<Rightarrow> triage_config \<Rightarrow> 'v" where
  "triage_config_ser f c = ser_struct f
     [(''enabled'', ser_bool f (tc_enabled c)), (''api_key_env'', ser_str f (tc_api_key_env c)),
      (''model'', ser_str f (tc_model c)), (''max_tokens'', ser_word f (tc_max_tokens c))]"

definition metrics_config_ser :: "'v ser_api \<Rightarrow> metrics_config \<Rightarrow> 'v" where
  "metrics_config_ser f c = ser_struct f
     [(''enabled'', ser_bool f (mc_enabled c)), (''listen'', ser_str f (mc_listen c))]"

definition k8s_config_ser :: "'v ser_api \<Rightarrow> k8s_config \<Rightarrow> 'v" where
  "k8s_config_ser f c = ser_struct f
     [(''enabled'', ser_bool f (kc_enabled c)), (''cri_socket'', ser_str f (kc_cri_socket c)),
      (''cache_ttl_secs'', ser_word f (kc_cache_ttl_secs c))]"

definition sink_config_ser :: "'v ser_api \<Rightarrow> sink_config \<Rightarrow> 'v" where
  "sink_config_ser f c = ser_struct f
     (case c of
        SC_Stdout \<Rightarrow> [(''type'', ser_str f ''stdout'')]
      | SC_Ndjson path \<Rightarrow> [(''type'', ser_str f ''ndjson''), (''path'', ser_str f path)]
      | SC_Grpc endpoint \<Rightarrow> [(''type'', ser_str f ''grpc''), (''endpoint'', ser_str f endpoint)])"

definition config_ser :: "'v ser_api \<Rightarrow> (string \<times> rate_limit_config) list \<Rightarrow> config \<Rightarrow> 'v" where
  "config_ser f rules c = ser_struct f
     [(''rules_dir'', ser_str f (cfg_rules_dir c)),
      (''sigma_dir'', ser_option f (ser_str f) (cfg_sigma_dir c)),
      (''monitored_paths'', ser_list f (ser_str f) (cfg_monitored_paths c)),
      (''sinks'', ser_list f (sink_config_ser f) (cfg_sinks c)),
      (''triage'', triage_config_ser f (cfg_triage c)),
      (''host'', ser_str f (cfg_host c)),
      (''suppression'', suppression_ser f rules (cfg_suppression c)),
      (''metrics'', metrics_config_ser f (cfg_metrics c)),
      (''k8s'', k8s_config_ser f (cfg_k8s c))]"

subsection \<open>What is written is read back\<close>

context serde_format
begin

lemma rate_limit_back [simp]: "rate_limit_of de (rate_limit_ser ser c) = Some c"
  by (simp add: rate_limit_of_def rate_limit_ser_def field_defs)

lemma suppression_back [simp]:
  "map_of rules = sup_rules c \<Longrightarrow> distinct (map fst rules) \<Longrightarrow>
   suppression_of de (suppression_ser ser rules c) = Some c"
  by (simp add: suppression_of_def suppression_ser_def field_defs)

lemma triage_config_back [simp]: "triage_config_of de (triage_config_ser ser c) = Some c"
  by (simp add: triage_config_of_def triage_config_ser_def field_defs)

lemma metrics_config_back [simp]: "metrics_config_of de (metrics_config_ser ser c) = Some c"
  by (simp add: metrics_config_of_def metrics_config_ser_def field_defs)

lemma k8s_config_back [simp]: "k8s_config_of de (k8s_config_ser ser c) = Some c"
  by (simp add: k8s_config_of_def k8s_config_ser_def field_defs)

lemma sink_config_back [simp]: "sink_config_of de (sink_config_ser ser c) = Some c"
  by (cases c) (simp_all add: sink_config_of_def sink_config_ser_def field_defs)

lemma config_back:
  "map_of rules = sup_rules (cfg_suppression c) \<Longrightarrow> distinct (map fst rules) \<Longrightarrow>
   config_of de hn (config_ser ser rules c) = Some c"
  by (simp add: config_of_def config_ser_def field_defs)

text \<open>A mapping without any of the fields.\<close>

lemma config_of_unknown:
  assumes "distinct (map fst es)"
    "fst ` set es \<inter> {''rules_dir'', ''sigma_dir'', ''monitored_paths'', ''sinks'', ''triage'', ''host'',
       ''suppression'', ''metrics'', ''k8s''} = {}"
  shows "config_of de hn (ser_struct ser es) =
    Some ((config_default hn)\<lparr>cfg_sigma_dir := None, cfg_monitored_paths := [], cfg_sinks := []\<rparr>)"
proof -
  have "given [k] es = []" if "k \<notin> fst ` set es" for k
    using that by (force simp: given_def filter_empty_conv)
  then show ?thesis
    using assms by (simp add: config_of_def config_default_def defaulted_def)
qed

end

subsection \<open>Files\<close>

text \<open>C25: A configuration that has been written in any format that gives back what was put in is
  read as itself: the field names, the variants of the sinks and the nested structs of writer and
  reader agree, and no default replaces a written value.\<close>

theorem config_read_back:
  assumes "serde_format de ser" "map_of rules = sup_rules (cfg_suppression c)" "distinct (map fst rules)"
  shows "config_of de hn (config_ser ser rules c) = Some c"
  using assms by (rule serde_format.config_back)

definition written_config :: config where
  "written_config = (config_default None)
     \<lparr>cfg_sinks := [SC_Stdout, SC_Ndjson ''/var/log/events.ndjson'', SC_Grpc ''http://soar:50051''],
      cfg_suppression := \<lparr>sup_default = rate_limit_config_default,
        sup_rules = [''FIM-001'' \<mapsto> \<lparr>rlc_max_alerts = 1, rlc_window_secs = 300\<rparr>]\<rparr>\<rparr>"

theorem config_read_back_witness:
  "config_of json_de None
     (config_ser json_ser [(''FIM-001'', \<lparr>rlc_max_alerts = 1, rlc_window_secs = 300\<rparr>)] written_config) = Some written_config"
  by (rule config_read_back [OF js.serde_format_axioms]) (simp_all add: written_config_def)

text \<open>C27: A configuration file that mentions none of the agent's settings does not give the
  configuration of an agent without a file: after normalisation the two agree in everything but the
  Sigma directory, which only the agent without a file has. The empty lists of the file have become
  the default sinks and paths.\<close>

theorem config_file_without_settings:
  assumes "serde_format de ser" "distinct (map fst es)"
    "fst ` set es \<inter> {''rules_dir'', ''sigma_dir'', ''monitored_paths'', ''sinks'', ''triage'', ''host'',
       ''suppression'', ''metrics'', ''k8s''} = {}"
  shows "map_option (normalize hn) (config_of de hn (ser_struct ser es)) =
      Some ((normalize hn (config_default hn))\<lparr>cfg_sigma_dir := None\<rparr>) \<and>
    cfg_sigma_dir (normalize hn (config_default hn)) = Some ''sigma''"
  by (simp add: serde_format.config_of_unknown [OF assms]) (simp add: normalize_def config_default_def)

theorem config_file_without_settings_witness:
  "map_option cfg_sigma_dir (map_option (normalize None) (config_of json_de None (ser_struct json_ser []))) = Some None"
  using config_file_without_settings [OF js.serde_format_axioms, of "[]" None] by auto

end
