(* ===== verification/Delivered_Files.thy ===== *)
theory Delivered_Files
  imports Delivered Rules_Serde Config_Serde
begin

text \<open>
  The files delivered with the agent as the documents that their YAML is, and what the agent's
  deserialisers make of them: the six rule files and the two configurations.
\<close>

subsection \<open>Rule files\<close>

definition yaml_struct :: "(string \<times> yval) list \<Rightarrow> yval" where
  "yaml_struct es = Y_Map (map (\<lambda>(k, v). (Y_Str k, v)) es)"

definition yaml_strings :: "string list \<Rightarrow> yval" where
  "yaml_strings ss = Y_Seq (map Y_Str ss)"










lemma struct_entries [simp]: "de_struct yval_de (yaml_struct es) = Some es"
  by (simp add: yaml_struct_def yval_de_def yaml_entries del: map_map list.map)

lemma scalars [simp]:
  "de_str yval_de (Y_Str s) = Some s" "de_bool yval_de (Y_Bool b) = Some b" "de_seq yval_de (Y_Seq vs) = Some vs"
  "\<not> de_null yval_de (yaml_struct es)"
  by (simp_all add: yval_de_def yaml_struct_def)

lemma read_strings [simp]: "de_list yval_de (de_str yval_de) (yaml_strings ss) = Some ss"
  by (simp add: de_list_def yaml_strings_def comp_def those_map_Some [where g = "\<lambda>x. x"])






subsection \<open>Configurations\<close>

definition sentinel_file :: yval where
  "sentinel_file = yaml_struct
     [(''host'', Y_Str ''sentinel-host-01''), (''rules_dir'', Y_Str ''rules''), (''sigma_dir'', Y_Str ''sigma''),
      (''monitored_paths'', yaml_strings [''/etc/passwd'', ''/etc/shadow'', ''/etc/sudoers'', ''/etc/ssh/sshd_config'']),
      (''sinks'', Y_Seq
        [yaml_struct [(''type'', Y_Str ''stdout'')],
         yaml_struct [(''type'', Y_Str ''ndjson''), (''path'', Y_Str ''/tmp/sentinel/events.ndjson'')]]),
      (''triage'', yaml_struct
        [(''enabled'', Y_Bool False), (''api_key_env'', Y_Str ''ANTHROPIC_API_KEY''),
         (''model'', Y_Str ''claude-sonnet-4-20250514''), (''max_tokens'', Y_Num 1024)]),
      (''metrics'', yaml_struct [(''enabled'', Y_Bool True), (''listen'', Y_Str ''0.0.0.0:9090'')]),
      (''k8s'', yaml_struct
        [(''enabled'', Y_Bool False), (''cri_socket'', Y_Str ''/run/containerd/containerd.sock''),
         (''cache_ttl_secs'', Y_Num 30)]),
      (''suppression'', yaml_struct
        [(''default'', yaml_struct [(''max_alerts'', Y_Num 10), (''window_secs'', Y_Num 60)]),
         (''rules'', yaml_struct
           [(''FIM-001'', yaml_struct [(''max_alerts'', Y_Num 1), (''window_secs'', Y_Num 300)])])])]"

definition sentinel_grpc_file :: yval where
  "sentinel_grpc_file = yaml_struct
     [(''host'', Y_Str ''sentinel-grpc-demo''), (''rules_dir'', Y_Str ''rules''), (''sigma_dir'', Y_Str ''sigma''),
      (''monitored_paths'', yaml_strings [''/etc/passwd'', ''/etc/shadow'']),
      (''sinks'', Y_Seq
        [yaml_struct [(''type'', Y_Str ''stdout'')],
         yaml_struct [(''type'', Y_Str ''grpc''), (''endpoint'', Y_Str ''http://127.0.0.1:50051'')]]),
      (''triage'', yaml_struct [(''enabled'', Y_Bool False)]),
      (''metrics'', yaml_struct [(''enabled'', Y_Bool True), (''listen'', Y_Str ''127.0.0.1:9090'')]),
      (''k8s'', yaml_struct [(''enabled'', Y_Bool False)]),
      (''suppression'', yaml_struct
        [(''default'', yaml_struct [(''max_alerts'', Y_Num 10), (''window_secs'', Y_Num 60)])])]"

lemma read_numbers [simp]: "de_nat yval_de (Y_Num (numeral n)) = Some (numeral n)" "de_nat yval_de (Y_Num 1) = Some 1"
  by (simp_all add: yval_de_def)

lemma read_word [simp]:
  "numeral n < (2 :: nat) ^ LENGTH('w) \<Longrightarrow> de_word yval_de (Y_Num (numeral n)) = Some (numeral n :: 'w::len word)"
  "de_word yval_de (Y_Num 1) = Some (1 :: 'w::len word)"
  by (simp_all add: de_word_def one_less_power del: One_nat_def)

lemma read_seq: "de_list yval_de f (Y_Seq vs) = those (map f vs)"
  by (simp add: de_list_def)

lemma not_null_string [simp]: "\<not> de_null yval_de (Y_Str s)"
  by (simp add: yval_de_def)

lemmas read_configs = config_of_def sink_config_of_def triage_config_of_def metrics_config_of_def
  k8s_config_of_def suppression_of_def rate_limit_of_def field_defs de_option_def de_map_def read_seq

lemmas config_default_defs = config_default_def triage_config_default_def metrics_config_default_def
  k8s_config_default_def suppression_config_default_def rate_limit_config_default_def
  default_rules_dir_def default_api_key_env_def default_model_def default_max_tokens_def default_max_alerts_def
  default_window_secs_def default_metrics_listen_def default_cri_socket_def default_cache_ttl_def

text \<open>The two configurations delivered with the agent, as the documents that their YAML is, differ
  from the defaults in what they say and in nothing else: the host, the paths to monitor, the sinks,
  that metrics are served (and where), and, in the first, that the file integrity rule may alert
  once in five minutes. Nothing in them is left for the normalisation to add.\<close>

theorem delivered_configurations_read:
  "map_option (normalize hn) (config_of yval_de hn sentinel_file) = Some ((config_default hn)
     \<lparr>cfg_host := ''sentinel-host-01'',
      cfg_monitored_paths := [''/etc/passwd'', ''/etc/shadow'', ''/etc/sudoers'', ''/etc/ssh/sshd_config''],
      cfg_sinks := [SC_Stdout, SC_Ndjson ''/tmp/sentinel/events.ndjson''],
      cfg_metrics := \<lparr>mc_enabled = True, mc_listen = ''0.0.0.0:9090''\<rparr>,
      cfg_suppression := \<lparr>sup_default = rate_limit_config_default,
        sup_rules = [''FIM-001'' \<mapsto> \<lparr>rlc_max_alerts = 1, rlc_window_secs = 300\<rparr>]\<rparr>\<rparr>) \<and>
   map_option (normalize hn) (config_of yval_de hn sentinel_grpc_file) = Some ((config_default hn)
     \<lparr>cfg_host := ''sentinel-grpc-demo'', cfg_monitored_paths := [''/etc/passwd'', ''/etc/shadow''],
      cfg_sinks := [SC_Stdout, SC_Grpc ''http://127.0.0.1:50051''],
      cfg_metrics := \<lparr>mc_enabled = True, mc_listen = ''127.0.0.1:9090''\<rparr>\<rparr>)"
proof
  show "map_option (normalize hn) (config_of yval_de hn sentinel_grpc_file) = Some ((config_default hn)
     \<lparr>cfg_host := ''sentinel-grpc-demo'', cfg_monitored_paths := [''/etc/passwd'', ''/etc/shadow''],
      cfg_sinks := [SC_Stdout, SC_Grpc ''http://127.0.0.1:50051''],
      cfg_metrics := \<lparr>mc_enabled = True, mc_listen = ''127.0.0.1:9090''\<rparr>\<rparr>)"
    by (simp add: sentinel_grpc_file_def read_configs normalize_def config_default_defs)
qed (simp add: sentinel_file_def read_configs normalize_def config_default_defs)

end
