(* ===== verification/Ndjson.thy ===== *)
theory Ndjson
  imports Endpoints Event_Serde "HOL-Library.Sublist"
begin

text \<open>
  The NDJSON file as a record of what the agent has seen: the values that \<open>ndjson.rs\<close> writes, and a
  reader that takes the file apart again. The text of a JSON value is the library's (\<open>render\<close>); what
  is relied on is that a compact text has no line breaks and parses to the value it came from.
\<close>

subsection \<open>Records\<close>

definition event_record :: "'v ser_api \<Rightarrow> enriched_event \<Rightarrow> 'v" where
  "event_record f e = ser_struct f [(''record_type'', ser_str f ''event''), (''data'', event_ser f e)]"

definition alert_record :: "'v ser_api \<Rightarrow> alert \<Rightarrow> 'v" where
  "alert_record f a = ser_struct f [(''record_type'', ser_str f ''alert''), (''data'', alert_ser f a)]"

datatype item = Event_Item enriched_event | Alert_Item alert

definition item_record :: "'v ser_api \<Rightarrow> item \<Rightarrow> 'v" where
  "item_record f it = (case it of Event_Item e \<Rightarrow> event_record f e | Alert_Item a \<Rightarrow> alert_record f a)"

definition item_kept :: "'v de_api \<Rightarrow> 'v ser_api \<Rightarrow> item \<Rightarrow> bool" where
  "item_kept de ser it \<longleftrightarrow>
     (case it of
        Event_Item e \<Rightarrow> True
      | Alert_Item a \<Rightarrow> (case al_triage a of Some t \<Rightarrow> float_kept de ser t | None \<Rightarrow> True))"


subsection \<open>Writing and reading\<close>



text \<open>What a file holds after the outputs: each appended line with its line feed (\<open>writeln!\<close>).\<close>

fun file_lines :: "string \<Rightarrow> sink_output list \<Rightarrow> string list" where
  "file_lines path [] = []"
| "file_lines path (Append_Line p l # log) = (if p = path then l # file_lines path log else file_lines path log)"
| "file_lines path (_ # log) = file_lines path log"


definition record_of :: "'v de_api \<Rightarrow> 'v \<Rightarrow> item option" where
  "record_of f v = do {
     es \<leftarrow> de_struct f v;
     kind \<leftarrow> required [''record_type''] es (de_str f);
     if kind = ''event'' then map_option Event_Item (required [''data''] es (event_of_data f))
     else if kind = ''alert'' then map_option Alert_Item (required [''data''] es (alert_of_data f))
     else None
   }"


subsection \<open>The file is read back\<close>

context serde_format
begin

lemma item_back: "item_kept de ser it \<Longrightarrow> record_of de (item_record ser it) = Some it"
proof (cases it)
  case (Alert_Item a)
  moreover assume "item_kept de ser it"
  ultimately have "alert_of_data de (alert_ser ser a) = Some a"
    by (intro alert_back) (simp add: item_kept_def)
  with Alert_Item show ?thesis
    by (simp add: item_record_def record_of_def alert_record_def field_defs)
qed (simp add: item_record_def record_of_def event_record_def field_defs)

end

lemma file_lines_append [simp]: "file_lines path (xs @ ys) = file_lines path xs @ file_lines path ys"
  by (induction path xs rule: file_lines.induct) simp_all

















end
