(* ===== verification/Build.thy ===== *)
theory Build
  imports Rust_Path
begin

text \<open>
  The build script \<open>build.rs\<close>: the protobuf compiler is put into the environment, the two protobuf
  files are compiled, and the package of the probes is looked up and built. The tools answer through
  \<open>build_env\<close>; the calls that were made are listed in order.
\<close>

record package =
  pk_name :: string
  pk_manifest_path :: string

datatype build_call =
    Set_Protoc string
  | Compile_Protos bool bool "string list" "string list"
  | Read_Metadata
  | Build_Ebpf string string

datatype build_error =
    Protoc_Panic
  | Protos_Failed string
  | Metadata_Failed
  | Package_Not_Found
  | No_Parent string
  | Ebpf_Failed

text \<open>
  \<open>be_compile server client protos includes\<close>; \<open>be_metadata\<close> are the packages of the workspace without
  their dependencies.
\<close>

record build_env =
  be_protoc :: "string option"
  be_compile :: "bool \<Rightarrow> bool \<Rightarrow> string list \<Rightarrow> string list \<Rightarrow> bool"
  be_metadata :: "package list option"
  be_ebpf :: "string \<Rightarrow> string \<Rightarrow> bool"

type_synonym built = "(build_error + unit) \<times> build_call list"

definition compile_protos ::
  "build_env \<Rightarrow> bool \<Rightarrow> bool \<Rightarrow> string list \<Rightarrow> string list \<Rightarrow> string \<Rightarrow> (build_call list \<Rightarrow> built) \<Rightarrow> build_call list \<Rightarrow> built" where
  "compile_protos env server client protos includes context_text rest calls =
     (let calls' = calls @ [Compile_Protos server client protos includes]
      in if be_compile env server client protos includes then rest calls'
         else (Inl (Protos_Failed context_text), calls'))"

definition build_probes :: "build_env \<Rightarrow> build_call list \<Rightarrow> built" where
  "build_probes env calls =
     (let calls' = calls @ [Read_Metadata]
      in case be_metadata env of
           None \<Rightarrow> (Inl Metadata_Failed, calls')
         | Some packages \<Rightarrow>
             (case find (\<lambda>p. pk_name p = ''sentinel-ebpf'') packages of
                None \<Rightarrow> (Inl Package_Not_Found, calls')
              | Some p \<Rightarrow>
                  (case path_parent (pk_manifest_path p) of
                     None \<Rightarrow> (Inl (No_Parent (pk_manifest_path p)), calls')
                   | Some root \<Rightarrow>
                       (if be_ebpf env (pk_name p) root then Inr () else Inl Ebpf_Failed,
                        calls' @ [Build_Ebpf (pk_name p) root]))))"

definition build_main :: "build_env \<Rightarrow> built" where
  "build_main env =
     (case be_protoc env of
        None \<Rightarrow> (Inl Protoc_Panic, [])
      | Some protoc \<Rightarrow>
          compile_protos env True True [''proto/sentinel.proto''] [''proto/''] ''compile sentinel protos''
            (compile_protos env False True [''proto/cri/api.proto''] [''proto/cri/''] ''compile cri protos''
              (build_probes env)) [Set_Protoc protoc])"

text \<open>
  A build that succeeds has made all its calls, in order: both protobuf files are compiled with the
  compiler that was set, the server's side for the sentinel service only, and what is built is the
  directory of the first package that is called \<open>sentinel-ebpf\<close>.
\<close>

lemma build_main_Ok:
  "build_main env = (Inr (), calls) \<longleftrightarrow>
     (\<exists>protoc packages p root.
        be_protoc env = Some protoc \<and>
        be_compile env True True [''proto/sentinel.proto''] [''proto/''] \<and>
        be_compile env False True [''proto/cri/api.proto''] [''proto/cri/''] \<and>
        be_metadata env = Some packages \<and> find (\<lambda>p. pk_name p = ''sentinel-ebpf'') packages = Some p \<and>
        path_parent (pk_manifest_path p) = Some root \<and> be_ebpf env ''sentinel-ebpf'' root \<and>
        calls = [Set_Protoc protoc, Compile_Protos True True [''proto/sentinel.proto''] [''proto/''],
          Compile_Protos False True [''proto/cri/api.proto''] [''proto/cri/''], Read_Metadata,
          Build_Ebpf ''sentinel-ebpf'' root])"
proof -
  have name: "find (\<lambda>p. pk_name p = ''sentinel-ebpf'') packages = Some p \<Longrightarrow> pk_name p = ''sentinel-ebpf''"
    for packages p
    by (auto simp: find_Some_iff)
  then show ?thesis
    by (auto simp: build_main_def compile_protos_def build_probes_def Let_def split: option.splits if_splits)
qed

text \<open>When a protobuf file does not compile, nothing is looked up or built after it.\<close>

lemma build_main_stops:
  assumes "build_main env = (Inl (Protos_Failed t), calls)"
  shows "Read_Metadata \<notin> set calls \<and> (\<forall>name root. Build_Ebpf name root \<notin> set calls)"
  using assms
  by (auto simp: build_main_def compile_protos_def build_probes_def Let_def split: option.splits if_splits)

end
