(* ===== verification/Spec2Isabelle.thy ===== *)
theory Spec2Isabelle
  imports Accounting Running Alert_Rate Host Endpoints Repo_Tests Delivered_Files Ndjson Build
begin

text \<open>
  A model of \<open>ebpf-sentinel\<close>, an endpoint detection agent for Linux written in Rust.

  \<^bold>\<open>The program.\<close> Five eBPF programs (\<open>sentinel-ebpf\<close>) are attached to tracepoints. They keep a tree
  of processes in a kernel map and write fixed-size events (\<open>sentinel-common\<close>) into a ring buffer:
  \<open>execve\<close>, \<open>connect\<close>, \<open>openat\<close>, forks, and writes to monitored paths. The daemon (\<open>sentinel\<close>) loads the
  programs, fills their maps, and then runs two threads: one parses the records of the ring
  buffer and sends the events into a bounded channel, the other enriches each event with what it
  knows about processes and containers, evaluates the detection rules, and hands alerts through a
  rate limiter and an optional triage service to its sinks (standard output, NDJSON files, gRPC).

  \<^bold>\<open>Theories and sources.\<close> The definitions stand in the order of the code and carry its names.

  \<^item> \<open>Prelude\<close>: machine integers, outcomes with panics and errors, byte order, saturating
    arithmetic, folding an operation over requests (\<open>run\<close>) and the locale \<open>forward_simulation\<close>.
  \<^item> \<open>Rust_Str\<close>, \<open>Rust_Utf8\<close>, \<open>Rust_Net\<close>, \<open>Rust_Path\<close>: what the sources use of Rust's standard library.
    A \<open>String\<close> is the list of its UTF-8 bytes.
  \<^item> \<open>Common\<close>, \<open>Pipeline\<close>: \<open>sentinel-common/src/lib.rs\<close> and \<open>pipeline.rs\<close>, the event and its memory layout.
  \<^item> \<open>Bpf\<close>: \<open>sentinel-ebpf/src\<close> (\<open>probes.rs\<close>, \<open>helpers.rs\<close>, the maps of \<open>main.rs\<close>). The answers of the kernel
    are a context, the maps are the state; the locale \<open>kernel_maps\<close> states what the map of processes
    and the ring buffer promise, and is interpreted on maps with the capacities of the source.
  \<^item> \<open>Loader\<close>, \<open>Procfs\<close>, \<open>Host\<close>: \<open>loader.rs\<close> and the reading of \<open>/proc\<close>.
  \<^item> \<open>Config\<close>: \<open>config.rs\<close>; the locale \<open>file_system\<close> for the directories validation creates.
  \<^item> \<open>Serde\<close>, \<open>Config_Serde\<close>, \<open>Event_Serde\<close>, \<open>Rules_Serde\<close>: what the derived \<open>Serialize\<close> and \<open>Deserialize\<close> of the
    structs make of a document, with their attributes, in any data format; the locale \<open>serde_format\<close>
    is what a format promises, and is interpreted on JSON and on YAML values.
  \<^item> \<open>Enricher\<close>, \<open>Event\<close>, \<open>K8s\<close>: \<open>enricher.rs\<close>, \<open>event.rs\<close>, \<open>k8s.rs\<close>; the locale \<open>cgroup_regex\<close> states the meaning
    of the five regular expressions.
  \<^item> \<open>Rules\<close>, \<open>Sigma\<close>: \<open>rules/mod.rs\<close>, \<open>rules/sigma.rs\<close>; the locale \<open>yaml_values\<close> states how the accessors of
    YAML values go together.
  \<^item> \<open>Suppress\<close>, \<open>Triage\<close>, \<open>Sinks\<close>, \<open>Metrics\<close>: the files of those names; the locale \<open>event_sink\<close> is the contract
    of a sink, interpreted for events and for alerts.
  \<^item> \<open>Agent\<close>, \<open>Agent_Loop\<close>, \<open>Daemon\<close>, \<open>Startup\<close>: \<open>main.rs\<close>. \<open>process_event\<close> and what it leads to; the loop over many
    events; the two threads, the channel, the refresh of the container cache and the interrupt as a
    transition system whose steps interleave; and the start-up in the order of \<open>main\<close>.
  \<^item> \<open>System\<close>: the probes of \<open>Bpf\<close> and the daemon of \<open>Daemon\<close>, joined by the ring buffer: runs of probes and steps
    of the daemon interleave. Every run projects to a run of the daemon. \<open>Alert_Rate\<close>: the rate limit as the
    ingest service sees it. \<open>Accounting\<close>: where the matches of a rule end up. \<open>Running\<close>: what bounds the memory
    of a running monitor.
  \<^item> \<open>Delivered\<close>: the rule files of \<open>rules/\<close> and \<open>sigma/\<close>; the locale \<open>rule_patterns\<close> states the meaning of
    their regular expressions. \<open>Delivered_Files\<close>: these files and the configurations of \<open>config/\<close> as the
    documents they are, and what is read from them.
  \<^item> \<open>Endpoints\<close>: the metrics server and \<open>bin/grpc-ingest.rs\<close>. \<open>Ndjson\<close>: the records of \<open>sinks/ndjson.rs\<close> and a
    reader of the file. \<open>Build\<close>: \<open>build.rs\<close>.
  \<^item> \<open>Repo_Tests\<close>: the repository's own unit and integration tests, which hold of the model.
  \<^item> This theory: properties from a system call to the alert, across all components.

  \<^bold>\<open>What is shown.\<close> Kernel side: what each probe emits, that a process keeps its parent under any
  interleaving of probes, when a path is monitored, and that a full process tree never recovers.
  Transport: records and events correspond one to one, the pipeline is first in first out, loses
  nothing while its receiver lives, keeps its bound, counts its parse errors, always drains, and the
  threads together do what the sequential loop does. The whole system: from the probe that emits an
  event to the loop that receives it nothing is lost but what finds the ring buffer full, nothing is
  reordered, and nothing of it is a parse error; once the system is idle its counters count what the
  probes emitted, every match of an alerting rule is counted as an alert or as suppressed, and, from
  the start of the agent on, the daemon's process table has the parents that the kernel's has; the
  buffers and tables of both sides stay within their bounds. Enrichment: when the lineage walk ends (the
  loop is a partial function, so not ending is a value), what it returns, and when enrichment is
  sure to return. Detection: compiled rules mean what the rules say, which rule files load, and what
  the translation of Sigma rules keeps and loses; the delivered rules load, and the alerts of an agent
  that has them are listed for every event. Limiter: it refines the abstract rate limit, the
  limit holds in every window, also of what an ingest service receives over all events, and keys do
  not influence each other. Sinks:
  who has seen an alert after a success and after a failure. Start-up: what a running agent has.
  Endpoints: a client reads from the metrics endpoint what was encoded, or notices. Data: every
  configuration and every rule can be written and read back, the delivered files are read as the
  rules and settings they state, and an NDJSON file gives back what was emitted to it.

  \<^bold>\<open>Bounds.\<close> No fuel is used: loops are structural, have a measure, or are partial functions. The
  kernel's tree holds 8192 entries, the ring buffer 256 KiB (1213 records of 208 bytes with
  their headers), the channel 4096 events, the daemon's table 32768 processes, and 64 paths are
  monitored; times and identifiers are machine words, with the arithmetic of the source.

  \<^bold>\<open>Not in the model.\<close> Code outside the repository appears as arguments: the kernel and \<open>aya\<close>, the YAML,
  JSON and regular-expression libraries, \<open>chrono\<close>, the CRI service, the HTTP client, \<open>tonic\<close>, files and
  standard streams, and the tools of the build. Not modelled are logging, command-line parsing, and the
  text encoding of the metrics. A probe runs as one step, and the events of probes that run before the
  agent enters its loop are left out. Of the serde formats only what the derived code asks of them is
  used: the syntax of YAML and JSON is the libraries'. Counters are natural
  numbers where the library has floats (exact up to 2^53). An alert is exported at once: the
  steps of the other threads that could fall inside \<open>process_event\<close> touch only the counter of parse
  errors and the container cache, which is read once per event.
\<close>

section \<open>From the kernel to the alert\<close>

lemma wf_event_of:
  "length comm = 16 \<Longrightarrow> length path = 128 \<Longrightarrow> length v6 = 16 \<Longrightarrow>
   wf_event (event_of k tick kind pid ppid comm path flags fam addr port v6)"
  by (simp add: wf_event_def event_of_def)

text \<open>A matching rule of the engine raises its alert.\<close>

lemma evaluate_member:
  "c \<in> set engine \<Longrightarrow> ru_enabled (cr_rule c) \<Longrightarrow> matches tbl y rx c e \<Longrightarrow>
   alert_of (cr_rule c) e \<in> set (evaluate tbl y rx engine e)"
  by (induction engine) auto

lemma lower_kinds [simp]:
  "to_lowercase tbl ''connect'' = ''connect''" "to_lowercase tbl ''exec'' = ''exec''"
  "to_lowercase tbl ''fileintegrity'' = ''fileintegrity''"
  "eq_ignore_ascii_case ''connect'' ''connect''" "eq_ignore_ascii_case ''exec'' ''exec''"
  "eq_ignore_ascii_case ''fileintegrity'' ''fileintegrity''"
  by code_simp+

text \<open>What enrichment takes over from any event.\<close>

lemma enrich_fields:
  assumes "enrich env en e = Some (ev, en')"
  shows "ee_kind ev = kind_name (se_kind e)" "ee_pid ev = se_pid e" "ee_flags ev = se_flags e"
    "ee_path ev = cstr_path (se_path e)" "ee_dst_addr ev = dst_addr_text e"
    "ee_addr_family ev = (if se_addr_family e \<noteq> 0 then Some (se_addr_family e) else None)"
    "ee_dst_port ev = (if se_dst_port e \<noteq> 0 then Some (se_dst_port e) else None)"
  using assms by (auto simp: enrich_def enriched_of_def Let_def)

subsection \<open>Connections\<close>





lemma one_pointer: "(from_ne_bytes (1 # replicate 7 0) :: u64) = 1"
  by code_simp







subsection \<open>File integrity\<close>

lemma fim_rule_matches:
  assumes "compiled_rule_new yval_api rx fim_rule = Inr c" "ee_kind e = ''fileintegrity''"
  shows "matches tbl yval_api rx c e"
  using matches_compiled [OF assms(1)] delivered_plain assms(2)
  by (simp add: delivered_rules_def delivered_files_def plain_conditions kind_is_def)

lemma openat_monitored_write:
  assumes "bs_scratch s \<noteq> None" "kc_read_at k 24 8 = Some fb" "kc_read_at k 32 4 = Some gb"
    "write_access (from_ne_bytes gb)"
    "path_matches_monitored (bs_monitored s) (read_user_path k (from_ne_bytes fb) (replicate 128 0))"
  shows "bs_events (snd (probe ops Sys_Enter_Openat k s)) =
    (let event = (\<lambda>tick kind. event_of k tick kind (current_pid k) (current_ppid ops k (bs_tree s)) (read_comm k)
           (read_user_path k (from_ne_bytes fb) (replicate 128 0)) (from_ne_bytes gb) 0 0 0 (replicate 16 0))
     in mo_output ops (mo_output ops (bs_events s) (event (bs_ticks s) Open)) (event (Suc (bs_ticks s)) FileIntegrity))"
  using assms
  by (auto simp: try_openat_def read_at_def emit_event_def emit_event_with_pid_eq write_access_def
      SYS_ENTER_OPENAT_FILENAME_def SYS_ENTER_OPENAT_FLAGS_def O_ACCMODE_def O_WRONLY_def O_RDWR_def Let_def)

text \<open>C16: File integrity monitoring from end to end: once the configured paths have been loaded, an
  \<open>openat\<close> for writing of a path that begins with one of the first 64 of them puts an \<open>open\<close> and
  a \<open>FileIntegrity\<close> event into the ring buffer (when it has room), the daemon reads the latter
  back, and the delivered rule raises its alert, with the path, in every engine that holds it.\<close>

theorem file_integrity_end_to_end:
  assumes "populate_monitored_paths True set_ok paths empty_slots = (Inr (), bs_monitored s)"
    "\<And>m. m \<in> set paths \<Longrightarrow> 0 \<notin> set (bytes_of_string m)"
    "m \<in> set (take 64 paths)" "m \<noteq> []" "prefix (take 127 (bytes_of_string m)) p" "0 \<notin> set p" "length p \<le> 128"
    "bs_scratch s \<noteq> None" "(length (bs_events s) + 2) * (8 + size_of_event) \<le> RING_BYTES"
    "kc_read_at k 24 8 = Some fb" "kc_read_at k 32 4 = Some gb" "write_access (from_ne_bytes gb)"
    "read_user_path k (from_ne_bytes fb) (replicate 128 0) = pad_to 128 p" "length (read_comm k) = 16"
    "compiled_rule_new yval_api rx fim_rule = Inr c" "c \<in> set engine"
  shows "\<exists>opened fim. bs_events (snd (probe main_ops Sys_Enter_Openat k s)) = bs_events s @ [opened, fim] \<and>
    (\<forall>q r. length q = 4 \<longrightarrow> length r = 4 \<longrightarrow> parse_ring_event (event_bytes q r fim) = Some fim) \<and>
    (\<forall>env en ev en'. enrich env en fim = Some (ev, en') \<longrightarrow>
       ee_path ev = from_utf8_lossy p \<and> alert_of fim_rule ev \<in> set (evaluate lower yval_api rx engine ev))"
proof -
  let ?event = "\<lambda>tick kind. event_of k tick kind (current_pid k) (current_ppid main_ops k (bs_tree s)) (read_comm k)
      (pad_to 128 p) (from_ne_bytes gb) 0 0 0 (replicate 16 0)"
  let ?opened = "?event (bs_ticks s) Open" and ?fim = "?event (Suc (bs_ticks s)) FileIntegrity"
  have "path_matches_monitored (bs_monitored s) (pad_to 128 p)"
    using monitored_paths_loaded [OF assms(1,2,6)] assms(3-5) by blast
  then have "bs_events (snd (probe main_ops Sys_Enter_Openat k s)) =
      mo_output main_ops (mo_output main_ops (bs_events s) ?opened) ?fim"
    using openat_monitored_write [OF assms(8,10-12), of main_ops] by (simp add: assms(13) Let_def)
  then have "bs_events (snd (probe main_ops Sys_Enter_Openat k s)) = bs_events s @ [?opened, ?fim]"
    using assms(9) by (simp add: main_ops_def ring_output_def algebra_simps)
  moreover have "length (pad_to 128 p) = 128" using assms(7) by (simp add: pad_to_def)
  then have "parse_ring_event (event_bytes q r ?fim) = Some ?fim" if "length q = 4" "length r = 4" for q r
    using that assms(14) by (intro parse_event_bytes wf_event_of) simp_all
  moreover have "ee_path ev = from_utf8_lossy p \<and> alert_of fim_rule ev \<in> set (evaluate lower yval_api rx engine ev)"
    if "enrich env en ?fim = Some (ev, en')" for env en ev en'
  proof -
    have kind: "ee_kind ev = ''fileintegrity''" and path: "ee_path ev = from_utf8_lossy p"
      using enrich_fields(1,4) [OF that] assms(6)
      by (simp_all add: event_of_def cstr_path_def take_str_len takeWhile_pad_to del: kind_as_u32.simps)
    have rule: "cr_rule c = fim_rule" using compiled_rule_newD [OF assms(15)] by simp
    have "alert_of (cr_rule c) ev \<in> set (evaluate lower yval_api rx engine ev)"
      using assms(16) by (rule evaluate_member)
        (simp_all add: rule fim_rule_matches [OF assms(15) kind], simp add: fim_rule_def)
    then show ?thesis by (simp add: path rule)
  qed
  ultimately show ?thesis by blast
qed

theorem file_integrity_end_to_end_witness:
  "\<exists>opened fim. bs_events (snd (probe main_ops Sys_Enter_Openat
       (quiet_kctx\<lparr>kc_read_user_str := (\<lambda>_ _. pad_to 128 (bytes_of_string ''/etc/passwd-'')),
          kc_read_at := (\<lambda>_ n. Some (1 # replicate (n - 1) 0))\<rparr>)
       (start_state (snd (populate_monitored_paths True (\<lambda>_. True) [''/etc/passwd''] empty_slots)) []))) = [opened, fim]"
proof -
  let ?k = "quiet_kctx\<lparr>kc_read_user_str := (\<lambda>_ _. pad_to 128 (bytes_of_string ''/etc/passwd-'')),
      kc_read_at := (\<lambda>_ n. Some (1 # replicate (n - 1) 0))\<rparr>"
  let ?s = "start_state (snd (populate_monitored_paths True (\<lambda>_. True) [''/etc/passwd''] empty_slots)) []"
  have z: "0 \<notin> set (bytes_of_string ''/etc/passwd-'')" "0 \<notin> set (bytes_of_string ''/etc/passwd'')"
    by (rule zero_notin_bytes; simp)+
  have pop: "populate_monitored_paths True (\<lambda>_. True) [''/etc/passwd''] empty_slots = (Inr (), bs_monitored ?s)"
    by (simp add: populate_monitored_paths_def start_state_def)
  have k: "kc_read_at ?k 24 8 = Some (1 # replicate 7 0)" "kc_read_at ?k 32 4 = Some (1 # replicate 3 0)"
    "read_user_path ?k (from_ne_bytes (1 # replicate 7 0)) (replicate 128 0) = pad_to 128 (bytes_of_string ''/etc/passwd-'')"
    "bs_scratch ?s \<noteq> None" "length (read_comm ?k) = 16" "bs_events ?s = []"
    by (simp_all add: quiet_kctx_def start_state_def read_comm_def read_user_path_def one_pointer del: replicate.simps)
  have w: "write_access (from_ne_bytes (1 # replicate 3 0))" by code_simp
  have room: "(length (bs_events ?s) + 2) * (8 + size_of_event) \<le> RING_BYTES"
    by (simp add: k(6) size_of_event_def RING_BYTES_def)
  have len: "length (bytes_of_string ''/etc/passwd-'') \<le> 128"
    and pre: "prefix (take 127 (bytes_of_string ''/etc/passwd'')) (bytes_of_string ''/etc/passwd-'')"
    by (simp_all add: bytes_of_string_def)
  obtain c where "compiled_rule_new yval_api literal_regex fim_rule = Inr c"
    by (simp add: compiled_rule_new_def rule_defs)
  moreover have "0 \<notin> set (bytes_of_string m)" if "m \<in> set [''/etc/passwd'']" for m
    using that z(2) by simp
  moreover have "''/etc/passwd'' \<in> set (take 64 [''/etc/passwd''])" "''/etc/passwd'' \<noteq> []" "c \<in> set [c]"
    by simp_all
  ultimately have "\<exists>opened fim. bs_events (snd (probe main_ops Sys_Enter_Openat ?k ?s)) = bs_events ?s @ [opened, fim]"
    using file_integrity_end_to_end [OF pop _ _ _ pre z(1) len k(4) room k(1,2) w k(3,5)] by blast
  then show ?thesis by (simp only: k(6) append_Nil)
qed

subsection \<open>A reverse shell\<close>



end
